theory Spec2Isabelle
  imports Complex_Main
begin

section \<open>JavaScript values used by \<^verbatim>\<open>src/manifest.js\<close>\<close>

text \<open>
  A property that may be missing is an \<open>option\<close>: \<open>None\<close> is \<^verbatim>\<open>undefined\<close>
  (for the fields tested with \<^verbatim>\<open>hasOwnProperty\<close>: not an own property).
  A string is falsy when it is missing or empty, a number when it is missing or zero.
  Durations are finite numbers, modelled as rationals: the code only compares them.
\<close>

definition truthy :: "string option \<Rightarrow> bool" where
  "truthy v = (case v of None \<Rightarrow> False | Some s \<Rightarrow> s \<noteq> [])"

definition truthy_num :: "rat option \<Rightarrow> bool" where
  "truthy_num v = (case v of None \<Rightarrow> False | Some x \<Rightarrow> x \<noteq> 0)"

text \<open>The value of \<^verbatim>\<open>a || b\<close> on optional strings.\<close>

definition or_else :: "string option \<Rightarrow> string option \<Rightarrow> string option" where
  "or_else a b = (if truthy a then a else b)"

text \<open>A value inside a template literal: \<^verbatim>\<open>`${v}`\<close>.\<close>

definition to_str :: "string option \<Rightarrow> string" where
  "to_str v = (case v of None \<Rightarrow> ''undefined'' | Some s \<Rightarrow> s)"

definition digit_char :: "nat \<Rightarrow> char" where
  "digit_char d = ''0123456789'' ! d"

fun string_of_nat :: "nat \<Rightarrow> string" where
  "string_of_nat n =
     (if n < 10 then [digit_char n]
      else string_of_nat (n div 10) @ [digit_char (n mod 10)])"

declare string_of_nat.simps [simp del]

section \<open>parseManifest\<close>

text \<open>
  The manifest the parser hands over (\<^verbatim>\<open>parser.manifest\<close>), with the fields
  \<^verbatim>\<open>parseManifest\<close> reads or deletes. \<open>'v\<close> stands for the values the function
  never looks into.
\<close>

record part =
  part_duration :: rat

record 'v segment =
  duration :: rat
  parts :: "part list option"
  preloadHints :: "'v option"

record 'v manifest =
  preloadSegment :: "'v option"
  skip :: "'v option"
  serverControl :: "'v option"
  renditionReports :: "'v option"
  partInf :: "'v option"
  partTargetDuration :: "rat option"
  targetDuration :: "rat option"
  segments :: "'v segment list option"

text \<open>
  What the function reports: the messages passed to \<^verbatim>\<open>onwarn\<close> (the template
  literal with its number) and the calls of \<^verbatim>\<open>log.error\<close>, in order.
\<close>

datatype report =
    WarnNoTargetDuration rat
  | WarnNoPartTargetDuration rat
  | LogErrorMissingPartTarget

text \<open>Lines 63 to 86: the low-latency fields are deleted when \<^verbatim>\<open>llhls\<close> is falsy.\<close>

definition strip_segment :: "'v segment \<Rightarrow> 'v segment" where
  "strip_segment s = s\<lparr>parts := None, preloadHints := None\<rparr>"

definition strip_llhls :: "'v manifest \<Rightarrow> 'v manifest" where
  "strip_llhls m =
     m\<lparr>preloadSegment := None, skip := None, serverControl := None,
       renditionReports := None, partInf := None, partTargetDuration := None,
       segments := map_option (map strip_segment) (segments m)\<rparr>"

text \<open>
  \<^verbatim>\<open>xs.reduce((acc, x) => Math.max(acc, x.duration), 0)\<close>, on the list of durations.
\<close>

definition max_duration :: "rat list \<Rightarrow> rat" where
  "max_duration ds = fold (\<lambda>d acc. max acc d) ds 0"

text \<open>Lines 87 to 99.\<close>

definition default_targetDuration :: "bool \<Rightarrow> 'v manifest \<Rightarrow> 'v manifest \<times> report list" where
  "default_targetDuration onwarn m =
     (if \<not> truthy_num (targetDuration m) then
        (let td = (case segments m of
                     None \<Rightarrow> 10
                   | Some ss \<Rightarrow> if ss = [] then 10 else max_duration (map duration ss))
         in (m\<lparr>targetDuration := Some td\<rparr>,
             if onwarn then [WarnNoTargetDuration td] else []))
      else (m, []))"

text \<open>
  Lines 101 to 111. \<^verbatim>\<open>getLastParts\<close> is imported from \<^verbatim>\<open>playlist.js\<close>; it is a
  parameter here.
\<close>

definition default_partTargetDuration ::
  "bool \<Rightarrow> ('v manifest \<Rightarrow> part list) \<Rightarrow> 'v manifest \<Rightarrow> 'v manifest \<times> report list" where
  "default_partTargetDuration onwarn getLastParts m =
     (let ps = getLastParts m in
      if ps \<noteq> [] \<and> \<not> truthy_num (partTargetDuration m) then
        (let ptd = max_duration (map part_duration ps)
         in (m\<lparr>partTargetDuration := Some ptd\<rparr>,
             if onwarn then [WarnNoPartTargetDuration ptd, LogErrorMissingPartTarget] else []))
      else (m, []))"

text \<open>
  \<^verbatim>\<open>parseManifest\<close> from line 59 on, applied to the manifest the parser produced.
  \<open>onwarn\<close> says whether a warning callback was given; the result is the manifest and
  what was reported after parsing.
\<close>

definition parseManifest ::
  "bool \<Rightarrow> ('v manifest \<Rightarrow> part list) \<Rightarrow> bool \<Rightarrow> 'v manifest \<Rightarrow> 'v manifest \<times> report list" where
  "parseManifest onwarn getLastParts llhls parsed =
     (let m1 = (if \<not> llhls then strip_llhls parsed else parsed);
          (m2, r2) = default_targetDuration onwarn m1;
          (m3, r3) = default_partTargetDuration onwarn getLastParts m2
      in (m3, r2 @ r3))"

section \<open>Playlist objects, the store and the main manifest\<close>

text \<open>
  The functions from line 125 on mutate JavaScript objects in place, and the same
  playlist object is reachable from several places. Objects therefore live in a store:
  \<open>heap\<close> maps a reference to the object's fields and \<open>nxt\<close> is the next unused
  reference (an object literal and \<^verbatim>\<open>Object.assign({}, ...)\<close> allocate there).

  One record serves for a media playlist and for a rendition of a media group: the
  fields the code reads or writes. \<open>id'\<close> is the property \<^verbatim>\<open>id\<close> and \<open>playlistErrors\<close>
  is \<^verbatim>\<open>playlistErrors_\<close>; \<open>attributes\<close>
  never has its entries changed by this file, so it is kept as a value.
\<close>

type_synonym ref = nat

datatype attr = AStr string | ANum nat

definition truthy_attr :: "attr option \<Rightarrow> bool" where
  "truthy_attr v = (case v of None \<Rightarrow> False | Some (AStr s) \<Rightarrow> s \<noteq> [] | Some (ANum n) \<Rightarrow> n \<noteq> 0)"

record playlist =
  uri :: "string option"
  resolvedUri :: "string option"
  id' :: "string option"
  playlistErrors :: "nat option"
  attributes :: "(string \<rightharpoonup> attr) option"
  playlists :: "ref list option"

text \<open>
  The main manifest is one object, held in the state beside the store.
  \<^verbatim>\<open>main.playlists\<close> is a JavaScript array that the code also uses as a dictionary, so
  the state holds what an array holds. \<open>main_playlists\<close> are its elements
  \<^verbatim>\<open>main.playlists[0..length-1]\<close>, where \<open>None\<close> is an index without an object, which
  reads as \<^verbatim>\<open>undefined\<close>. \<open>main_playlists_key\<close> are its own properties under the keys
  that are neither an array index nor \<^verbatim>\<open>length\<close>. \<open>main_playlists_proto\<close> is the
  object that an assignment to the key \<^verbatim>\<open>__proto__\<close> has made the prototype of the
  array, if there was such an assignment.
  The groups and labels of \<open>mediaGroups\<close> are association lists in the order
  \<^verbatim>\<open>for ... in\<close> enumerates them (their keys are distinct, as an object's are).
  \<open>log_warn\<close> counts the calls of \<^verbatim>\<open>log.warn\<close>.
\<close>

record state =
  heap :: "ref \<Rightarrow> playlist"
  nxt :: ref
  main_uri :: "string option"
  main_resolvedUri :: "string option"
  main_playlists :: "ref option list"
  main_playlists_key :: "string \<rightharpoonup> ref"
  main_playlists_proto :: "ref option"
  mediaGroups :: "(string \<rightharpoonup> (string \<times> (string \<times> ref) list) list) option"
  log_warn :: nat

text \<open>
  An exception ends the call: a function that can throw returns the exception or the
  state. \<open>and_then\<close> is the sequence of two statements and \<open>for_each\<close> a loop over a
  list whose body can throw.
\<close>

datatype error = TypeError | RangeError

definition and_then :: "error + 'a \<Rightarrow> ('a \<Rightarrow> error + 'b) \<Rightarrow> error + 'b" where
  "and_then x f = (case x of Inl e \<Rightarrow> Inl e | Inr a \<Rightarrow> f a)"

fun for_each :: "('a \<Rightarrow> 's \<Rightarrow> error + 's) \<Rightarrow> 'a list \<Rightarrow> 's \<Rightarrow> error + 's" where
  "for_each f [] s = Inr s"
| "for_each f (x # xs) s = and_then (f x s) (for_each f xs)"

text \<open>
  A property key is an array index when it is the decimal numeral, without sign and
  without a leading zero, of a number below \<open>2\<^sup>3\<^sup>2 - 1\<close>.
\<close>

definition is_digit :: "char \<Rightarrow> bool" where
  "is_digit c = (c \<in> set ''0123456789'')"

definition digit_value :: "char \<Rightarrow> nat" where
  "digit_value c = length (takeWhile (\<lambda>d. d \<noteq> c) ''0123456789'')"

definition numeral_value :: "string \<Rightarrow> nat" where
  "numeral_value k = fold (\<lambda>c n. 10 * n + digit_value c) k 0"

definition array_index :: "string \<Rightarrow> nat option" where
  "array_index k =
     (if k \<noteq> [] \<and> list_all is_digit k \<and> (hd k \<noteq> CHR ''0'' \<or> k = ''0'') \<and>
         numeral_value k < 4294967295
      then Some (numeral_value k) else None)"

text \<open>
  The expression \<^verbatim>\<open>main.playlists[i]\<close> for a number \<open>i\<close>, and the assignment
  \<^verbatim>\<open>main.playlists[k] = v\<close> for a string \<open>k\<close>, where \<open>v\<close> is an object of the store or
  \<^verbatim>\<open>undefined\<close>. Assigning to \<^verbatim>\<open>length\<close> a value that is no number throws a
  \<^verbatim>\<open>RangeError\<close>. The key \<^verbatim>\<open>__proto__\<close> is the accessor that \<^verbatim>\<open>Object.prototype\<close>
  defines: an object assigned to it becomes the prototype of the array and the array
  gets no property. An array index sets the element, and behind the end of the array
  it makes the array longer; the indices in between hold no object. Any other key is
  an own property of the array.
\<close>

definition playlists_at :: "state \<Rightarrow> nat \<Rightarrow> ref option" where
  "playlists_at s i = (if i < length (main_playlists s) then main_playlists s ! i else None)"

definition playlists_assign :: "string \<Rightarrow> ref option \<Rightarrow> state \<Rightarrow> error + state" where
  "playlists_assign k v s =
     (if k = ''length'' then Inl RangeError
      else if k = ''__proto__''
      then Inr (case v of None \<Rightarrow> s | Some r \<Rightarrow> s\<lparr>main_playlists_proto := Some r\<rparr>)
      else case array_index k of
             Some n \<Rightarrow>
               Inr (s\<lparr>main_playlists :=
                      (if n < length (main_playlists s) then (main_playlists s)[n := v]
                       else main_playlists s @
                            replicate (n - length (main_playlists s)) None @ [v])\<rparr>)
           | None \<Rightarrow> Inr (s\<lparr>main_playlists_key := (main_playlists_key s)(k := v)\<rparr>))"

text \<open>Lines 9 to 16.\<close>

definition createPlaylistID :: "nat \<Rightarrow> string option \<Rightarrow> string" where
  "createPlaylistID index u = string_of_nat index @ ''-'' @ to_str u"

definition groupID :: "string \<Rightarrow> string \<Rightarrow> string \<Rightarrow> string" where
  "groupID mediaType groupKey labelKey =
     ''placeholder-uri-'' @ mediaType @ ''-'' @ groupKey @ ''-'' @ labelKey"

text \<open>
  Lines 125 to 141. The entries are listed from the manifest before the first call:
  no callback of this file changes \<^verbatim>\<open>main.mediaGroups\<close> itself.
\<close>

definition media_group_entries :: "state \<Rightarrow> (ref \<times> string \<times> string \<times> string) list" where
  "media_group_entries s =
     (case mediaGroups s of
        None \<Rightarrow> []
      | Some mg \<Rightarrow>
          concat (map (\<lambda>mediaType.
            case mg mediaType of
              None \<Rightarrow> []
            | Some groups \<Rightarrow>
                concat (map (\<lambda>(groupKey, labels).
                  map (\<lambda>(labelKey, d). (d, mediaType, groupKey, labelKey)) labels) groups))
            [''AUDIO'', ''SUBTITLES'']))"

definition forEachMediaGroup ::
  "(ref \<Rightarrow> string \<Rightarrow> string \<Rightarrow> string \<Rightarrow> state \<Rightarrow> error + state) \<Rightarrow> state \<Rightarrow> error + state" where
  "forEachMediaGroup callback s =
     for_each (\<lambda>(d, mediaType, groupKey, labelKey). callback d mediaType groupKey labelKey)
       (media_group_entries s) s"

text \<open>Lines 157 to 176; \<open>u\<close> is the optional argument \<^verbatim>\<open>uri\<close>.\<close>

definition setupMediaPlaylist :: "ref \<Rightarrow> string option \<Rightarrow> string \<Rightarrow> state \<Rightarrow> state" where
  "setupMediaPlaylist r u i s =
     (let p1 = (heap s r)\<lparr>id' := Some i, playlistErrors := Some 0\<rparr>;
          p2 = (if truthy u then p1\<lparr>uri := u\<rparr> else p1);
          p3 = p2\<lparr>attributes :=
                   Some (case attributes p2 of None \<Rightarrow> Map.empty | Some a \<Rightarrow> a)\<rparr>
      in s\<lparr>heap := (heap s)(r := p3)\<rparr>)"

text \<open>
  Lines 186 to 209. \<^verbatim>\<open>resolveUrl\<close> is imported from \<^verbatim>\<open>resolve-url.js\<close> and is a
  parameter. The loop body for index \<open>i\<close>, then the loop from the last index down: the
  length is read once, on line 187. Reading \<^verbatim>\<open>playlist.uri\<close> on line 194 throws a
  \<^verbatim>\<open>TypeError\<close> when the array holds no object at \<open>i\<close>. Lines 197 and 199 are
  assignments to the array.
\<close>

type_synonym resolver = "string option \<Rightarrow> string option \<Rightarrow> string option"

definition setupMediaPlaylists_body :: "resolver \<Rightarrow> nat \<Rightarrow> state \<Rightarrow> error + state" where
  "setupMediaPlaylists_body resolveUrl i s =
     (case playlists_at s i of
        None \<Rightarrow> Inl TypeError
      | Some r \<Rightarrow>
          (let s1 = setupMediaPlaylist r None (createPlaylistID i (uri (heap s r))) s;
               s2 = s1\<lparr>heap := (heap s1)(r :=
                      (heap s1 r)\<lparr>resolvedUri := resolveUrl (main_uri s1) (uri (heap s1 r))\<rparr>)\<rparr>
           in and_then (playlists_assign (to_str (id' (heap s2 r))) (Some r) s2) (\<lambda>s3.
              and_then (playlists_assign (to_str (uri (heap s3 r))) (Some r) s3) (\<lambda>s4.
              Inr (if \<not> truthy_attr (the (attributes (heap s4 r)) ''BANDWIDTH'')
                   then s4\<lparr>log_warn := Suc (log_warn s4)\<rparr> else s4)))))"

definition setupMediaPlaylists :: "resolver \<Rightarrow> state \<Rightarrow> error + state" where
  "setupMediaPlaylists resolveUrl s =
     for_each (setupMediaPlaylists_body resolveUrl) (rev [0..<length (main_playlists s)]) s"

text \<open>Lines 217 to 223.\<close>

definition resolveMediaGroupUris :: "resolver \<Rightarrow> state \<Rightarrow> error + state" where
  "resolveMediaGroupUris resolveUrl s =
     forEachMediaGroup (\<lambda>d mediaType groupKey labelKey t.
       Inr (if truthy (uri (heap t d))
            then t\<lparr>heap := (heap t)(d :=
                   (heap t d)\<lparr>resolvedUri := resolveUrl (main_uri t) (uri (heap t d))\<rparr>)\<rparr>
            else t)) s"

text \<open>
  Lines 236 to 263. \<open>href\<close> is \<^verbatim>\<open>window.location.href\<close>. The function builds a
  new main manifest around one new playlist object; the argument \<open>media\<close> is not used
  by the source either. Lines 258 and 260 are assignments to the array that the
  literal of line 247 has made, and both read \<^verbatim>\<open>main.playlists[0]\<close>.
\<close>

definition mainForMedia :: "string \<Rightarrow> 'm \<Rightarrow> string \<Rightarrow> state \<Rightarrow> error + state" where
  "mainForMedia href media u s =
     (let i = createPlaylistID 0 (Some u);
          r = nxt s;
          p = \<lparr>uri = Some u, resolvedUri = Some u, id' = Some i, playlistErrors = None,
               attributes = Some Map.empty, playlists = None\<rparr>;
          m = \<lparr>heap = (heap s)(r := p), nxt = Suc r,
               main_uri = Some href, main_resolvedUri = Some href,
               main_playlists = [Some r], main_playlists_key = Map.empty,
               main_playlists_proto = None,
               mediaGroups = Some [''AUDIO'' \<mapsto> [], ''VIDEO'' \<mapsto> [],
                                   ''CLOSED-CAPTIONS'' \<mapsto> [], ''SUBTITLES'' \<mapsto> []],
               log_warn = log_warn s\<rparr>
      in and_then (playlists_assign i (playlists_at m 0) m) (\<lambda>m1.
         playlists_assign u (playlists_at m1 0) m1))"

section \<open>addPropertiesToMain\<close>

text \<open>
  Lines 279 to 288: the loop body for index \<open>i\<close>, and the loop. Reading
  \<^verbatim>\<open>main.playlists[i].uri\<close> throws when the array holds no object at \<open>i\<close>.
\<close>

definition placeholder_uri_body :: "nat \<Rightarrow> state \<Rightarrow> error + state" where
  "placeholder_uri_body i s =
     (case playlists_at s i of
        None \<Rightarrow> Inl TypeError
      | Some r \<Rightarrow>
          Inr (if \<not> truthy (uri (heap s r))
               then s\<lparr>heap := (heap s)(r :=
                      (heap s r)\<lparr>uri := Some (''placeholder-uri-'' @ string_of_nat i)\<rparr>)\<rparr>
               else s))"

definition placeholder_uris :: "state \<Rightarrow> error + state" where
  "placeholder_uris s = for_each placeholder_uri_body [0..<length (main_playlists s)] s"

text \<open>
  Lines 298 to 304: is there a playlist in \<^verbatim>\<open>main.playlists\<close> whose
  \<^verbatim>\<open>attributes.AUDIO\<close> is this group? The loop ends at the first one, and reading
  \<^verbatim>\<open>p.attributes\<close> throws at an index without an object.
\<close>

fun in_main_playlists :: "(ref \<Rightarrow> playlist) \<Rightarrow> string \<Rightarrow> ref option list \<Rightarrow> error + bool" where
  "in_main_playlists h groupKey [] = Inr False"
| "in_main_playlists h groupKey (None # ps) = Inl TypeError"
| "in_main_playlists h groupKey (Some r # ps) =
     (if (case attributes (h r) of
            None \<Rightarrow> False
          | Some a \<Rightarrow> truthy_attr (a ''AUDIO'') \<and> a ''AUDIO'' = Some (AStr groupKey))
      then Inr True else in_main_playlists h groupKey ps)"

text \<open>
  Lines 310 to 337: the callback of \<^verbatim>\<open>properties.playlists.forEach\<close> for the
  playlist \<open>r\<close> at index \<open>i\<close>. \<^verbatim>\<open>createGroupID\<close> is the third argument of
  \<^verbatim>\<open>addPropertiesToMain\<close>; it is handed the playlist as its fourth argument.
  \<open>group_playlist_fields\<close> are lines 311 to 332, the assignments to the fields of
  \<^verbatim>\<open>p\<close>; lines 335 and 336 are assignments to the array.
\<close>

type_synonym group_id_fn = "string \<Rightarrow> string \<Rightarrow> string \<Rightarrow> playlist \<Rightarrow> string"

definition group_playlist_fields ::
  "resolver \<Rightarrow> group_id_fn \<Rightarrow> string option \<Rightarrow> string \<Rightarrow> string \<Rightarrow> string \<Rightarrow> nat \<Rightarrow>
   playlist \<Rightarrow> playlist" where
  "group_playlist_fields resolveUrl createGroupID base mediaType groupKey labelKey i p =
     (let groupId = createGroupID mediaType groupKey labelKey p;
          i' = createPlaylistID i (Some groupId);
          p1 = (if truthy (uri p)
                then p\<lparr>resolvedUri := or_else (resolvedUri p) (resolveUrl base (uri p))\<rparr>
                else (let u = (if i = 0 then groupId else i')
                      in p\<lparr>uri := Some u, resolvedUri := Some u\<rparr>));
          p2 = p1\<lparr>id' := or_else (id' p1) (Some i')\<rparr>
      in p2\<lparr>attributes := Some (case attributes p2 of None \<Rightarrow> Map.empty | Some a \<Rightarrow> a)\<rparr>)"

definition group_playlist_body ::
  "resolver \<Rightarrow> group_id_fn \<Rightarrow> string \<Rightarrow> string \<Rightarrow> string \<Rightarrow> nat \<times> ref \<Rightarrow> state \<Rightarrow> error + state" where
  "group_playlist_body resolveUrl createGroupID mediaType groupKey labelKey ir s =
     (let r = snd ir;
          p = group_playlist_fields resolveUrl createGroupID (main_uri s)
                mediaType groupKey labelKey (fst ir) (heap s r);
          s1 = s\<lparr>heap := (heap s)(r := p)\<rparr>
      in and_then (playlists_assign (to_str (id' p)) (Some r) s1)
           (playlists_assign (to_str (uri p)) (Some r)))"

text \<open>
  Lines 291 to 339: the callback handed to \<^verbatim>\<open>forEachMediaGroup\<close>, for the rendition
  \<open>d\<close> (\<^verbatim>\<open>properties\<close>). \<open>audioOnlyMain\<close> is the value computed on line 289. The scan
  of lines 298 to 304 runs only under the condition of line 297, and the callback
  returns from inside it.
\<close>

definition unpopulated :: "ref list option \<Rightarrow> bool" where
  "unpopulated ps = (case ps of None \<Rightarrow> True | Some l \<Rightarrow> l = [])"

definition group_playlists :: "state \<Rightarrow> ref \<Rightarrow> ref list" where
  "group_playlists s d = (case playlists (heap s d) of None \<Rightarrow> [] | Some l \<Rightarrow> l)"

definition forEach_playlists ::
  "resolver \<Rightarrow> group_id_fn \<Rightarrow> ref \<Rightarrow> string \<Rightarrow> string \<Rightarrow> string \<Rightarrow> state \<Rightarrow> error + state" where
  "forEach_playlists resolveUrl createGroupID d mediaType groupKey labelKey s =
     for_each (group_playlist_body resolveUrl createGroupID mediaType groupKey labelKey)
       (enumerate 0 (group_playlists s d)) s"

definition assign_copy :: "ref \<Rightarrow> state \<Rightarrow> state" where
  "assign_copy d s =
     (let c = nxt s;
          h1 = (heap s)(c := heap s d);
          h2 = h1(d := (h1 d)\<lparr>playlists := Some [c]\<rparr>)
      in s\<lparr>heap := h2, nxt := Suc c\<rparr>)"

definition media_group_body ::
  "resolver \<Rightarrow> group_id_fn \<Rightarrow> bool \<Rightarrow> ref \<Rightarrow> string \<Rightarrow> string \<Rightarrow> string \<Rightarrow> state \<Rightarrow> error + state" where
  "media_group_body resolveUrl createGroupID audioOnlyMain d mediaType groupKey labelKey s =
     (if unpopulated (playlists (heap s d)) then
        (if audioOnlyMain \<and> mediaType = ''AUDIO'' \<and> \<not> truthy (uri (heap s d)) then
           and_then (in_main_playlists (heap s) groupKey (main_playlists s)) (\<lambda>found.
             if found then Inr s
             else forEach_playlists resolveUrl createGroupID d mediaType groupKey labelKey
                    (assign_copy d s))
         else forEach_playlists resolveUrl createGroupID d mediaType groupKey labelKey
                (assign_copy d s))
      else forEach_playlists resolveUrl createGroupID d mediaType groupKey labelKey s)"

text \<open>
  Lines 276 to 343. \<^verbatim>\<open>isAudioOnly\<close> is imported from \<^verbatim>\<open>playlist.js\<close> and is a
  parameter: a predicate on the manifest and the objects it reaches.
\<close>

definition addPropertiesToMain ::
  "resolver \<Rightarrow> (state \<Rightarrow> bool) \<Rightarrow> group_id_fn \<Rightarrow> string \<Rightarrow> state \<Rightarrow> error + state" where
  "addPropertiesToMain resolveUrl isAudioOnly createGroupID u s =
     and_then (placeholder_uris (s\<lparr>main_uri := Some u\<rparr>)) (\<lambda>s1.
       let audioOnlyMain = isAudioOnly s1 in
       and_then (forEachMediaGroup (media_group_body resolveUrl createGroupID audioOnlyMain) s1)
         (\<lambda>s2. and_then (setupMediaPlaylists resolveUrl s2) (resolveMediaGroupUris resolveUrl)))"

section \<open>The run over a list of elements and a table of keys\<close>

text \<open>
  As long as no key that is assigned to \<^verbatim>\<open>main.playlists\<close> is an array index,
  \<^verbatim>\<open>length\<close> or \<^verbatim>\<open>__proto__\<close>, the elements of the array stay what they are, every
  assignment adds or replaces an own property, and nothing throws when the array
  holds an object at each index. The functions of this section are the functions
  above written for that case alone: the state has the elements as a list of
  references and the other properties as a table, and an assignment is an update of
  the table. They are what the proofs work on. Their names end in \<open>0\<close>; the section
  on the two runs shows that the functions above return the state that these compute
  whenever the keys are of that kind.
\<close>

record state0 =
  heap0 :: "ref \<Rightarrow> playlist"
  nxt0 :: ref
  main_uri0 :: "string option"
  main_resolvedUri0 :: "string option"
  main_playlists0 :: "ref list"
  main_playlists_key0 :: "string \<rightharpoonup> ref"
  mediaGroups0 :: "(string \<rightharpoonup> (string \<times> (string \<times> ref) list) list) option"
  log_warn0 :: nat

definition media_group_entries0 :: "state0 \<Rightarrow> (ref \<times> string \<times> string \<times> string) list" where
  "media_group_entries0 s =
     (case mediaGroups0 s of
        None \<Rightarrow> []
      | Some mg \<Rightarrow>
          concat (map (\<lambda>mediaType.
            case mg mediaType of
              None \<Rightarrow> []
            | Some groups \<Rightarrow>
                concat (map (\<lambda>(groupKey, labels).
                  map (\<lambda>(labelKey, d). (d, mediaType, groupKey, labelKey)) labels) groups))
            [''AUDIO'', ''SUBTITLES'']))"

definition forEachMediaGroup0 ::
  "(ref \<Rightarrow> string \<Rightarrow> string \<Rightarrow> string \<Rightarrow> state0 \<Rightarrow> state0) \<Rightarrow> state0 \<Rightarrow> state0" where
  "forEachMediaGroup0 callback s =
     fold (\<lambda>(d, mediaType, groupKey, labelKey). callback d mediaType groupKey labelKey)
       (media_group_entries0 s) s"

definition setupMediaPlaylist0 :: "ref \<Rightarrow> string option \<Rightarrow> string \<Rightarrow> state0 \<Rightarrow> state0" where
  "setupMediaPlaylist0 r u i s =
     (let p1 = (heap0 s r)\<lparr>id' := Some i, playlistErrors := Some 0\<rparr>;
          p2 = (if truthy u then p1\<lparr>uri := u\<rparr> else p1);
          p3 = p2\<lparr>attributes :=
                   Some (case attributes p2 of None \<Rightarrow> Map.empty | Some a \<Rightarrow> a)\<rparr>
      in s\<lparr>heap0 := (heap0 s)(r := p3)\<rparr>)"

definition setupMediaPlaylists_body0 :: "resolver \<Rightarrow> nat \<Rightarrow> state0 \<Rightarrow> state0" where
  "setupMediaPlaylists_body0 resolveUrl i s =
     (let r = main_playlists0 s ! i;
          s1 = setupMediaPlaylist0 r None (createPlaylistID i (uri (heap0 s r))) s;
          s2 = s1\<lparr>heap0 := (heap0 s1)(r :=
                 (heap0 s1 r)\<lparr>resolvedUri := resolveUrl (main_uri0 s1) (uri (heap0 s1 r))\<rparr>)\<rparr>;
          s3 = s2\<lparr>main_playlists_key0 :=
                 (main_playlists_key0 s2)(to_str (id' (heap0 s2 r)) \<mapsto> r)\<rparr>;
          s4 = s3\<lparr>main_playlists_key0 :=
                 (main_playlists_key0 s3)(to_str (uri (heap0 s3 r)) \<mapsto> r)\<rparr>
      in if \<not> truthy_attr (the (attributes (heap0 s4 r)) ''BANDWIDTH'')
         then s4\<lparr>log_warn0 := Suc (log_warn0 s4)\<rparr> else s4)"

definition setupMediaPlaylists0 :: "resolver \<Rightarrow> state0 \<Rightarrow> state0" where
  "setupMediaPlaylists0 resolveUrl s =
     fold (setupMediaPlaylists_body0 resolveUrl) (rev [0..<length (main_playlists0 s)]) s"

definition resolveMediaGroupUris0 :: "resolver \<Rightarrow> state0 \<Rightarrow> state0" where
  "resolveMediaGroupUris0 resolveUrl s =
     forEachMediaGroup0 (\<lambda>d mediaType groupKey labelKey t.
       if truthy (uri (heap0 t d))
       then t\<lparr>heap0 := (heap0 t)(d :=
              (heap0 t d)\<lparr>resolvedUri := resolveUrl (main_uri0 t) (uri (heap0 t d))\<rparr>)\<rparr>
       else t) s"

definition placeholder_uri_body0 :: "nat \<Rightarrow> state0 \<Rightarrow> state0" where
  "placeholder_uri_body0 i s =
     (let r = main_playlists0 s ! i in
      if \<not> truthy (uri (heap0 s r))
      then s\<lparr>heap0 := (heap0 s)(r :=
             (heap0 s r)\<lparr>uri := Some (''placeholder-uri-'' @ string_of_nat i)\<rparr>)\<rparr>
      else s)"

definition placeholder_uris0 :: "state0 \<Rightarrow> state0" where
  "placeholder_uris0 s = fold placeholder_uri_body0 [0..<length (main_playlists0 s)] s"

definition in_main_playlists0 :: "state0 \<Rightarrow> string \<Rightarrow> bool" where
  "in_main_playlists0 s groupKey =
     (\<exists>r \<in> set (main_playlists0 s).
        case attributes (heap0 s r) of
          None \<Rightarrow> False
        | Some a \<Rightarrow> truthy_attr (a ''AUDIO'') \<and> a ''AUDIO'' = Some (AStr groupKey))"

definition group_playlist_body0 ::
  "resolver \<Rightarrow> group_id_fn \<Rightarrow> string \<Rightarrow> string \<Rightarrow> string \<Rightarrow> nat \<times> ref \<Rightarrow> state0 \<Rightarrow> state0" where
  "group_playlist_body0 resolveUrl createGroupID mediaType groupKey labelKey ir s =
     (let r = snd ir;
          p = group_playlist_fields resolveUrl createGroupID (main_uri0 s)
                mediaType groupKey labelKey (fst ir) (heap0 s r);
          k1 = (main_playlists_key0 s)(to_str (id' p) \<mapsto> r)
      in s\<lparr>heap0 := (heap0 s)(r := p),
           main_playlists_key0 := k1(to_str (uri p) \<mapsto> r)\<rparr>)"

definition suppressed0 :: "bool \<Rightarrow> state0 \<Rightarrow> ref \<Rightarrow> string \<Rightarrow> string \<Rightarrow> bool" where
  "suppressed0 audioOnlyMain s d mediaType groupKey =
     (audioOnlyMain \<and> mediaType = ''AUDIO'' \<and> \<not> truthy (uri (heap0 s d)) \<and>
      in_main_playlists0 s groupKey)"

definition group_playlists0 :: "state0 \<Rightarrow> ref \<Rightarrow> ref list" where
  "group_playlists0 s d = (case playlists (heap0 s d) of None \<Rightarrow> [] | Some l \<Rightarrow> l)"

definition forEach_playlists0 ::
  "resolver \<Rightarrow> group_id_fn \<Rightarrow> ref \<Rightarrow> string \<Rightarrow> string \<Rightarrow> string \<Rightarrow> state0 \<Rightarrow> state0" where
  "forEach_playlists0 resolveUrl createGroupID d mediaType groupKey labelKey s =
     fold (group_playlist_body0 resolveUrl createGroupID mediaType groupKey labelKey)
       (enumerate 0 (group_playlists0 s d)) s"

definition media_group_body0 ::
  "resolver \<Rightarrow> group_id_fn \<Rightarrow> bool \<Rightarrow> ref \<Rightarrow> string \<Rightarrow> string \<Rightarrow> string \<Rightarrow> state0 \<Rightarrow> state0" where
  "media_group_body0 resolveUrl createGroupID audioOnlyMain d mediaType groupKey labelKey s =
     (if unpopulated (playlists (heap0 s d)) then
        (if suppressed0 audioOnlyMain s d mediaType groupKey then s
         else
           (let c = nxt0 s;
                h1 = (heap0 s)(c := heap0 s d);
                h2 = h1(d := (h1 d)\<lparr>playlists := Some [c]\<rparr>)
            in forEach_playlists0 resolveUrl createGroupID d mediaType groupKey labelKey
                 (s\<lparr>heap0 := h2, nxt0 := Suc c\<rparr>)))
      else forEach_playlists0 resolveUrl createGroupID d mediaType groupKey labelKey s)"

definition addPropertiesToMain0 ::
  "resolver \<Rightarrow> (state0 \<Rightarrow> bool) \<Rightarrow> group_id_fn \<Rightarrow> string \<Rightarrow> state0 \<Rightarrow> state0" where
  "addPropertiesToMain0 resolveUrl isAudioOnly createGroupID u s =
     (let s1 = placeholder_uris0 (s\<lparr>main_uri0 := Some u\<rparr>);
          audioOnlyMain = isAudioOnly s1;
          s2 = forEachMediaGroup0 (media_group_body0 resolveUrl createGroupID audioOnlyMain) s1;
          s3 = setupMediaPlaylists0 resolveUrl s2
      in resolveMediaGroupUris0 resolveUrl s3)"

section \<open>Notions used in the statements\<close>

definition segment_list :: "'v manifest \<Rightarrow> 'v segment list" where
  "segment_list m = (case segments m of None \<Rightarrow> [] | Some ss \<Rightarrow> ss)"

definition is_targetDuration_warning :: "report \<Rightarrow> bool" where
  "is_targetDuration_warning r = (case r of WarnNoTargetDuration x \<Rightarrow> True | _ \<Rightarrow> False)"

definition is_partTargetDuration_report :: "report \<Rightarrow> bool" where
  "is_partTargetDuration_report r = (\<not> is_targetDuration_warning r)"

text \<open>
  Modelled from the spec: \<^verbatim>\<open>getLastParts\<close>, which \<^verbatim>\<open>playlist.js\<close> defines and
  \<^verbatim>\<open>src/\<close> does not hold. The spec calls "last parts" the partial-segment records of the
  trailing contiguous run of segments that carry them. The theorems below hold for any
  function in its place; this one is the instance of the examples.
\<close>

definition has_parts :: "'v segment \<Rightarrow> bool" where
  "has_parts s = (case parts s of None \<Rightarrow> False | Some ps \<Rightarrow> ps \<noteq> [])"

definition getLastParts :: "'v manifest \<Rightarrow> part list" where
  "getLastParts m =
     concat (map (\<lambda>s. case parts s of None \<Rightarrow> [] | Some ps \<Rightarrow> ps)
       (rev (takeWhile has_parts (rev (segment_list m)))))"

text \<open>
  The rest of this section names what the proofs speak about: the walk over the media
  groups as a function of the list of entries, the fields that
  \<^verbatim>\<open>setupMediaPlaylists\<close> leaves in a playlist, and relations between two states or
  two versions of an object.
\<close>

definition top_playlist_fields :: "resolver \<Rightarrow> string option \<Rightarrow> nat \<Rightarrow> playlist \<Rightarrow> playlist" where
  "top_playlist_fields R b i p =
     p\<lparr>id' := Some (createPlaylistID i (uri p)), playlistErrors := Some 0,
       attributes := Some (case attributes p of None \<Rightarrow> Map.empty | Some a \<Rightarrow> a),
       resolvedUri := R b (uri p)\<rparr>"

definition same_doc :: "state0 \<Rightarrow> state0 \<Rightarrow> bool" where
  "same_doc s s' \<longleftrightarrow>
     main_playlists0 s' = main_playlists0 s \<and> mediaGroups0 s' = mediaGroups0 s \<and>
     main_uri0 s' = main_uri0 s \<and> main_resolvedUri0 s' = main_resolvedUri0 s \<and> nxt0 s \<le> nxt0 s'"

definition walk :: "resolver \<Rightarrow> group_id_fn \<Rightarrow> bool \<Rightarrow> (ref \<times> string \<times> string \<times> string) list \<Rightarrow> state0 \<Rightarrow> state0" where
  "walk R G a es s = fold (\<lambda>(d, t, g, l). media_group_body0 R G a d t g l) es s"

definition grows :: "nat \<Rightarrow> playlist \<Rightarrow> playlist \<Rightarrow> bool" where
  "grows n p p' \<longleftrightarrow>
     (truthy (uri p) \<longrightarrow> uri p' = uri p) \<and>
     (truthy (id' p) \<longrightarrow> id' p' = id' p) \<and>
     (\<forall>a. attributes p = Some a \<longrightarrow> attributes p' = Some a) \<and>
     playlistErrors p' = playlistErrors p \<and>
     (playlists p' = playlists p \<or>
      (unpopulated (playlists p) \<and> (\<exists>c\<ge>n. playlists p' = Some [c])))"

definition heap_grows :: "nat \<Rightarrow> state0 \<Rightarrow> state0 \<Rightarrow> bool" where
  "heap_grows n s s' \<longleftrightarrow> (\<forall>r<n. grows n (heap0 s r) (heap0 s' r))"

definition resolved_only :: "playlist \<Rightarrow> playlist \<Rightarrow> bool" where
  "resolved_only p p' \<longleftrightarrow> (\<exists>v. p' = p\<lparr>resolvedUri := v\<rparr>)"

definition example_manifest :: "unit manifest" where
  "example_manifest =
     \<lparr>preloadSegment = Some (), skip = None, serverControl = Some (),
      renditionReports = None, partInf = None, partTargetDuration = None,
      targetDuration = None,
      segments = Some [\<lparr>duration = 6, parts = None, preloadHints = None\<rparr>,
                       \<lparr>duration = 4, parts = Some [\<lparr>part_duration = 1\<rparr>, \<lparr>part_duration = 2\<rparr>],
                        preloadHints = Some ()\<rparr>]\<rparr>"

text \<open>
  The references that a state of the previous section holds: the elements, the renditions
  that the walk visits and their nested playlists. A manifest as a parser builds it is a
  tree: no object occurs twice among them, and each is allocated.
\<close>

definition entry_refs0 :: "state0 \<Rightarrow> ref list" where
  "entry_refs0 s = map fst (media_group_entries0 s)"

definition all_refs0 :: "state0 \<Rightarrow> ref list" where
  "all_refs0 s =
     main_playlists0 s @ entry_refs0 s @ concat (map (group_playlists0 s) (entry_refs0 s))"

definition tree_shaped0 :: "state0 \<Rightarrow> bool" where
  "tree_shaped0 s \<longleftrightarrow> distinct (all_refs0 s) \<and> (\<forall>r \<in> set (all_refs0 s). r < nxt0 s)"

text \<open>Line 307 alone: the copy of the rendition becomes its only nested playlist.\<close>

definition synthesize :: "ref \<Rightarrow> state0 \<Rightarrow> state0" where
  "synthesize d s =
     s\<lparr>heap0 := (heap0 s)(nxt0 s := heap0 s d, d := (heap0 s d)\<lparr>playlists := Some [nxt0 s]\<rparr>),
       nxt0 := Suc (nxt0 s)\<rparr>"

text \<open>
  The two assignments \<^verbatim>\<open>main.playlists[p.id] = p; main.playlists[p.uri] = p\<close> as one
  function on the table, and the table after registering a list of objects in order.
  \<open>registers\<close> says that a step changes one object and registers it under its keys.
\<close>

definition write_keys :: "playlist \<Rightarrow> ref \<Rightarrow> (string \<rightharpoonup> ref) \<Rightarrow> (string \<rightharpoonup> ref)" where
  "write_keys p x m = m(to_str (id' p) \<mapsto> x, to_str (uri p) \<mapsto> x)"

definition writes :: "(ref \<Rightarrow> playlist) \<Rightarrow> ref list \<Rightarrow> (string \<rightharpoonup> ref) \<Rightarrow> (string \<rightharpoonup> ref)" where
  "writes h xs m = fold (\<lambda>x. write_keys (h x) x) xs m"

definition registers :: "ref \<Rightarrow> state0 \<Rightarrow> state0 \<Rightarrow> bool" where
  "registers x s s' \<longleftrightarrow>
     (\<forall>y. y \<noteq> x \<longrightarrow> heap0 s' y = heap0 s y) \<and>
     main_playlists_key0 s' = write_keys (heap0 s' x) x (main_playlists_key0 s)"

text \<open>
  \<open>walk_ok\<close> is the tree shape for the entries still to be visited; \<open>visited\<close> describes
  an entry after its visit, and \<open>finished\<close> after the whole of \<^verbatim>\<open>addPropertiesToMain\<close>.
\<close>

definition walk_ok :: "state0 \<Rightarrow> (ref \<times> string \<times> string \<times> string) list \<Rightarrow> bool" where
  "walk_ok s es \<longleftrightarrow>
     distinct (main_playlists0 s @ map fst es @ concat (map (group_playlists0 s) (map fst es))) \<and>
     (\<forall>x \<in> set (main_playlists0 s @ map fst es @ concat (map (group_playlists0 s) (map fst es))).
        x < nxt0 s)"

definition visited ::
  "resolver \<Rightarrow> group_id_fn \<Rightarrow> bool \<Rightarrow> state0 \<Rightarrow> state0 \<Rightarrow> ref \<times> string \<times> string \<times> string \<Rightarrow> bool" where
  "visited R G a s s' e =
     (case e of (d, t, g, l) \<Rightarrow>
        if unpopulated (playlists (heap0 s d)) then
          (if suppressed0 a s d t g then heap0 s' d = heap0 s d
           else (\<exists>c. nxt0 s \<le> c \<and> c < nxt0 s' \<and>
                   heap0 s' d = (heap0 s d)\<lparr>playlists := Some [c]\<rparr> \<and>
                   heap0 s' c = group_playlist_fields R G (main_uri0 s) t g l 0 (heap0 s d)))
        else heap0 s' d = heap0 s d \<and>
             (\<forall>i < length (group_playlists0 s d).
                heap0 s' (group_playlists0 s d ! i) =
                  group_playlist_fields R G (main_uri0 s) t g l i (heap0 s (group_playlists0 s d ! i))))"

definition resolve_entry :: "resolver \<Rightarrow> ref \<times> string \<times> string \<times> string \<Rightarrow> state0 \<Rightarrow> state0" where
  "resolve_entry R e t =
     (if truthy (uri (heap0 t (fst e)))
      then t\<lparr>heap0 := (heap0 t)(fst e :=
             (heap0 t (fst e))\<lparr>resolvedUri := R (main_uri0 t) (uri (heap0 t (fst e)))\<rparr>)\<rparr>
      else t)"

text \<open>
  The effect of lines 280 to 287 and of line 220 on one object, and the states between
  the passes of \<^verbatim>\<open>addPropertiesToMain\<close>.
\<close>

definition with_placeholder :: "nat \<Rightarrow> playlist \<Rightarrow> playlist" where
  "with_placeholder i p =
     (if truthy (uri p) then p else p\<lparr>uri := Some (''placeholder-uri-'' @ string_of_nat i)\<rparr>)"

definition with_resolved :: "resolver \<Rightarrow> string option \<Rightarrow> playlist \<Rightarrow> playlist" where
  "with_resolved R b p = (if truthy (uri p) then p\<lparr>resolvedUri := R b (uri p)\<rparr> else p)"

definition stage1 :: "string \<Rightarrow> state0 \<Rightarrow> state0" where
  "stage1 u s = placeholder_uris0 (s\<lparr>main_uri0 := Some u\<rparr>)"

definition stage2 :: "resolver \<Rightarrow> (state0 \<Rightarrow> bool) \<Rightarrow> group_id_fn \<Rightarrow> string \<Rightarrow> state0 \<Rightarrow> state0" where
  "stage2 R A G u s =
     walk R G (A (stage1 u s)) (media_group_entries0 (stage1 u s)) (stage1 u s)"

definition stage3 :: "resolver \<Rightarrow> (state0 \<Rightarrow> bool) \<Rightarrow> group_id_fn \<Rightarrow> string \<Rightarrow> state0 \<Rightarrow> state0" where
  "stage3 R A G u s = setupMediaPlaylists0 R (stage2 R A G u s)"

definition finished ::
  "resolver \<Rightarrow> group_id_fn \<Rightarrow> bool \<Rightarrow> string \<Rightarrow> state0 \<Rightarrow> state0 \<Rightarrow>
   ref \<times> string \<times> string \<times> string \<Rightarrow> bool" where
  "finished R G a u s s' e =
     (case e of (d, t, g, l) \<Rightarrow>
        if unpopulated (playlists (heap0 s d)) then
          (if suppressed0 a s d t g then heap0 s' d = heap0 s d
           else (\<exists>c. nxt0 s \<le> c \<and>
                   heap0 s' d = with_resolved R (Some u) ((heap0 s d)\<lparr>playlists := Some [c]\<rparr>) \<and>
                   heap0 s' c = group_playlist_fields R G (Some u) t g l 0 (heap0 s d)))
        else heap0 s' d = with_resolved R (Some u) (heap0 s d) \<and>
             (\<forall>i < length (group_playlists0 s d).
                heap0 s' (group_playlists0 s d ! i) =
                  group_playlist_fields R G (Some u) t g l i (heap0 s (group_playlists0 s d ! i))))"

text \<open>
  What lines 314 to 326 leave in \<^verbatim>\<open>uri\<close> and \<^verbatim>\<open>resolvedUri\<close> of the nested playlist
  \<open>p\<close> at index \<open>i\<close>, as a relation between the object before and after.
\<close>

definition group_playlist_uris ::
  "resolver \<Rightarrow> group_id_fn \<Rightarrow> string \<Rightarrow> string \<Rightarrow> string \<Rightarrow> string \<Rightarrow> nat \<Rightarrow>
   playlist \<Rightarrow> playlist \<Rightarrow> bool" where
  "group_playlist_uris R G u t g l i p p' =
     (let groupId = G t g l p;
          placeholder = (if i = 0 then groupId else createPlaylistID i (Some groupId))
      in if truthy (uri p)
         then uri p' = uri p \<and>
              (if truthy (resolvedUri p) then resolvedUri p' = resolvedUri p
               else resolvedUri p' = R (Some u) (uri p))
         else uri p' = Some placeholder \<and> resolvedUri p' = Some placeholder)"

text \<open>
  The two keys under which an object is registered, and the registered objects of a
  state of the previous section.
\<close>

definition playlist_keys :: "playlist \<Rightarrow> string set" where
  "playlist_keys p = {to_str (id' p), to_str (uri p)}"

definition registered0 :: "state0 \<Rightarrow> ref list" where
  "registered0 s =
     concat (map (group_playlists0 s) (map fst (media_group_entries0 s))) @ main_playlists0 s"

text \<open>
  The elements of \<^verbatim>\<open>main.playlists\<close> that are objects, and the references the manifest
  holds: the elements, the renditions that the walk visits and their nested playlists.
  A manifest as a parser builds it is a tree: the array holds an object at each index,
  no object occurs twice among these references, and each is allocated.
\<close>

fun elements_of :: "ref option list \<Rightarrow> ref list" where
  "elements_of [] = []"
| "elements_of (None # ps) = elements_of ps"
| "elements_of (Some r # ps) = r # elements_of ps"

definition elements :: "state \<Rightarrow> ref list" where
  "elements s = elements_of (main_playlists s)"

definition entry_refs :: "state \<Rightarrow> ref list" where
  "entry_refs s = map fst (media_group_entries s)"

definition all_refs :: "state \<Rightarrow> ref list" where
  "all_refs s = elements s @ entry_refs s @ concat (map (group_playlists s) (entry_refs s))"

definition tree_shaped :: "state \<Rightarrow> bool" where
  "tree_shaped s \<longleftrightarrow>
     None \<notin> set (main_playlists s) \<and> distinct (all_refs s) \<and>
     (\<forall>r \<in> set (all_refs s). r < nxt s)"

text \<open>
  A key that is an own property of the array when it is assigned: no array index, not
  \<^verbatim>\<open>length\<close> and not \<^verbatim>\<open>__proto__\<close>. \<open>plain_keys\<close> says that the id and the uri of
  every object of the store are such keys (a missing id or uri gives the key
  \<^verbatim>\<open>undefined\<close>), and \<open>plain_group_ids\<close> that \<^verbatim>\<open>createGroupID\<close> returns such keys only.
\<close>

definition plain_key :: "string \<Rightarrow> bool" where
  "plain_key k \<longleftrightarrow> k \<noteq> ''length'' \<and> k \<noteq> ''__proto__'' \<and> array_index k = None"

definition plain_keys :: "state \<Rightarrow> bool" where
  "plain_keys s \<longleftrightarrow>
     (\<forall>x. plain_key (to_str (id' (heap s x))) \<and> plain_key (to_str (uri (heap s x))))"

definition plain_group_ids :: "group_id_fn \<Rightarrow> bool" where
  "plain_group_ids G \<longleftrightarrow> (\<forall>t g l p. plain_key (G t g l p))"

text \<open>
  The playlist object that \<^verbatim>\<open>main.playlists[k]\<close> evaluates to for a string \<open>k\<close>, if it
  is one: \<^verbatim>\<open>length\<close> is a number, \<^verbatim>\<open>__proto__\<close> is the prototype, an array index
  reads the element, and any other key reads the own property. (What the array
  inherits under a key it does not own is a function or a field of a playlist, and
  no playlist.)
\<close>

definition playlists_lookup :: "state \<Rightarrow> string \<Rightarrow> ref option" where
  "playlists_lookup s k =
     (if k = ''length'' then None
      else if k = ''__proto__'' then main_playlists_proto s
      else case array_index k of
             Some n \<Rightarrow> playlists_at s n
           | None \<Rightarrow> main_playlists_key s k)"

text \<open>
  The objects that a call of \<^verbatim>\<open>addPropertiesToMain\<close> assigns to \<^verbatim>\<open>main.playlists\<close>, in
  the order of the assignments: the nested playlists in the order of the walk, then
  the elements from the last index down.
\<close>

definition registered :: "state \<Rightarrow> ref list" where
  "registered s = concat (map (group_playlists s) (entry_refs s)) @ rev (elements s)"

text \<open>
  The value of \<^verbatim>\<open>isAudioOnly(main)\<close> on line 289 of the call
  \<^verbatim>\<open>addPropertiesToMain(main, u)\<close>.
\<close>

definition audio_only_main :: "(state \<Rightarrow> bool) \<Rightarrow> string \<Rightarrow> state \<Rightarrow> bool" where
  "audio_only_main A u s =
     (case placeholder_uris (s\<lparr>main_uri := Some u\<rparr>) of Inl e \<Rightarrow> False | Inr s1 \<Rightarrow> A s1)"

text \<open>
  Is there an element of \<^verbatim>\<open>main.playlists\<close> whose \<^verbatim>\<open>attributes.AUDIO\<close> is the string
  \<open>g\<close>?
\<close>

definition audio_group_of_element :: "state \<Rightarrow> string \<Rightarrow> bool" where
  "audio_group_of_element s g \<longleftrightarrow>
     (\<exists>r \<in> set (elements s). \<exists>a. attributes (heap s r) = Some a \<and> a ''AUDIO'' = Some (AStr g))"

text \<open>
  The two states side by side: a state of the previous section as a state of the
  source's functions, with an array that holds the elements and has the prototype
  \<open>pr\<close>, and back.
\<close>

definition emb :: "ref option \<Rightarrow> state0 \<Rightarrow> state" where
  "emb pr t =
     \<lparr>heap = heap0 t, nxt = nxt0 t, main_uri = main_uri0 t,
      main_resolvedUri = main_resolvedUri0 t, main_playlists = map Some (main_playlists0 t),
      main_playlists_key = main_playlists_key0 t, main_playlists_proto = pr,
      mediaGroups = mediaGroups0 t, log_warn = log_warn0 t\<rparr>"

definition plain :: "state \<Rightarrow> state0" where
  "plain s =
     \<lparr>heap0 = heap s, nxt0 = nxt s, main_uri0 = main_uri s,
      main_resolvedUri0 = main_resolvedUri s, main_playlists0 = elements s,
      main_playlists_key0 = main_playlists_key s, mediaGroups0 = mediaGroups s,
      log_warn0 = log_warn s\<rparr>"

text \<open>Example inputs.\<close>

definition no_fields :: playlist where
  "no_fields = \<lparr>uri = None, resolvedUri = None, id' = None, playlistErrors = None,
                 attributes = None, playlists = None\<rparr>"

definition join_url :: resolver where
  "join_url b u = Some (to_str b @ ''#'' @ to_str u)"

definition default_group_id :: group_id_fn where
  "default_group_id mediaType groupKey labelKey p = groupID mediaType groupKey labelKey"

definition empty_store :: state where
  "empty_store =
     \<lparr>heap = (\<lambda>r. no_fields), nxt = 0, main_uri = None, main_resolvedUri = None,
      main_playlists = [], main_playlists_key = Map.empty, main_playlists_proto = None,
      mediaGroups = None, log_warn = 0\<rparr>"

definition duplicate_uri_state :: state where
  "duplicate_uri_state =
     \<lparr>heap = (\<lambda>r. no_fields)(0 := no_fields\<lparr>uri := Some ''a''\<rparr>,
                               1 := no_fields\<lparr>uri := Some ''a'', id' := Some ''custom''\<rparr>),
      nxt = 2, main_uri = None, main_resolvedUri = None, main_playlists = [Some 0, Some 1],
      main_playlists_key = Map.empty, main_playlists_proto = None, mediaGroups = None,
      log_warn = 0\<rparr>"

definition distinct_uri_state :: state where
  "distinct_uri_state =
     \<lparr>heap = (\<lambda>r. no_fields)(0 := no_fields\<lparr>uri := Some ''a''\<rparr>,
                               1 := no_fields\<lparr>uri := Some ''b''\<rparr>),
      nxt = 2, main_uri = None, main_resolvedUri = None, main_playlists = [Some 0, Some 1],
      main_playlists_key = Map.empty, main_playlists_proto = None, mediaGroups = None,
      log_warn = 0\<rparr>"

definition partly_duplicate_state :: state where
  "partly_duplicate_state =
     \<lparr>heap = (\<lambda>r. no_fields)(0 := no_fields\<lparr>uri := Some ''a''\<rparr>,
                               1 := no_fields\<lparr>uri := Some ''a''\<rparr>,
                               2 := no_fields\<lparr>uri := Some ''b''\<rparr>),
      nxt = 3, main_uri = None, main_resolvedUri = None,
      main_playlists = [Some 0, Some 1, Some 2],
      main_playlists_key = Map.empty, main_playlists_proto = None, mediaGroups = None,
      log_warn = 0\<rparr>"

definition id_dependent_group_id :: group_id_fn where
  "id_dependent_group_id mediaType groupKey labelKey p = (if truthy (id' p) then ''x'' else [])"

definition nested_state :: state where
  "nested_state =
     \<lparr>heap = (\<lambda>r. no_fields)(0 := no_fields\<lparr>uri := Some ''v.m3u8''\<rparr>,
                               1 := no_fields\<lparr>playlists := Some [2]\<rparr>,
                               2 := no_fields),
      nxt = 3, main_uri = None, main_resolvedUri = None, main_playlists = [Some 0],
      main_playlists_key = Map.empty, main_playlists_proto = None,
      mediaGroups = Some [''AUDIO'' \<mapsto> [(''g'', [(''l'', 1)])]], log_warn = 0\<rparr>"

definition index_uri_state :: state where
  "index_uri_state =
     \<lparr>heap = (\<lambda>r. no_fields)(0 := no_fields\<lparr>uri := Some ''1''\<rparr>,
                               1 := no_fields\<lparr>uri := Some ''b''\<rparr>),
      nxt = 2, main_uri = None, main_resolvedUri = None, main_playlists = [Some 0, Some 1],
      main_playlists_key = Map.empty, main_playlists_proto = None, mediaGroups = None,
      log_warn = 0\<rparr>"

definition nested_index_state :: state where
  "nested_index_state =
     \<lparr>heap = (\<lambda>r. no_fields)
        (0 := no_fields\<lparr>uri := Some ''v.m3u8''\<rparr>,
         1 := no_fields\<lparr>playlists := Some [2]\<rparr>,
         2 := no_fields\<lparr>uri := Some ''0'', resolvedUri := Some ''keep'', id' := Some ''custom''\<rparr>),
      nxt = 3, main_uri = None, main_resolvedUri = None, main_playlists = [Some 0],
      main_playlists_key = Map.empty, main_playlists_proto = None,
      mediaGroups = Some [''AUDIO'' \<mapsto> [(''g'', [(''l'', 1)])]], log_warn = 0\<rparr>"

definition displaced_state :: state where
  "displaced_state =
     \<lparr>heap = (\<lambda>r. no_fields)
        (0 := no_fields\<lparr>uri := Some ''v.m3u8'',
                        attributes := Some [''AUDIO'' \<mapsto> AStr ''grp'']\<rparr>,
         1 := no_fields\<lparr>uri := Some ''0''\<rparr>,
         2 := no_fields),
      nxt = 3, main_uri = None, main_resolvedUri = None, main_playlists = [Some 0],
      main_playlists_key = Map.empty, main_playlists_proto = None,
      mediaGroups = Some [''AUDIO'' \<mapsto> [(''other'', [(''x'', 1)]), (''grp'', [(''label'', 2)])]],
      log_warn = 0\<rparr>"

definition example_state :: state where
  "example_state =
     \<lparr>heap = (\<lambda>r. no_fields)
        (0 := no_fields\<lparr>uri := Some ''video.m3u8'',
                        attributes := Some [''AUDIO'' \<mapsto> AStr ''aud'', ''BANDWIDTH'' \<mapsto> ANum 1000]\<rparr>,
         1 := no_fields,
         2 := no_fields,
         3 := no_fields\<lparr>uri := Some ''subs.m3u8''\<rparr>,
         4 := no_fields\<lparr>playlists := Some [5, 6, 7, 8]\<rparr>,
         5 := no_fields\<lparr>id' := Some ''kept''\<rparr>,
         6 := no_fields,
         7 := no_fields\<lparr>uri := Some ''a.m3u8''\<rparr>,
         8 := no_fields\<lparr>uri := Some ''b.m3u8'', resolvedUri := Some ''http://cdn/b.m3u8''\<rparr>),
      nxt = 9, main_uri = None, main_resolvedUri = None, main_playlists = [Some 0, Some 1],
      main_playlists_key = Map.empty, main_playlists_proto = None,
      mediaGroups = Some [''AUDIO'' \<mapsto> [(''aud'', [(''en'', 2)]), (''dash'', [(''main'', 4)])],
                          ''SUBTITLES'' \<mapsto> [(''subs'', [(''en'', 3)])]],
      log_warn = 0\<rparr>"

section \<open>parseManifest: the defaults and the low-latency fields\<close>

lemma fold_max_Max:
  "fold (\<lambda>d acc. max acc d) ds (a::rat) = Max (insert a (set ds))"
proof -
  have "(\<lambda>d acc. max acc d) = (max :: rat \<Rightarrow> rat \<Rightarrow> rat)"
    by (intro ext) (simp add: max.commute)
  then show ?thesis
    using Max.set_eq_fold [of a ds] by simp
qed

lemma max_duration_Max:
  assumes "ds \<noteq> []" and "\<forall>d \<in> set ds. 0 \<le> d"
  shows "max_duration ds = Max (set ds)"
proof -
  have "max_duration ds = Max (insert 0 (set ds))"
    by (simp add: max_duration_def fold_max_Max)
  also have "\<dots> = max 0 (Max (set ds))"
    using assms(1) by simp
  also have "\<dots> = Max (set ds)"
  proof -
    obtain d where "d \<in> set ds" using assms(1) by (cases ds) auto
    then have "0 \<le> Max (set ds)"
      using assms(2) by (meson List.finite_set Max_ge order_trans)
    then show ?thesis by simp
  qed
  finally show ?thesis .
qed

lemma segment_list_strip:
  "segment_list (strip_llhls m) = map strip_segment (segment_list m)"
  by (simp add: segment_list_def strip_llhls_def split: option.splits)

lemma default_targetDuration_fields:
  "segments (fst (default_targetDuration w m)) = segments m"
  "partTargetDuration (fst (default_targetDuration w m)) = partTargetDuration m"
  "preloadSegment (fst (default_targetDuration w m)) = preloadSegment m"
  "skip (fst (default_targetDuration w m)) = skip m"
  "serverControl (fst (default_targetDuration w m)) = serverControl m"
  "renditionReports (fst (default_targetDuration w m)) = renditionReports m"
  "partInf (fst (default_targetDuration w m)) = partInf m"
  by (simp_all add: default_targetDuration_def Let_def)

lemma default_partTargetDuration_fields:
  "segments (fst (default_partTargetDuration w g m)) = segments m"
  "targetDuration (fst (default_partTargetDuration w g m)) = targetDuration m"
  "preloadSegment (fst (default_partTargetDuration w g m)) = preloadSegment m"
  "skip (fst (default_partTargetDuration w g m)) = skip m"
  "serverControl (fst (default_partTargetDuration w g m)) = serverControl m"
  "renditionReports (fst (default_partTargetDuration w g m)) = renditionReports m"
  "partInf (fst (default_partTargetDuration w g m)) = partInf m"
  by (simp_all add: default_partTargetDuration_def Let_def)

lemma default_partTargetDuration_reports:
  "\<not> is_targetDuration_warning r" if "r \<in> set (snd (default_partTargetDuration w g m))"
  using that
  by (auto simp: default_partTargetDuration_def Let_def is_targetDuration_warning_def
      split: if_splits)

lemma parseManifest_unfold:
  "parseManifest w g l parsed =
     (let m1 = (if l then parsed else strip_llhls parsed);
          a = default_targetDuration w m1;
          b = default_partTargetDuration w g (fst a)
      in (fst b, snd a @ snd b))"
  by (simp add: parseManifest_def Let_def split: prod.splits)

lemma filter_none: "(\<And>x. x \<in> set xs \<Longrightarrow> \<not> P x) \<Longrightarrow> filter P xs = []"
  by (induction xs) auto

text \<open>
  Claim C2. When \<^verbatim>\<open>targetDuration\<close> is falsy (absent, or 0), \<^verbatim>\<open>parseManifest\<close> sets it
  to the largest segment duration (durations being non-negative), or to 10 when there is
  no segment, and a given \<^verbatim>\<open>onwarn\<close> receives exactly one warning with that value; a
  non-zero \<^verbatim>\<open>targetDuration\<close> is kept and no such warning is sent.
\<close>

theorem parseManifest_targetDuration:
  fixes parsed :: "'v manifest"
  assumes nonneg: "\<forall>s \<in> set (segment_list parsed). 0 \<le> duration s"
  shows "let res = parseManifest onwarn glp llhls parsed;
             td = (if segment_list parsed = [] then 10
                   else Max (duration ` set (segment_list parsed)))
         in if truthy_num (targetDuration parsed)
            then targetDuration (fst res) = targetDuration parsed \<and>
                 filter is_targetDuration_warning (snd res) = []
            else targetDuration (fst res) = Some td \<and>
                 filter is_targetDuration_warning (snd res) =
                   (if onwarn then [WarnNoTargetDuration td] else [])"
proof -
  define m1 where "m1 = (if llhls then parsed else strip_llhls parsed)"
  define a where "a = default_targetDuration onwarn m1"
  define b where "b = default_partTargetDuration onwarn glp (fst a)"
  have res: "parseManifest onwarn glp llhls parsed = (fst b, snd a @ snd b)"
    by (simp add: parseManifest_unfold m1_def a_def b_def Let_def)
  have td1: "targetDuration m1 = targetDuration parsed"
    by (simp add: m1_def strip_llhls_def)
  have durs: "map duration (segment_list m1) = map duration (segment_list parsed)"
    by (simp add: m1_def segment_list_strip strip_segment_def comp_def)
  have fb: "filter is_targetDuration_warning (snd b) = []"
    by (rule filter_none) (simp add: b_def default_partTargetDuration_reports)
  have tdb: "targetDuration (fst b) = targetDuration (fst a)"
    by (simp add: b_def default_partTargetDuration_fields)
  show ?thesis
  proof (cases "truthy_num (targetDuration parsed)")
    case True
    then have "a = (m1, [])"
      by (simp add: a_def default_targetDuration_def td1)
    with True show ?thesis
      by (simp add: res Let_def fb tdb td1)
  next
    case False
    define td where "td = (if segment_list parsed = [] then 10
                   else Max (duration ` set (segment_list parsed)))"
    have empty_iff: "segment_list m1 = [] \<longleftrightarrow> segment_list parsed = []"
      using durs by (metis map_is_Nil_conv)
    have "(case segments m1 of None \<Rightarrow> 10
            | Some ss \<Rightarrow> if ss = [] then 10 else max_duration (map duration ss)) = td"
    proof (cases "segment_list parsed = []")
      case True
      then have "segment_list m1 = []" using empty_iff by simp
      then show ?thesis using True
        by (simp add: td_def segment_list_def split: option.splits)
    next
      case ne: False
      then have ne1: "segment_list m1 \<noteq> []" using empty_iff by simp
      then obtain ss where ss: "segments m1 = Some ss" "ss \<noteq> []" "segment_list m1 = ss"
        by (auto simp: segment_list_def split: option.splits)
      have "max_duration (map duration ss) = Max (set (map duration ss))"
      proof (rule max_duration_Max)
        show "map duration ss \<noteq> []" using ss by simp
        show "\<forall>d\<in>set (map duration ss). 0 \<le> d"
          using nonneg durs ss(3) by (metis (no_types, lifting) imageE image_eqI list.set_map)
      qed
      also have "\<dots> = Max (duration ` set (segment_list parsed))"
        using durs ss(3) by (metis list.set_map)
      finally show ?thesis using ne ss by (simp add: td_def)
    qed
    then have "a = (m1\<lparr>targetDuration := Some td\<rparr>,
                    if onwarn then [WarnNoTargetDuration td] else [])"
      using False by (simp add: a_def default_targetDuration_def td1 Let_def)
    with False show ?thesis
      by (simp add: res Let_def fb tdb td_def is_targetDuration_warning_def)
  qed
qed

theorem parseManifest_targetDuration_witness:
  "targetDuration (fst (parseManifest True getLastParts False example_manifest)) = Some 6 \<and>
   filter is_targetDuration_warning
     (snd (parseManifest True getLastParts False example_manifest)) = [WarnNoTargetDuration 6] \<and>
   targetDuration (fst (parseManifest True getLastParts False
     (example_manifest\<lparr>targetDuration := Some 8\<rparr>))) = Some 8"
  using parseManifest_targetDuration [of example_manifest True getLastParts False]
    parseManifest_targetDuration [of "example_manifest\<lparr>targetDuration := Some 8\<rparr>" True getLastParts False]
  by (simp add: example_manifest_def segment_list_def truthy_num_def Let_def)

theorem parseManifest_targetDuration_counterexample:
  "targetDuration (example_manifest\<lparr>targetDuration := Some 0\<rparr>) = Some 0 \<and>
   targetDuration (fst (parseManifest True getLastParts True
     (example_manifest\<lparr>targetDuration := Some 0\<rparr>))) = Some 6 \<and>
   targetDuration (fst (parseManifest True getLastParts True
     (example_manifest\<lparr>segments := Some [\<lparr>duration = - 1, parts = None, preloadHints = None\<rparr>]\<rparr>)))
     = Some 0"
  by (simp add: example_manifest_def parseManifest_unfold default_targetDuration_def
      default_partTargetDuration_fields truthy_num_def max_duration_def Let_def
      strip_segment_def)

text \<open>
  Claim C3. With \<^verbatim>\<open>llhls\<close> false the result has none of the six low-latency fields and
  no segment keeps \<^verbatim>\<open>parts\<close> or \<^verbatim>\<open>preloadHints\<close>, for any \<^verbatim>\<open>getLastParts\<close> that finds
  no parts where no segment carries any.
\<close>

theorem parseManifest_llhls_off:
  fixes parsed :: "'v manifest"
  assumes glp: "\<And>m :: 'v manifest. \<forall>s \<in> set (segment_list m). parts s = None \<Longrightarrow> glp m = []"
  shows "let m = fst (parseManifest onwarn glp False parsed)
         in preloadSegment m = None \<and> skip m = None \<and> serverControl m = None \<and>
            renditionReports m = None \<and> partInf m = None \<and> partTargetDuration m = None \<and>
            (\<forall>s \<in> set (segment_list m). parts s = None \<and> preloadHints s = None)"
proof -
  define a where "a = default_targetDuration onwarn (strip_llhls parsed)"
  have seg: "segment_list (fst a) = map strip_segment (segment_list parsed)"
    by (simp add: a_def segment_list_def default_targetDuration_fields strip_llhls_def
        split: option.splits)
  then have none: "\<forall>s \<in> set (segment_list (fst a)). parts s = None \<and> preloadHints s = None"
    by (auto simp: strip_segment_def)
  then have "glp (fst a) = []"
    by (intro glp) simp
  then have b: "default_partTargetDuration onwarn glp (fst a) = (fst a, [])"
    by (simp add: default_partTargetDuration_def)
  have res: "fst (parseManifest onwarn glp False parsed) = fst a"
    by (simp add: parseManifest_unfold a_def [symmetric] b Let_def)
  show ?thesis
    unfolding Let_def res using none
    by (simp add: a_def default_targetDuration_fields strip_llhls_def)
qed

lemma getLastParts_no_parts:
  "\<forall>s \<in> set (segment_list m). parts s = None \<Longrightarrow> getLastParts m = []"
  by (auto simp: getLastParts_def dest!: set_takeWhileD)

theorem parseManifest_llhls_off_witness:
  "preloadSegment (fst (parseManifest True getLastParts False example_manifest)) = None \<and>
   serverControl (fst (parseManifest True getLastParts False example_manifest)) = None \<and>
   partTargetDuration (fst (parseManifest True getLastParts False example_manifest)) = None \<and>
   segments (fst (parseManifest True getLastParts False example_manifest)) =
     Some [\<lparr>duration = 6, parts = None, preloadHints = None\<rparr>,
           \<lparr>duration = 4, parts = None, preloadHints = None\<rparr>]"
proof -
  have "segments (fst (parseManifest True getLastParts False example_manifest)) =
     Some [\<lparr>duration = 6, parts = None, preloadHints = None\<rparr>,
           \<lparr>duration = 4, parts = None, preloadHints = None\<rparr>]"
    by (simp add: example_manifest_def parseManifest_unfold default_targetDuration_fields
      default_partTargetDuration_fields Let_def strip_llhls_def strip_segment_def)
  then show ?thesis
    using parseManifest_llhls_off [of getLastParts True example_manifest, OF getLastParts_no_parts]
    by (simp add: Let_def)
qed

text \<open>
  Claim C4. When \<^verbatim>\<open>getLastParts\<close> returns parts for the manifest (after the stripping
  and the first default) and \<^verbatim>\<open>partTargetDuration\<close> is falsy, it is set to the largest
  duration among these parts, the segments are kept, and a given \<^verbatim>\<open>onwarn\<close> receives
  the warning followed by the call of \<^verbatim>\<open>log.error\<close>; without \<^verbatim>\<open>onwarn\<close> neither is made.
\<close>

theorem parseManifest_partTargetDuration:
  fixes parsed :: "'v manifest"
  assumes kept: "kept = (if llhls then parsed else strip_llhls parsed)"
    and ps: "glp (fst (default_targetDuration onwarn kept)) = ps" "ps \<noteq> []"
    and absent: "\<not> truthy_num (partTargetDuration kept)"
    and nonneg: "\<forall>p \<in> set ps. 0 \<le> part_duration p"
  shows "let res = parseManifest onwarn glp llhls parsed;
             ptd = Max (part_duration ` set ps)
         in partTargetDuration (fst res) = Some ptd \<and>
            segments (fst res) = segments kept \<and>
            filter is_partTargetDuration_report (snd res) =
              (if onwarn then [WarnNoPartTargetDuration ptd, LogErrorMissingPartTarget] else [])"
proof -
  define a where "a = default_targetDuration onwarn kept"
  define ptd where "ptd = Max (part_duration ` set ps)"
  have "max_duration (map part_duration ps) = Max (set (map part_duration ps))"
    using ps(2) nonneg by (intro max_duration_Max) auto
  then have md: "max_duration (map part_duration ps) = ptd"
    by (simp add: ptd_def)
  have pa: "partTargetDuration (fst a) = partTargetDuration kept"
    and sa: "segments (fst a) = segments kept"
    by (simp_all add: a_def default_targetDuration_fields)
  have ga: "glp (fst a) = ps"
    using ps(1) by (simp add: a_def)
  have b: "default_partTargetDuration onwarn glp (fst a) =
           ((fst a)\<lparr>partTargetDuration := Some ptd\<rparr>,
            if onwarn then [WarnNoPartTargetDuration ptd, LogErrorMissingPartTarget] else [])"
    using ps(2) absent
    by (simp add: default_partTargetDuration_def ga md pa Let_def)
  have fa: "filter is_partTargetDuration_report (snd a) = []"
    by (auto simp: a_def default_targetDuration_def Let_def is_partTargetDuration_report_def
        is_targetDuration_warning_def)
  have res: "parseManifest onwarn glp llhls parsed =
             ((fst a)\<lparr>partTargetDuration := Some ptd\<rparr>,
              snd a @ (if onwarn then [WarnNoPartTargetDuration ptd, LogErrorMissingPartTarget] else []))"
    unfolding parseManifest_unfold Let_def using b by (simp add: a_def kept)
  show ?thesis
    unfolding Let_def res ptd_def [symmetric]
    by (simp add: fa sa is_partTargetDuration_report_def is_targetDuration_warning_def)
qed

theorem parseManifest_partTargetDuration_witness:
  "partTargetDuration (fst (parseManifest True getLastParts True example_manifest)) = Some 2 \<and>
   filter is_partTargetDuration_report (snd (parseManifest True getLastParts True example_manifest)) =
     [WarnNoPartTargetDuration 2, LogErrorMissingPartTarget]"
proof -
  have ps: "getLastParts (fst (default_targetDuration True example_manifest)) =
            [\<lparr>part_duration = 1\<rparr>, \<lparr>part_duration = 2\<rparr>]"
    by (simp add: getLastParts_def segment_list_def default_targetDuration_fields
        example_manifest_def has_parts_def)
  show ?thesis
    using parseManifest_partTargetDuration [where glp = getLastParts and onwarn = True
        and llhls = True and parsed = example_manifest and kept = example_manifest, OF _ ps]
    by (simp add: Let_def truthy_num_def example_manifest_def)
qed

theorem parseManifest_partTargetDuration_counterexample:
  "getLastParts example_manifest = [\<lparr>part_duration = 1\<rparr>, \<lparr>part_duration = 2\<rparr>] \<and>
   partTargetDuration example_manifest = None \<and>
   partTargetDuration (fst (parseManifest False getLastParts True example_manifest)) = Some 2 \<and>
   snd (parseManifest False getLastParts True example_manifest) = []"
  by (simp add: example_manifest_def parseManifest_unfold default_targetDuration_def
      default_partTargetDuration_def truthy_num_def max_duration_def Let_def
      getLastParts_def segment_list_def has_parts_def)

section \<open>The steps of addPropertiesToMain\<close>

text \<open>
  This section and the next three are about the functions whose names end in \<open>0\<close>: the
  run over a list of elements and a table of keys.
\<close>

lemma fold_invariant:
  assumes "P s" and "\<And>x s. x \<in> set xs \<Longrightarrow> P s \<Longrightarrow> P (f x s)"
  shows "P (fold f xs s)"
  using assms by (induction xs arbitrary: s) auto

lemma group_playlist_body_fields [simp]:
  "main_playlists0 (group_playlist_body0 R G t g l ir s) = main_playlists0 s"
  "mediaGroups0 (group_playlist_body0 R G t g l ir s) = mediaGroups0 s"
  "main_uri0 (group_playlist_body0 R G t g l ir s) = main_uri0 s"
  "main_resolvedUri0 (group_playlist_body0 R G t g l ir s) = main_resolvedUri0 s"
  "nxt0 (group_playlist_body0 R G t g l ir s) = nxt0 s"
  "log_warn0 (group_playlist_body0 R G t g l ir s) = log_warn0 s"
  by (simp_all add: group_playlist_body0_def Let_def)

lemma group_playlist_body_heap:
  "heap0 (group_playlist_body0 R G t g l ir s) =
     (heap0 s)(snd ir := group_playlist_fields R G (main_uri0 s) t g l (fst ir) (heap0 s (snd ir)))"
  by (simp add: group_playlist_body0_def Let_def)

lemma group_playlist_body_key:
  "main_playlists_key0 (group_playlist_body0 R G t g l ir s) =
     (let p = group_playlist_fields R G (main_uri0 s) t g l (fst ir) (heap0 s (snd ir))
      in (main_playlists_key0 s)(to_str (id' p) \<mapsto> snd ir, to_str (uri p) \<mapsto> snd ir))"
  by (simp add: group_playlist_body0_def Let_def)

lemma group_playlist_fields_simps:
  "playlists (group_playlist_fields R G b t g l i p) = playlists p"
  "playlistErrors (group_playlist_fields R G b t g l i p) = playlistErrors p"
  "attributes (group_playlist_fields R G b t g l i p) =
     Some (case attributes p of None \<Rightarrow> Map.empty | Some a \<Rightarrow> a)"
  "id' (group_playlist_fields R G b t g l i p) =
     or_else (id' p) (Some (createPlaylistID i (Some (G t g l p))))"
  "uri (group_playlist_fields R G b t g l i p) =
     (if truthy (uri p) then uri p
      else Some (if i = 0 then G t g l p else createPlaylistID i (Some (G t g l p))))"
  "resolvedUri (group_playlist_fields R G b t g l i p) =
     (if truthy (uri p) then or_else (resolvedUri p) (R b (uri p))
      else Some (if i = 0 then G t g l p else createPlaylistID i (Some (G t g l p))))"
  by (simp_all add: group_playlist_fields_def Let_def)

lemma setupMediaPlaylist_fields [simp]:
  "main_playlists0 (setupMediaPlaylist0 r u i s) = main_playlists0 s"
  "mediaGroups0 (setupMediaPlaylist0 r u i s) = mediaGroups0 s"
  "main_uri0 (setupMediaPlaylist0 r u i s) = main_uri0 s"
  "main_resolvedUri0 (setupMediaPlaylist0 r u i s) = main_resolvedUri0 s"
  "nxt0 (setupMediaPlaylist0 r u i s) = nxt0 s"
  "log_warn0 (setupMediaPlaylist0 r u i s) = log_warn0 s"
  "main_playlists_key0 (setupMediaPlaylist0 r u i s) = main_playlists_key0 s"
  by (simp_all add: setupMediaPlaylist0_def Let_def)

lemma setupMediaPlaylists_body_fields [simp]:
  "main_playlists0 (setupMediaPlaylists_body0 R i s) = main_playlists0 s"
  "mediaGroups0 (setupMediaPlaylists_body0 R i s) = mediaGroups0 s"
  "main_uri0 (setupMediaPlaylists_body0 R i s) = main_uri0 s"
  "main_resolvedUri0 (setupMediaPlaylists_body0 R i s) = main_resolvedUri0 s"
  "nxt0 (setupMediaPlaylists_body0 R i s) = nxt0 s"
  by (simp_all add: setupMediaPlaylists_body0_def Let_def)

lemma setupMediaPlaylists_body_heap:
  "heap0 (setupMediaPlaylists_body0 R i s) =
     (heap0 s)(main_playlists0 s ! i := top_playlist_fields R (main_uri0 s) i (heap0 s (main_playlists0 s ! i)))"
  by (simp add: setupMediaPlaylists_body0_def setupMediaPlaylist0_def Let_def top_playlist_fields_def truthy_def)

lemma setupMediaPlaylists_body_key:
  "main_playlists_key0 (setupMediaPlaylists_body0 R i s) =
     (let r = main_playlists0 s ! i; p = top_playlist_fields R (main_uri0 s) i (heap0 s r)
      in (main_playlists_key0 s)(to_str (id' p) \<mapsto> r, to_str (uri p) \<mapsto> r))"
  by (simp add: setupMediaPlaylists_body0_def setupMediaPlaylist0_def Let_def top_playlist_fields_def truthy_def)

lemma placeholder_uri_body_fields [simp]:
  "main_playlists0 (placeholder_uri_body0 i s) = main_playlists0 s"
  "mediaGroups0 (placeholder_uri_body0 i s) = mediaGroups0 s"
  "main_uri0 (placeholder_uri_body0 i s) = main_uri0 s"
  "main_resolvedUri0 (placeholder_uri_body0 i s) = main_resolvedUri0 s"
  "nxt0 (placeholder_uri_body0 i s) = nxt0 s"
  "log_warn0 (placeholder_uri_body0 i s) = log_warn0 s"
  "main_playlists_key0 (placeholder_uri_body0 i s) = main_playlists_key0 s"
  by (simp_all add: placeholder_uri_body0_def Let_def)

lemma same_doc_refl [simp]: "same_doc s s"
  by (simp add: same_doc_def)

lemma same_doc_trans: "same_doc s t \<Longrightarrow> same_doc t v \<Longrightarrow> same_doc s v"
  by (auto simp: same_doc_def)

lemma fold_same_doc:
  assumes "\<And>x t. x \<in> set xs \<Longrightarrow> same_doc t (f x t)"
  shows "same_doc s (fold f xs s)"
  by (rule fold_invariant [where P = "same_doc s"]) (auto intro: same_doc_trans assms)

lemma same_doc_entries: "same_doc s s' \<Longrightarrow> media_group_entries0 s' = media_group_entries0 s"
  by (simp add: same_doc_def media_group_entries0_def)

lemma group_playlist_body_same_doc: "same_doc s (group_playlist_body0 R G t g l ir s)"
  by (simp add: same_doc_def)

lemma forEach_playlists_same_doc: "same_doc s (forEach_playlists0 R G d t g l s)"
  unfolding forEach_playlists0_def
  by (rule fold_same_doc) (rule group_playlist_body_same_doc)

lemma media_group_body_same_doc: "same_doc s (media_group_body0 R G a d t g l s)"
proof -
  have "same_doc s (s\<lparr>heap0 := h, nxt0 := Suc (nxt0 s)\<rparr>)" for h
    by (simp add: same_doc_def)
  then show ?thesis
    unfolding media_group_body0_def Let_def
    by (auto intro: same_doc_trans forEach_playlists_same_doc)
qed

lemma walk_simps [simp]:
  "walk R G a [] s = s"
  "walk R G a ((d, t, g, l) # es) s = walk R G a es (media_group_body0 R G a d t g l s)"
  by (simp_all add: walk_def)

lemma walk_append: "walk R G a (es @ fs) s = walk R G a fs (walk R G a es s)"
  by (simp add: walk_def)

lemma walk_same_doc: "same_doc s (walk R G a es s)"
  unfolding walk_def
  by (rule fold_same_doc) (auto intro: media_group_body_same_doc)

lemma placeholder_uris_same_doc: "same_doc s (placeholder_uris0 s)"
  unfolding placeholder_uris0_def
  by (rule fold_same_doc) (simp add: same_doc_def)

lemma setupMediaPlaylists_same_doc: "same_doc s (setupMediaPlaylists0 R s)"
  unfolding setupMediaPlaylists0_def
  by (rule fold_same_doc) (simp add: same_doc_def)

lemma resolveMediaGroupUris_same_doc: "same_doc s (resolveMediaGroupUris0 R s)"
  unfolding resolveMediaGroupUris0_def forEachMediaGroup0_def
  by (rule fold_same_doc) (auto simp: same_doc_def)

lemma addPropertiesToMain_unfold:
  "addPropertiesToMain0 R A G u s =
     (let s1 = placeholder_uris0 (s\<lparr>main_uri0 := Some u\<rparr>);
          s2 = walk R G (A s1) (media_group_entries0 s1) s1;
          s3 = setupMediaPlaylists0 R s2
      in resolveMediaGroupUris0 R s3)"
  by (simp add: addPropertiesToMain0_def forEachMediaGroup0_def walk_def Let_def)

lemma grows_refl [simp]: "grows n p p"
  by (simp add: grows_def)

lemma grows_trans:
  assumes "grows n p q" and "grows n q r"
  shows "grows n p r"
proof -
  have 1: "truthy (uri p) \<longrightarrow> uri r = uri p"
    using assms by (auto simp: grows_def)
  have 2: "truthy (id' p) \<longrightarrow> id' r = id' p"
    using assms by (auto simp: grows_def)
  have 3: "\<forall>a. attributes p = Some a \<longrightarrow> attributes r = Some a"
    using assms by (simp add: grows_def)
  have 4: "playlistErrors r = playlistErrors p"
    using assms by (simp add: grows_def)
  have pq: "playlists q = playlists p \<or>
      (unpopulated (playlists p) \<and> (\<exists>c\<ge>n. playlists q = Some [c]))"
    using assms(1) by (simp add: grows_def)
  have qr: "playlists r = playlists q \<or>
      (unpopulated (playlists q) \<and> (\<exists>c\<ge>n. playlists r = Some [c]))"
    using assms(2) by (simp add: grows_def)
  have 5: "playlists r = playlists p \<or>
      (unpopulated (playlists p) \<and> (\<exists>c\<ge>n. playlists r = Some [c]))"
    using pq qr by (auto simp: unpopulated_def)
  show ?thesis
    unfolding grows_def using 1 2 3 4 5 by blast
qed

lemma grows_mono: "grows n p q \<Longrightarrow> m \<le> n \<Longrightarrow> grows m p q"
  unfolding grows_def by (meson order_trans)

lemma grows_fields: "grows n p (group_playlist_fields R G b t g l i p)"
  by (simp add: grows_def group_playlist_fields_simps or_else_def)

lemma heap_grows_refl [simp]: "heap_grows n s s"
  by (simp add: heap_grows_def)

lemma heap_grows_trans: "heap_grows n s t \<Longrightarrow> heap_grows n t v \<Longrightarrow> heap_grows n s v"
  unfolding heap_grows_def by (blast intro: grows_trans)

lemma fold_heap_grows:
  assumes "\<And>x t. x \<in> set xs \<Longrightarrow> heap_grows n t (f x t)"
  shows "heap_grows n s (fold f xs s)"
  by (rule fold_invariant [where P = "heap_grows n s"]) (auto intro: heap_grows_trans assms)

lemma group_playlist_body_grows: "heap_grows n s (group_playlist_body0 R G t g l ir s)"
  by (simp add: heap_grows_def group_playlist_body_heap grows_fields)

lemma forEach_playlists_grows: "heap_grows n s (forEach_playlists0 R G d t g l s)"
  unfolding forEach_playlists0_def
  by (rule fold_heap_grows) (rule group_playlist_body_grows)

lemma media_group_body_grows:
  assumes "n \<le> nxt0 s"
  shows "heap_grows n s (media_group_body0 R G a d t g l s)"
proof -
  let ?s1 = "s\<lparr>heap0 := ((heap0 s)(nxt0 s := heap0 s d))
                (d := (((heap0 s)(nxt0 s := heap0 s d)) d)\<lparr>playlists := Some [nxt0 s]\<rparr>),
              nxt0 := Suc (nxt0 s)\<rparr>"
  have "heap_grows n s ?s1" if "unpopulated (playlists (heap0 s d))"
    using that assms by (auto simp: heap_grows_def grows_def)
  then show ?thesis
    unfolding media_group_body0_def Let_def
    by (auto intro: heap_grows_trans forEach_playlists_grows)
qed

lemma walk_grows_aux:
  "n \<le> nxt0 s \<Longrightarrow> heap_grows n s (walk R G a es s) \<and> n \<le> nxt0 (walk R G a es s)"
proof (induction es arbitrary: s)
  case Nil
  then show ?case by simp
next
  case (Cons e es)
  obtain d t g l where e: "e = (d, t, g, l)" by (cases e)
  let ?s1 = "media_group_body0 R G a d t g l s"
  have 1: "heap_grows n s ?s1" using Cons.prems by (rule media_group_body_grows)
  have "nxt0 s \<le> nxt0 ?s1" using media_group_body_same_doc [of s] by (simp add: same_doc_def)
  then have 2: "n \<le> nxt0 ?s1" using Cons.prems by simp
  from Cons.IH [OF 2] 1 show ?case
    by (auto simp: e intro: heap_grows_trans)
qed

lemma walk_grows: "heap_grows (nxt0 s) s (walk R G a es s)"
  using walk_grows_aux [of "nxt0 s" s] by simp

lemma placeholder_uris_grows: "heap_grows n s (placeholder_uris0 s)"
  unfolding placeholder_uris0_def
  by (rule fold_heap_grows)
    (auto simp: heap_grows_def placeholder_uri_body0_def Let_def grows_def)

lemma setupMediaPlaylists_heap_other:
  assumes "r \<notin> set (main_playlists0 s)"
  shows "heap0 (setupMediaPlaylists0 R s) r = heap0 s r"
proof -
  have "heap0 (setupMediaPlaylists0 R s) r = heap0 s r \<and>
        main_playlists0 (setupMediaPlaylists0 R s) = main_playlists0 s"
    unfolding setupMediaPlaylists0_def
  proof (rule fold_invariant [where P = "\<lambda>t. heap0 t r = heap0 s r \<and> main_playlists0 t = main_playlists0 s"])
    show "heap0 s r = heap0 s r \<and> main_playlists0 s = main_playlists0 s" by simp
  next
    fix i and t :: state0
    assume i: "i \<in> set (rev [0..<length (main_playlists0 s)])"
      and t: "heap0 t r = heap0 s r \<and> main_playlists0 t = main_playlists0 s"
    then have "main_playlists0 t ! i \<in> set (main_playlists0 s)" by simp
    with assms have "main_playlists0 t ! i \<noteq> r" by auto
    with t show "heap0 (setupMediaPlaylists_body0 R i t) r = heap0 s r \<and>
        main_playlists0 (setupMediaPlaylists_body0 R i t) = main_playlists0 s"
      by (simp add: setupMediaPlaylists_body_heap)
  qed
  then show ?thesis by simp
qed

lemma resolved_only_refl [simp]: "resolved_only p p"
  unfolding resolved_only_def by (rule exI [of _ "resolvedUri p"]) simp

lemma resolved_only_upd [simp]: "resolved_only p (p\<lparr>resolvedUri := v\<rparr>)"
  unfolding resolved_only_def by blast

lemma resolved_only_trans: "resolved_only p q \<Longrightarrow> resolved_only q r \<Longrightarrow> resolved_only p r"
  unfolding resolved_only_def by auto

lemma resolved_only_fields:
  assumes "resolved_only p p'"
  shows "uri p' = uri p" "id' p' = id' p" "attributes p' = attributes p"
    "playlists p' = playlists p" "playlistErrors p' = playlistErrors p"
  using assms by (auto simp: resolved_only_def)

lemma resolveMediaGroupUris_heap:
  "resolved_only (heap0 s r) (heap0 (resolveMediaGroupUris0 R s) r)"
  unfolding resolveMediaGroupUris0_def forEachMediaGroup0_def
proof (rule fold_invariant [where P = "\<lambda>t. resolved_only (heap0 s r) (heap0 t r)"])
  show "resolved_only (heap0 s r) (heap0 s r)" by simp
next
  fix x :: "ref \<times> string \<times> string \<times> string" and t :: state0
  assume "resolved_only (heap0 s r) (heap0 t r)"
  moreover have "resolved_only (heap0 t r)
     (heap0 ((case x of (d, mediaType, groupKey, labelKey) \<Rightarrow> \<lambda>t.
       if truthy (uri (heap0 t d))
       then t\<lparr>heap0 := (heap0 t)(d := (heap0 t d)\<lparr>resolvedUri := R (main_uri0 t) (uri (heap0 t d))\<rparr>)\<rparr>
       else t) t) r)"
    by (cases x) simp
  ultimately show "resolved_only (heap0 s r)
     (heap0 ((case x of (d, mediaType, groupKey, labelKey) \<Rightarrow> \<lambda>t.
       if truthy (uri (heap0 t d))
       then t\<lparr>heap0 := (heap0 t)(d := (heap0 t d)\<lparr>resolvedUri := R (main_uri0 t) (uri (heap0 t d))\<rparr>)\<rparr>
       else t) t) r)"
    by (rule resolved_only_trans)
qed

lemma resolveMediaGroupUris_key [simp]:
  "main_playlists_key0 (resolveMediaGroupUris0 R s) = main_playlists_key0 s"
  unfolding resolveMediaGroupUris0_def forEachMediaGroup0_def
  by (rule fold_invariant [where P = "\<lambda>t. main_playlists_key0 t = main_playlists_key0 s"]) auto

text \<open>
  An object that is not an element of \<^verbatim>\<open>main.playlists\<close> and carries a
  non-empty \<^verbatim>\<open>id\<close> keeps it through \<^verbatim>\<open>addPropertiesToMain\<close>. (An element of
  \<^verbatim>\<open>main.playlists\<close> is always given the id made of its index and uri.)
\<close>

lemma keeps_id0:
  assumes "r < nxt0 s" and "r \<notin> set (main_playlists0 s)" and "truthy (id' (heap0 s r))"
  shows "id' (heap0 (addPropertiesToMain0 R A G u s) r) = id' (heap0 s r)"
proof -
  define s0 where "s0 = s\<lparr>main_uri0 := Some u\<rparr>"
  define s1 where "s1 = placeholder_uris0 s0"
  define s2 where "s2 = walk R G (A s1) (media_group_entries0 s1) s1"
  define s3 where "s3 = setupMediaPlaylists0 R s2"
  have res: "addPropertiesToMain0 R A G u s = resolveMediaGroupUris0 R s3"
    by (simp add: addPropertiesToMain_unfold s0_def s1_def s2_def s3_def Let_def)
  have d1: "same_doc s0 s1" unfolding s1_def by (rule placeholder_uris_same_doc)
  have d2: "same_doc s1 s2" unfolding s2_def by (rule walk_same_doc)
  have n1: "nxt0 s1 = nxt0 s"
    unfolding s1_def placeholder_uris0_def
    by (rule fold_invariant [where P = "\<lambda>t. nxt0 t = nxt0 s"]) (simp_all add: s0_def)
  have g1: "grows (nxt0 s) (heap0 s0 r) (heap0 s1 r)"
    using placeholder_uris_grows [of "nxt0 s" s0] assms(1) by (simp add: heap_grows_def s1_def)
  have g2: "grows (nxt0 s) (heap0 s1 r) (heap0 s2 r)"
    using walk_grows [of s1 R G "A s1" "media_group_entries0 s1"] assms(1)
    by (simp add: heap_grows_def s2_def n1)
  have "grows (nxt0 s) (heap0 s r) (heap0 s2 r)"
    using grows_trans [OF g1 g2] by (simp add: s0_def)
  then have i2: "id' (heap0 s2 r) = id' (heap0 s r)"
    using assms(3) by (simp add: grows_def)
  have "main_playlists0 s2 = main_playlists0 s"
    using d1 d2 by (simp add: same_doc_def s0_def)
  then have "heap0 s3 r = heap0 s2 r"
    unfolding s3_def using assms(2) by (intro setupMediaPlaylists_heap_other) simp
  then show ?thesis
    using i2 resolved_only_fields(2) [OF resolveMediaGroupUris_heap [of s3 r R]]
    by (simp add: res)
qed

lemma enumerate_snd: "ir \<in> set (enumerate n xs) \<Longrightarrow> snd ir \<in> set xs"
  by (cases ir) (auto simp: in_set_enumerate_eq)

lemma forEach_playlists_heap_other:
  assumes "x \<notin> set (group_playlists0 s d)"
  shows "heap0 (forEach_playlists0 R G d t g l s) x = heap0 s x"
  unfolding forEach_playlists0_def
proof (rule fold_invariant [where P = "\<lambda>t. heap0 t x = heap0 s x"])
  show "heap0 s x = heap0 s x" ..
next
  fix ir :: "nat \<times> ref" and \<sigma> :: state0
  assume "ir \<in> set (enumerate 0 (group_playlists0 s d))" and *: "heap0 \<sigma> x = heap0 s x"
  then have "snd ir \<in> set (group_playlists0 s d)"
    by (simp add: enumerate_snd)
  with assms have "snd ir \<noteq> x" by auto
  with * show "heap0 (group_playlist_body0 R G t g l ir \<sigma>) x = heap0 s x"
    by (simp add: group_playlist_body_heap)
qed

lemma forEach_playlists_key_range:
  assumes "main_playlists_key0 (forEach_playlists0 R G d t g l s) k = Some x"
  shows "main_playlists_key0 s k = Some x \<or> x \<in> set (group_playlists0 s d)"
proof -
  have "\<forall>k x. main_playlists_key0 (forEach_playlists0 R G d t g l s) k = Some x \<longrightarrow>
          main_playlists_key0 s k = Some x \<or> x \<in> set (group_playlists0 s d)"
    unfolding forEach_playlists0_def
  proof (rule fold_invariant [where P = "\<lambda>t. \<forall>k x. main_playlists_key0 t k = Some x \<longrightarrow>
          main_playlists_key0 s k = Some x \<or> x \<in> set (group_playlists0 s d)"])
    show "\<forall>k x. main_playlists_key0 s k = Some x \<longrightarrow>
          main_playlists_key0 s k = Some x \<or> x \<in> set (group_playlists0 s d)" by simp
  next
    fix ir :: "nat \<times> ref" and \<sigma> :: state0
    assume "ir \<in> set (enumerate 0 (group_playlists0 s d))"
      and *: "\<forall>k x. main_playlists_key0 \<sigma> k = Some x \<longrightarrow>
          main_playlists_key0 s k = Some x \<or> x \<in> set (group_playlists0 s d)"
    then have "snd ir \<in> set (group_playlists0 s d)"
      by (simp add: enumerate_snd)
    with * show "\<forall>k x. main_playlists_key0 (group_playlist_body0 R G t g l ir \<sigma>) k = Some x \<longrightarrow>
          main_playlists_key0 s k = Some x \<or> x \<in> set (group_playlists0 s d)"
      by (auto simp: group_playlist_body_key Let_def split: if_splits)
  qed
  with assms show ?thesis by blast
qed

lemma forEach_playlists_key_same:
  assumes "group_playlists0 s d = []"
  shows "main_playlists_key0 (forEach_playlists0 R G d t g l s) = main_playlists_key0 s"
  by (simp add: forEach_playlists0_def assms)

lemma synthesize_fields [simp]:
  "main_playlists0 (synthesize d s) = main_playlists0 s"
  "mediaGroups0 (synthesize d s) = mediaGroups0 s"
  "main_uri0 (synthesize d s) = main_uri0 s"
  "main_resolvedUri0 (synthesize d s) = main_resolvedUri0 s"
  "main_playlists_key0 (synthesize d s) = main_playlists_key0 s"
  "log_warn0 (synthesize d s) = log_warn0 s"
  "nxt0 (synthesize d s) = Suc (nxt0 s)"
  "group_playlists0 (synthesize d s) d = [nxt0 s]"
  by (simp_all add: synthesize_def group_playlists0_def)

lemma synthesize_heap:
  "heap0 (synthesize d s) = (heap0 s)(nxt0 s := heap0 s d, d := (heap0 s d)\<lparr>playlists := Some [nxt0 s]\<rparr>)"
  by (simp add: synthesize_def)

lemma media_group_body_unfold:
  "media_group_body0 R G a d t g l s =
     (if unpopulated (playlists (heap0 s d)) then
        (if suppressed0 a s d t g then s
         else forEach_playlists0 R G d t g l (synthesize d s))
      else forEach_playlists0 R G d t g l s)"
proof -
  have "((heap0 s)(nxt0 s := heap0 s d)) d = heap0 s d" by simp
  then show ?thesis
    by (simp add: media_group_body0_def synthesize_def Let_def)
qed

lemma media_group_body_suppressed:
  assumes "unpopulated (playlists (heap0 s d))" and "suppressed0 a s d t g"
  shows "media_group_body0 R G a d t g l s = s"
  using assms by (simp add: media_group_body0_def)

lemma media_group_body_heap_other:
  assumes "x \<noteq> d" and "x \<notin> set (group_playlists0 s d)" and "x < nxt0 s"
  shows "heap0 (media_group_body0 R G a d t g l s) x = heap0 s x"
proof -
  have "x \<notin> set (group_playlists0 (synthesize d s) d)"
    using assms(3) by simp
  then have "heap0 (forEach_playlists0 R G d t g l (synthesize d s)) x = heap0 (synthesize d s) x"
    by (rule forEach_playlists_heap_other)
  moreover have "heap0 (synthesize d s) x = heap0 s x"
    using assms by (simp add: synthesize_heap)
  moreover have "heap0 (forEach_playlists0 R G d t g l s) x = heap0 s x"
    using assms(2) by (rule forEach_playlists_heap_other)
  ultimately show ?thesis
    by (simp add: media_group_body_unfold)
qed

lemma media_group_body_key_range:
  assumes "main_playlists_key0 (media_group_body0 R G a d t g l s) k = Some x"
  shows "main_playlists_key0 s k = Some x \<or> x \<in> set (group_playlists0 s d) \<or> x = nxt0 s"
proof -
  have 2: ?thesis
    if "main_playlists_key0 (forEach_playlists0 R G d t g l (synthesize d s)) k = Some x"
    using forEach_playlists_key_range [OF that] by auto
  have 3: ?thesis
    if "main_playlists_key0 (forEach_playlists0 R G d t g l s) k = Some x"
    using forEach_playlists_key_range [OF that] by auto
  show ?thesis
  proof (cases "unpopulated (playlists (heap0 s d))")
    case True
    show ?thesis
    proof (cases "suppressed0 a s d t g")
      case True
      with \<open>unpopulated (playlists (heap0 s d))\<close> assms show ?thesis
        by (simp add: media_group_body_unfold)
    next
      case False
      with True assms show ?thesis
        by (intro 2) (simp add: media_group_body_unfold)
    qed
  next
    case False
    with assms show ?thesis
      by (intro 3) (simp add: media_group_body_unfold)
  qed
qed

lemma placeholder_uris_heap_other:
  assumes "r \<notin> set (main_playlists0 s)"
  shows "heap0 (placeholder_uris0 s) r = heap0 s r"
proof -
  have "heap0 (placeholder_uris0 s) r = heap0 s r \<and>
        main_playlists0 (placeholder_uris0 s) = main_playlists0 s"
    unfolding placeholder_uris0_def
  proof (rule fold_invariant [where P = "\<lambda>t. heap0 t r = heap0 s r \<and> main_playlists0 t = main_playlists0 s"])
    show "heap0 s r = heap0 s r \<and> main_playlists0 s = main_playlists0 s" by simp
  next
    fix i and t :: state0
    assume i: "i \<in> set [0..<length (main_playlists0 s)]"
      and t: "heap0 t r = heap0 s r \<and> main_playlists0 t = main_playlists0 s"
    then have "main_playlists0 t ! i \<in> set (main_playlists0 s)" by simp
    with assms have "main_playlists0 t ! i \<noteq> r" by auto
    with t show "heap0 (placeholder_uri_body0 i t) r = heap0 s r \<and>
        main_playlists0 (placeholder_uri_body0 i t) = main_playlists0 s"
      by (simp add: placeholder_uri_body0_def Let_def)
  qed
  then show ?thesis by simp
qed

lemma placeholder_uris_key [simp]:
  "main_playlists_key0 (placeholder_uris0 s) = main_playlists_key0 s"
  unfolding placeholder_uris0_def
  by (rule fold_invariant [where P = "\<lambda>t. main_playlists_key0 t = main_playlists_key0 s"]) auto

lemma placeholder_uris_nxt [simp]: "nxt0 (placeholder_uris0 s) = nxt0 s"
  unfolding placeholder_uris0_def
  by (rule fold_invariant [where P = "\<lambda>t. nxt0 t = nxt0 s"]) auto

lemma setupMediaPlaylists_key_range:
  assumes "main_playlists_key0 (setupMediaPlaylists0 R s) k = Some x"
  shows "main_playlists_key0 s k = Some x \<or> x \<in> set (main_playlists0 s)"
proof -
  have "(\<forall>k x. main_playlists_key0 (setupMediaPlaylists0 R s) k = Some x \<longrightarrow>
          main_playlists_key0 s k = Some x \<or> x \<in> set (main_playlists0 s)) \<and>
        main_playlists0 (setupMediaPlaylists0 R s) = main_playlists0 s"
    unfolding setupMediaPlaylists0_def
  proof (rule fold_invariant [where P = "\<lambda>t. (\<forall>k x. main_playlists_key0 t k = Some x \<longrightarrow>
          main_playlists_key0 s k = Some x \<or> x \<in> set (main_playlists0 s)) \<and>
          main_playlists0 t = main_playlists0 s"])
    show "(\<forall>k x. main_playlists_key0 s k = Some x \<longrightarrow>
          main_playlists_key0 s k = Some x \<or> x \<in> set (main_playlists0 s)) \<and>
          main_playlists0 s = main_playlists0 s" by simp
  next
    fix i and t :: state0
    assume i: "i \<in> set (rev [0..<length (main_playlists0 s)])"
      and t: "(\<forall>k x. main_playlists_key0 t k = Some x \<longrightarrow>
          main_playlists_key0 s k = Some x \<or> x \<in> set (main_playlists0 s)) \<and>
          main_playlists0 t = main_playlists0 s"
    then have "main_playlists0 t ! i \<in> set (main_playlists0 s)" by simp
    with t show "(\<forall>k x. main_playlists_key0 (setupMediaPlaylists_body0 R i t) k = Some x \<longrightarrow>
          main_playlists_key0 s k = Some x \<or> x \<in> set (main_playlists0 s)) \<and>
          main_playlists0 (setupMediaPlaylists_body0 R i t) = main_playlists0 s"
      by (auto simp: setupMediaPlaylists_body_key Let_def split: if_splits)
  qed
  with assms show ?thesis by blast
qed

lemma resolveMediaGroupUris_heap_falsy:
  assumes "\<not> truthy (uri (heap0 s d))"
  shows "heap0 (resolveMediaGroupUris0 R s) d = heap0 s d"
  unfolding resolveMediaGroupUris0_def forEachMediaGroup0_def
proof (rule fold_invariant [where P = "\<lambda>t. heap0 t d = heap0 s d"])
  show "heap0 s d = heap0 s d" ..
next
  fix x :: "ref \<times> string \<times> string \<times> string" and t :: state0
  assume "heap0 t d = heap0 s d"
  with assms show "heap0 ((case x of (d, mediaType, groupKey, labelKey) \<Rightarrow> \<lambda>t.
       if truthy (uri (heap0 t d))
       then t\<lparr>heap0 := (heap0 t)(d := (heap0 t d)\<lparr>resolvedUri := R (main_uri0 t) (uri (heap0 t d))\<rparr>)\<rparr>
       else t) t) d = heap0 s d"
    by (cases x) auto
qed

lemma in_main_playlists_grows:
  assumes "in_main_playlists0 s g" and "heap_grows n s t" and "main_playlists0 t = main_playlists0 s"
    and "\<forall>r \<in> set (main_playlists0 s). r < n"
  shows "in_main_playlists0 t g"
proof -
  from assms(1) obtain r a where r: "r \<in> set (main_playlists0 s)"
    and a: "attributes (heap0 s r) = Some a" "truthy_attr (a ''AUDIO'')" "a ''AUDIO'' = Some (AStr g)"
    by (auto simp: in_main_playlists0_def split: option.splits)
  from r assms(4) have "r < n" by blast
  with assms(2) a(1) have "attributes (heap0 t r) = Some a"
    by (auto simp: heap_grows_def grows_def)
  with r a show ?thesis
    unfolding in_main_playlists0_def assms(3) by (intro bexI [of _ r]) simp_all
qed

lemma grows_group_playlists:
  assumes "heap_grows n s t" and "y < n" and "x < n" and "x \<notin> set (group_playlists0 s y)"
  shows "x \<notin> set (group_playlists0 t y)"
proof -
  from assms(1,2) have "grows n (heap0 s y) (heap0 t y)"
    by (simp add: heap_grows_def)
  then have "playlists (heap0 t y) = playlists (heap0 s y) \<or>
      (\<exists>c\<ge>n. playlists (heap0 t y) = Some [c])"
    by (auto simp: grows_def)
  with assms(3,4) show ?thesis
    by (auto simp: group_playlists0_def)
qed

lemma walk_untouched:
  assumes d_alloc: "d < nxt0 s"
    and top_alloc: "\<forall>r \<in> set (main_playlists0 s). r < nxt0 s"
    and es_alloc: "\<forall>e \<in> set es. fst e < nxt0 s"
    and notsub: "\<forall>e \<in> set es. d \<notin> set (group_playlists0 s (fst e))"
    and own: "\<forall>e \<in> set es. fst e = d \<longrightarrow>
                a \<and> fst (snd e) = ''AUDIO'' \<and> in_main_playlists0 s (fst (snd (snd e)))"
    and empty: "unpopulated (playlists (heap0 s d))"
    and nouri: "\<not> truthy (uri (heap0 s d))"
  shows "heap0 (walk R G a es s) d = heap0 s d \<and>
         (\<forall>k. main_playlists_key0 (walk R G a es s) k = Some d \<longrightarrow> main_playlists_key0 s k = Some d)"
proof -
  define P where "P t \<longleftrightarrow> heap0 t d = heap0 s d \<and>
      (\<forall>k. main_playlists_key0 t k = Some d \<longrightarrow> main_playlists_key0 s k = Some d) \<and>
      heap_grows (nxt0 s) s t \<and> nxt0 s \<le> nxt0 t \<and> main_playlists0 t = main_playlists0 s" for t
  have "P (walk R G a es s)"
    unfolding walk_def
  proof (rule fold_invariant [where P = P])
    show "P s" by (simp add: P_def)
  next
    fix e :: "ref \<times> string \<times> string \<times> string" and t :: state0
    assume e: "e \<in> set es" and Pt: "P t"
    obtain d' ty g l where e_eq: "e = (d', ty, g, l)" by (cases e)
    let ?t' = "media_group_body0 R G a d' ty g l t"
    have sd: "same_doc t ?t'" by (rule media_group_body_same_doc)
    have gr: "heap_grows (nxt0 s) s ?t'"
      using Pt media_group_body_grows [of "nxt0 s" t R G a d' ty g l]
      by (auto simp: P_def intro: heap_grows_trans)
    have rest: "nxt0 s \<le> nxt0 ?t' \<and> main_playlists0 ?t' = main_playlists0 s"
      using sd Pt by (simp add: same_doc_def P_def)
    have "heap0 ?t' d = heap0 s d \<and>
      (\<forall>k. main_playlists_key0 ?t' k = Some d \<longrightarrow> main_playlists_key0 s k = Some d)"
    proof (cases "d' = d")
      case True
      with own e e_eq have a: a and ty: "ty = ''AUDIO''" and im: "in_main_playlists0 s g"
        by auto
      have "in_main_playlists0 t g"
        using im Pt top_alloc by (intro in_main_playlists_grows [of s g "nxt0 s" t]) (simp_all add: P_def)
      then have "suppressed0 a t d ty g"
        using a ty nouri Pt by (simp add: suppressed0_def P_def)
      moreover have "unpopulated (playlists (heap0 t d))"
        using empty Pt by (simp add: P_def)
      ultimately have "?t' = t"
        using True by (simp add: media_group_body_suppressed)
      with Pt show ?thesis by (simp add: P_def)
    next
      case False
      have d'_alloc: "d' < nxt0 s" using es_alloc e e_eq by auto
      have "d \<notin> set (group_playlists0 s d')" using notsub e e_eq by auto
      then have ns: "d \<notin> set (group_playlists0 t d')"
        using Pt d'_alloc d_alloc by (intro grows_group_playlists [of "nxt0 s" s t]) (simp_all add: P_def)
      have lt: "d < nxt0 t" using Pt d_alloc by (simp add: P_def)
      have "heap0 ?t' d = heap0 t d"
        using False ns lt by (intro media_group_body_heap_other) auto
      moreover have "main_playlists_key0 t k = Some d" if "main_playlists_key0 ?t' k = Some d" for k
        using media_group_body_key_range [OF that] ns lt by auto
      ultimately show ?thesis using Pt by (simp add: P_def)
    qed
    with gr rest show "P ((case e of (d, t, g, l) \<Rightarrow> media_group_body0 R G a d t g l) t)"
      by (simp add: P_def e_eq)
  qed
  then show ?thesis by (simp add: P_def)
qed

lemma placeholder_uris_other_fields:
  "playlists (heap0 (placeholder_uris0 s) y) = playlists (heap0 s y) \<and>
   attributes (heap0 (placeholder_uris0 s) y) = attributes (heap0 s y) \<and>
   id' (heap0 (placeholder_uris0 s) y) = id' (heap0 s y) \<and>
   resolvedUri (heap0 (placeholder_uris0 s) y) = resolvedUri (heap0 s y) \<and>
   playlistErrors (heap0 (placeholder_uris0 s) y) = playlistErrors (heap0 s y)"
  unfolding placeholder_uris0_def
  by (rule fold_invariant [where P = "\<lambda>t. playlists (heap0 t y) = playlists (heap0 s y) \<and>
   attributes (heap0 t y) = attributes (heap0 s y) \<and>
   id' (heap0 t y) = id' (heap0 s y) \<and>
   resolvedUri (heap0 t y) = resolvedUri (heap0 s y) \<and>
   playlistErrors (heap0 t y) = playlistErrors (heap0 s y)"])
    (auto simp: placeholder_uri_body0_def Let_def)

lemma placeholder_uris_group_playlists [simp]:
  "group_playlists0 (placeholder_uris0 s) y = group_playlists0 s y"
  by (simp add: group_playlists0_def placeholder_uris_other_fields)

lemma placeholder_uris_main_playlists [simp]:
  "main_playlists0 (placeholder_uris0 s) = main_playlists0 s"
  using placeholder_uris_same_doc [of s] by (simp add: same_doc_def)

lemma placeholder_uris_entries [simp]:
  "media_group_entries0 (placeholder_uris0 s) = media_group_entries0 s"
  using placeholder_uris_same_doc [of s] by (rule same_doc_entries)

lemma placeholder_uris_in_main [simp]:
  "in_main_playlists0 (placeholder_uris0 s) g = in_main_playlists0 s g"
  by (simp add: in_main_playlists0_def placeholder_uris_other_fields)

lemma main_uri_update_simps [simp]:
  "group_playlists0 (s\<lparr>main_uri0 := v\<rparr>) y = group_playlists0 s y"
  "media_group_entries0 (s\<lparr>main_uri0 := v\<rparr>) = media_group_entries0 s"
  "in_main_playlists0 (s\<lparr>main_uri0 := v\<rparr>) g = in_main_playlists0 s g"
  by (simp_all add: group_playlists0_def media_group_entries0_def in_main_playlists0_def)

lemma addPropertiesToMain_untouched:
  assumes d_alloc: "d < nxt0 s"
    and top_alloc: "\<forall>r \<in> set (main_playlists0 s). r < nxt0 s"
    and es_alloc: "\<forall>e \<in> set (media_group_entries0 s). fst e < nxt0 s"
    and nottop: "d \<notin> set (main_playlists0 s)"
    and notsub: "\<forall>e \<in> set (media_group_entries0 s). d \<notin> set (group_playlists0 s (fst e))"
    and own: "\<forall>e \<in> set (media_group_entries0 s). fst e = d \<longrightarrow>
                A (placeholder_uris0 (s\<lparr>main_uri0 := Some u\<rparr>)) \<and> fst (snd e) = ''AUDIO'' \<and>
                in_main_playlists0 s (fst (snd (snd e)))"
    and empty: "unpopulated (playlists (heap0 s d))"
    and nouri: "\<not> truthy (uri (heap0 s d))"
  shows "heap0 (addPropertiesToMain0 R A G u s) d = heap0 s d \<and>
         (\<forall>k. main_playlists_key0 (addPropertiesToMain0 R A G u s) k = Some d \<longrightarrow>
              main_playlists_key0 s k = Some d)"
proof -
  define s1 where "s1 = placeholder_uris0 (s\<lparr>main_uri0 := Some u\<rparr>)"
  define s2 where "s2 = walk R G (A s1) (media_group_entries0 s1) s1"
  define s3 where "s3 = setupMediaPlaylists0 R s2"
  have res: "addPropertiesToMain0 R A G u s = resolveMediaGroupUris0 R s3"
    by (simp add: addPropertiesToMain_unfold s1_def s2_def s3_def Let_def)
  have h1: "heap0 s1 d = heap0 s d"
    unfolding s1_def using nottop by (subst placeholder_uris_heap_other) simp_all
  have k1: "main_playlists_key0 s1 = main_playlists_key0 s"
    by (simp add: s1_def)
  have w: "heap0 s2 d = heap0 s1 d \<and>
         (\<forall>k. main_playlists_key0 s2 k = Some d \<longrightarrow> main_playlists_key0 s1 k = Some d)"
    unfolding s2_def
  proof (rule walk_untouched)
    show "d < nxt0 s1" using d_alloc by (simp add: s1_def)
    show "\<forall>r\<in>set (main_playlists0 s1). r < nxt0 s1" using top_alloc by (simp add: s1_def)
    show "\<forall>e\<in>set (media_group_entries0 s1). fst e < nxt0 s1" using es_alloc by (simp add: s1_def)
    show "\<forall>e\<in>set (media_group_entries0 s1). d \<notin> set (group_playlists0 s1 (fst e))"
      using notsub by (simp add: s1_def)
    show "\<forall>e\<in>set (media_group_entries0 s1). fst e = d \<longrightarrow>
       A s1 \<and> fst (snd e) = ''AUDIO'' \<and> in_main_playlists0 s1 (fst (snd (snd e)))"
      using own by (simp add: s1_def)
    show "unpopulated (playlists (heap0 s1 d))" using empty h1 by simp
    show "\<not> truthy (uri (heap0 s1 d))" using nouri h1 by simp
  qed
  have m2: "main_playlists0 s2 = main_playlists0 s"
    using walk_same_doc [of s1 R G "A s1" "media_group_entries0 s1"]
    by (simp add: s2_def same_doc_def) (simp add: s1_def)
  have h3: "heap0 s3 d = heap0 s2 d"
    unfolding s3_def using nottop m2 by (intro setupMediaPlaylists_heap_other) simp
  have k3: "main_playlists_key0 s2 k = Some d" if "main_playlists_key0 s3 k = Some d" for k
    using setupMediaPlaylists_key_range [of R s2 k d] that nottop m2 by (auto simp: s3_def)
  have h4: "heap0 (resolveMediaGroupUris0 R s3) d = heap0 s3 d"
    using nouri h1 h3 w by (intro resolveMediaGroupUris_heap_falsy) simp
  show ?thesis
    unfolding res using h1 h3 h4 w k1 k3 by auto
qed

lemma tree_shaped_entry:
  assumes "tree_shaped0 s" and "(d, t, g, l) \<in> set (media_group_entries0 s)"
  shows "d < nxt0 s"
    and "\<forall>r \<in> set (main_playlists0 s). r < nxt0 s"
    and "\<forall>e \<in> set (media_group_entries0 s). fst e < nxt0 s"
    and "d \<notin> set (main_playlists0 s)"
    and "\<forall>e \<in> set (media_group_entries0 s). d \<notin> set (group_playlists0 s (fst e))"
    and "\<forall>e \<in> set (media_group_entries0 s). fst e = d \<longrightarrow> e = (d, t, g, l)"
proof -
  have dist: "distinct (main_playlists0 s)" "distinct (entry_refs0 s)"
    "set (main_playlists0 s) \<inter> set (entry_refs0 s) = {}"
    "set (entry_refs0 s) \<inter> set (concat (map (group_playlists0 s) (entry_refs0 s))) = {}"
    and alloc: "\<forall>r \<in> set (all_refs0 s). r < nxt0 s"
    using assms(1) by (auto simp: tree_shaped0_def all_refs0_def)
  have d_in: "d \<in> set (entry_refs0 s)"
    using assms(2) by (force simp: entry_refs0_def)
  show "d < nxt0 s" using alloc d_in by (simp add: all_refs0_def)
  show "\<forall>r \<in> set (main_playlists0 s). r < nxt0 s" using alloc by (simp add: all_refs0_def)
  show "\<forall>e \<in> set (media_group_entries0 s). fst e < nxt0 s"
    using alloc by (simp add: all_refs0_def entry_refs0_def)
  show "d \<notin> set (main_playlists0 s)" using dist(3) d_in by auto
  show "\<forall>e \<in> set (media_group_entries0 s). d \<notin> set (group_playlists0 s (fst e))"
    using dist(4) d_in by (auto simp: entry_refs0_def)
  show "\<forall>e \<in> set (media_group_entries0 s). fst e = d \<longrightarrow> e = (d, t, g, l)"
  proof (intro ballI impI)
    fix e assume "e \<in> set (media_group_entries0 s)" "fst e = d"
    then have "(d, snd e) \<in> set (media_group_entries0 s)" by (metis prod.collapse)
    with dist(2) assms(2) have "(t, g, l) = snd e"
      unfolding entry_refs0_def by (rule eq_key_imp_eq_value)
    with \<open>fst e = d\<close> show "e = (d, t, g, l)" by (metis prod.collapse)
  qed
qed

text \<open>
  In a manifest for which \<^verbatim>\<open>isAudioOnly\<close> holds, an AUDIO rendition without
  nested playlists and without uri, whose group is the \<^verbatim>\<open>attributes.AUDIO\<close> of an
  element of \<^verbatim>\<open>main.playlists\<close>, still has no nested playlists after
  \<^verbatim>\<open>addPropertiesToMain\<close>.
\<close>

lemma audio_only_suppression0:
  assumes "tree_shaped0 s"
    and "A (placeholder_uris0 (s\<lparr>main_uri0 := Some u\<rparr>))"
    and "(d, ''AUDIO'', g, l) \<in> set (media_group_entries0 s)"
    and "unpopulated (playlists (heap0 s d))"
    and "\<not> truthy (uri (heap0 s d))"
    and "in_main_playlists0 s g"
  shows "unpopulated (playlists (heap0 (addPropertiesToMain0 R A G u s) d))"
proof -
  note te = tree_shaped_entry [OF assms(1) assms(3)]
  have own: "\<forall>e\<in>set (media_group_entries0 s). fst e = d \<longrightarrow>
       A (placeholder_uris0 (s\<lparr>main_uri0 := Some u\<rparr>)) \<and> fst (snd e) = ''AUDIO'' \<and>
       in_main_playlists0 s (fst (snd (snd e)))"
  proof (intro ballI impI)
    fix e assume "e \<in> set (media_group_entries0 s)" and "fst e = d"
    with te(6) have "e = (d, ''AUDIO'', g, l)" by blast
    with assms(2,6) show "A (placeholder_uris0 (s\<lparr>main_uri0 := Some u\<rparr>)) \<and>
        fst (snd e) = ''AUDIO'' \<and> in_main_playlists0 s (fst (snd (snd e)))"
      by simp
  qed
  have "heap0 (addPropertiesToMain0 R A G u s) d = heap0 s d"
    using addPropertiesToMain_untouched [where R = R and G = G and A = A and u = u and s = s and d = d,
        OF te(1) te(2) te(3) te(4) te(5) own assms(4) assms(5)]
    by (rule conjunct1)
  with assms(4) show ?thesis by simp
qed

text \<open>
  Such a rendition is the same object after \<^verbatim>\<open>addPropertiesToMain\<close> as
  before: no field is added or changed, it is no element of \<^verbatim>\<open>main.playlists\<close>, and
  the call registers it under no key.
\<close>

lemma suppressed_unmodified0:
  assumes "tree_shaped0 s"
    and "A (placeholder_uris0 (s\<lparr>main_uri0 := Some u\<rparr>))"
    and "(d, ''AUDIO'', g, l) \<in> set (media_group_entries0 s)"
    and "unpopulated (playlists (heap0 s d))"
    and "\<not> truthy (uri (heap0 s d))"
    and "in_main_playlists0 s g"
  shows "heap0 (addPropertiesToMain0 R A G u s) d = heap0 s d \<and>
         d \<notin> set (main_playlists0 (addPropertiesToMain0 R A G u s)) \<and>
         (\<forall>k. main_playlists_key0 (addPropertiesToMain0 R A G u s) k = Some d \<longrightarrow>
              main_playlists_key0 s k = Some d)"
proof -
  note te = tree_shaped_entry [OF assms(1) assms(3)]
  have own: "\<forall>e\<in>set (media_group_entries0 s). fst e = d \<longrightarrow>
       A (placeholder_uris0 (s\<lparr>main_uri0 := Some u\<rparr>)) \<and> fst (snd e) = ''AUDIO'' \<and>
       in_main_playlists0 s (fst (snd (snd e)))"
  proof (intro ballI impI)
    fix e assume "e \<in> set (media_group_entries0 s)" and "fst e = d"
    with te(6) have "e = (d, ''AUDIO'', g, l)" by blast
    with assms(2,6) show "A (placeholder_uris0 (s\<lparr>main_uri0 := Some u\<rparr>)) \<and>
        fst (snd e) = ''AUDIO'' \<and> in_main_playlists0 s (fst (snd (snd e)))"
      by simp
  qed
  note * = addPropertiesToMain_untouched [where R = R and G = G and A = A and u = u and s = s and d = d,
        OF te(1) te(2) te(3) te(4) te(5) own assms(4) assms(5)]
  have "main_playlists0 (addPropertiesToMain0 R A G u s) = main_playlists0 s"
    using placeholder_uris_same_doc walk_same_doc setupMediaPlaylists_same_doc
      resolveMediaGroupUris_same_doc
    by (simp add: addPropertiesToMain_unfold Let_def same_doc_def)
  with * te(4) show ?thesis by simp
qed

section \<open>The manifest after addPropertiesToMain\<close>

lemma writes_simps [simp]:
  "writes h [] m = m"
  "writes h (x # xs) m = writes h xs (write_keys (h x) x m)"
  by (simp_all add: writes_def)

lemma writes_append: "writes h (xs @ ys) m = writes h ys (writes h xs m)"
  by (simp add: writes_def)

lemma writes_cong:
  "(\<And>x. x \<in> set xs \<Longrightarrow> h x = h' x) \<Longrightarrow> writes h xs m = writes h' xs m"
  by (induction xs arbitrary: m) simp_all

lemma registers_fold:
  assumes reg: "\<And>a t. a \<in> set as \<Longrightarrow> registers (obj a) t (f a t)"
    and dist: "distinct (map obj as)"
  shows "(\<forall>y. y \<notin> obj ` set as \<longrightarrow> heap0 (fold f as s) y = heap0 s y) \<and>
         main_playlists_key0 (fold f as s) =
           writes (heap0 (fold f as s)) (map obj as) (main_playlists_key0 s)"
  using assms
proof (induction as arbitrary: s)
  case Nil
  then show ?case by simp
next
  case (Cons a as)
  let ?s1 = "f a s"
  let ?s' = "fold f as ?s1"
  have r1: "registers (obj a) s ?s1" using Cons.prems(1) by simp
  have IH: "(\<forall>y. y \<notin> obj ` set as \<longrightarrow> heap0 ?s' y = heap0 ?s1 y) \<and>
         main_playlists_key0 ?s' = writes (heap0 ?s') (map obj as) (main_playlists_key0 ?s1)"
    using Cons.prems by (intro Cons.IH) auto
  have "obj a \<notin> obj ` set as" using Cons.prems(2) by auto
  with IH have same: "heap0 ?s' (obj a) = heap0 ?s1 (obj a)" by blast
  have frame: "\<forall>y. y \<notin> obj ` set (a # as) \<longrightarrow> heap0 ?s' y = heap0 s y"
    using IH r1 by (auto simp: registers_def)
  have "main_playlists_key0 ?s1 = write_keys (heap0 ?s' (obj a)) (obj a) (main_playlists_key0 s)"
    using r1 same by (simp add: registers_def)
  with IH frame show ?case by simp
qed

lemma group_playlist_body_registers:
  "registers (snd ir) s (group_playlist_body0 R G t g l ir s)"
  by (simp add: registers_def group_playlist_body_heap group_playlist_body_key write_keys_def Let_def)

lemma map_snd_enumerate [simp]: "map snd (enumerate n xs) = xs"
  by (induction xs arbitrary: n) simp_all

lemma forEach_playlists_registers:
  assumes "distinct (group_playlists0 s d)"
  shows "(\<forall>y. y \<notin> set (group_playlists0 s d) \<longrightarrow> heap0 (forEach_playlists0 R G d t g l s) y = heap0 s y) \<and>
         main_playlists_key0 (forEach_playlists0 R G d t g l s) =
           writes (heap0 (forEach_playlists0 R G d t g l s)) (group_playlists0 s d) (main_playlists_key0 s)"
proof -
  have "(\<forall>y. y \<notin> snd ` set (enumerate 0 (group_playlists0 s d)) \<longrightarrow>
           heap0 (forEach_playlists0 R G d t g l s) y = heap0 s y) \<and>
         main_playlists_key0 (forEach_playlists0 R G d t g l s) =
           writes (heap0 (forEach_playlists0 R G d t g l s))
             (map snd (enumerate 0 (group_playlists0 s d))) (main_playlists_key0 s)"
    unfolding forEach_playlists0_def
    by (rule registers_fold) (simp_all add: group_playlist_body_registers assms)
  moreover have "snd ` set (enumerate 0 (group_playlists0 s d)) = set (group_playlists0 s d)"
    by (metis list.set_map map_snd_enumerate)
  ultimately show ?thesis by simp
qed

lemma fold_group_playlist_body_value:
  assumes "distinct xs" and "j < length xs"
  shows "heap0 (fold (group_playlist_body0 R G t g l) (enumerate n xs) s) (xs ! j) =
         group_playlist_fields R G (main_uri0 s) t g l (n + j) (heap0 s (xs ! j))"
  using assms
proof (induction xs arbitrary: n j s)
  case Nil
  then show ?case by simp
next
  case (Cons x xs)
  let ?s1 = "group_playlist_body0 R G t g l (n, x) s"
  show ?case
  proof (cases j)
    case 0
    have "x \<notin> snd ` set (enumerate (Suc n) xs)"
      using Cons.prems(1) by (metis distinct.simps(2) list.set_map map_snd_enumerate)
    moreover have "\<forall>y. y \<notin> snd ` set (enumerate (Suc n) xs) \<longrightarrow>
        heap0 (fold (group_playlist_body0 R G t g l) (enumerate (Suc n) xs) ?s1) y = heap0 ?s1 y"
      using registers_fold [of "enumerate (Suc n) xs" snd "group_playlist_body0 R G t g l" ?s1]
        Cons.prems(1) by (simp add: group_playlist_body_registers)
    ultimately have "heap0 (fold (group_playlist_body0 R G t g l) (enumerate (Suc n) xs) ?s1) x = heap0 ?s1 x"
      by blast
    with 0 show ?thesis by (simp add: group_playlist_body_heap)
  next
    case (Suc j')
    have xne: "xs ! j' \<noteq> x" using Cons.prems Suc by auto
    have "heap0 (fold (group_playlist_body0 R G t g l) (enumerate (Suc n) xs) ?s1) (xs ! j') =
         group_playlist_fields R G (main_uri0 ?s1) t g l (Suc n + j') (heap0 ?s1 (xs ! j'))"
      using Cons.prems Suc by (intro Cons.IH) auto
    with Suc xne show ?thesis by (simp add: group_playlist_body_heap)
  qed
qed

lemma forEach_playlists_value:
  assumes "distinct (group_playlists0 s d)" and "j < length (group_playlists0 s d)"
  shows "heap0 (forEach_playlists0 R G d t g l s) (group_playlists0 s d ! j) =
         group_playlist_fields R G (main_uri0 s) t g l j (heap0 s (group_playlists0 s d ! j))"
  unfolding forEach_playlists0_def
  using fold_group_playlist_body_value [OF assms, of R G t g l 0 s] by simp

lemma tree_shaped_walk_ok: "tree_shaped0 s \<longleftrightarrow> walk_ok s (media_group_entries0 s)"
  by (simp add: tree_shaped0_def walk_ok_def all_refs0_def entry_refs0_def)

lemma unpopulated_group_playlists:
  "unpopulated (playlists (heap0 s d)) \<Longrightarrow> group_playlists0 s d = []"
  by (auto simp: unpopulated_def group_playlists0_def split: option.splits)

lemma forEach_playlists_nxt [simp]: "nxt0 (forEach_playlists0 R G d t g l s) = nxt0 s"
  unfolding forEach_playlists0_def
  by (rule fold_invariant [where P = "\<lambda>t. nxt0 t = nxt0 s"]) simp_all

lemma forEach_playlists_main_uri [simp]: "main_uri0 (forEach_playlists0 R G d t g l s) = main_uri0 s"
  using forEach_playlists_same_doc [of s R G d t g l] by (simp add: same_doc_def)

lemma group_playlists_heap_eq: "heap0 s' d = heap0 s d \<Longrightarrow> group_playlists0 s' d = group_playlists0 s d"
  by (simp add: group_playlists0_def)

lemma visit:
  assumes dist: "distinct (group_playlists0 s d)"
    and self: "d \<notin> set (group_playlists0 s d)"
    and alloc: "d < nxt0 s"
  shows "visited R G a s (media_group_body0 R G a d t g l s) (d, t, g, l)"
    and "main_playlists_key0 (media_group_body0 R G a d t g l s) =
           writes (heap0 (media_group_body0 R G a d t g l s))
             (group_playlists0 (media_group_body0 R G a d t g l s) d) (main_playlists_key0 s)"
    and "\<forall>x \<in> set (group_playlists0 (media_group_body0 R G a d t g l s) d).
           x \<in> set (group_playlists0 s d) \<or>
           (x = nxt0 s \<and> nxt0 s < nxt0 (media_group_body0 R G a d t g l s))"
proof -
  let ?s' = "media_group_body0 R G a d t g l s"
  have "visited R G a s ?s' (d, t, g, l) \<and>
        main_playlists_key0 ?s' = writes (heap0 ?s') (group_playlists0 ?s' d) (main_playlists_key0 s) \<and>
        (\<forall>x \<in> set (group_playlists0 ?s' d). x \<in> set (group_playlists0 s d) \<or>
           (x = nxt0 s \<and> nxt0 s < nxt0 ?s'))"
  proof (cases "unpopulated (playlists (heap0 s d))")
    case True
    note empty = unpopulated_group_playlists [OF True]
    show ?thesis
    proof (cases "suppressed0 a s d t g")
      case True
      with \<open>unpopulated (playlists (heap0 s d))\<close> have "?s' = s"
        by (simp add: media_group_body_unfold)
      with True \<open>unpopulated (playlists (heap0 s d))\<close> empty show ?thesis
        by (simp add: visited_def)
    next
      case False
      let ?s1 = "synthesize d s"
      have s': "?s' = forEach_playlists0 R G d t g l ?s1"
        using True False by (simp add: media_group_body_unfold)
      have ne: "nxt0 s \<noteq> d" using alloc by simp
      have gp1: "group_playlists0 ?s1 d = [nxt0 s]" by simp
      have reg: "(\<forall>y. y \<notin> set (group_playlists0 ?s1 d) \<longrightarrow> heap0 ?s' y = heap0 ?s1 y) \<and>
         main_playlists_key0 ?s' = writes (heap0 ?s') (group_playlists0 ?s1 d) (main_playlists_key0 ?s1)"
        unfolding s' by (rule forEach_playlists_registers) simp
      have hd: "heap0 ?s' d = (heap0 s d)\<lparr>playlists := Some [nxt0 s]\<rparr>"
        using reg ne by (simp add: synthesize_heap)
      then have gp': "group_playlists0 ?s' d = [nxt0 s]"
        by (simp add: group_playlists0_def)
      have "heap0 ?s' (group_playlists0 ?s1 d ! 0) =
         group_playlist_fields R G (main_uri0 ?s1) t g l 0 (heap0 ?s1 (group_playlists0 ?s1 d ! 0))"
        unfolding s' by (rule forEach_playlists_value) simp_all
      then have hc: "heap0 ?s' (nxt0 s) = group_playlist_fields R G (main_uri0 s) t g l 0 (heap0 s d)"
        using ne by (simp add: synthesize_heap)
      have "nxt0 ?s' = Suc (nxt0 s)" by (simp add: s')
      with hd hc have "visited R G a s ?s' (d, t, g, l)"
        using True False unfolding visited_def by (auto intro!: exI [of _ "nxt0 s"])
      with reg gp' \<open>nxt0 ?s' = Suc (nxt0 s)\<close> show ?thesis by simp
    qed
  next
    case False
    have s': "?s' = forEach_playlists0 R G d t g l s"
      using False by (simp add: media_group_body_unfold)
    have reg: "(\<forall>y. y \<notin> set (group_playlists0 s d) \<longrightarrow> heap0 ?s' y = heap0 s y) \<and>
         main_playlists_key0 ?s' = writes (heap0 ?s') (group_playlists0 s d) (main_playlists_key0 s)"
      unfolding s' using dist by (rule forEach_playlists_registers)
    with self have hd: "heap0 ?s' d = heap0 s d" by blast
    then have gp': "group_playlists0 ?s' d = group_playlists0 s d"
      by (rule group_playlists_heap_eq)
    have "\<forall>i < length (group_playlists0 s d).
                heap0 ?s' (group_playlists0 s d ! i) =
                  group_playlist_fields R G (main_uri0 s) t g l i (heap0 s (group_playlists0 s d ! i))"
      unfolding s' using dist by (auto intro: forEach_playlists_value)
    with hd False have "visited R G a s ?s' (d, t, g, l)"
      by (simp add: visited_def)
    with reg gp' show ?thesis by simp
  qed
  then show "visited R G a s ?s' (d, t, g, l)"
    and "main_playlists_key0 ?s' = writes (heap0 ?s') (group_playlists0 ?s' d) (main_playlists_key0 s)"
    and "\<forall>x \<in> set (group_playlists0 ?s' d). x \<in> set (group_playlists0 s d) \<or>
           (x = nxt0 s \<and> nxt0 s < nxt0 ?s')"
    by blast+
qed

lemma walk_heap_other:
  assumes "x < nxt0 s"
    and "\<forall>e \<in> set es. fst e < nxt0 s \<and> x \<noteq> fst e \<and> x \<notin> set (group_playlists0 s (fst e))"
  shows "heap0 (walk R G a es s) x = heap0 s x"
proof -
  define P where "P t \<longleftrightarrow> heap0 t x = heap0 s x \<and> heap_grows (nxt0 s) s t \<and> nxt0 s \<le> nxt0 t" for t
  have "P (walk R G a es s)"
    unfolding walk_def
  proof (rule fold_invariant [where P = P])
    show "P s" by (simp add: P_def)
  next
    fix e :: "ref \<times> string \<times> string \<times> string" and t :: state0
    assume e: "e \<in> set es" and Pt: "P t"
    obtain d ty g l where e_eq: "e = (d, ty, g, l)" by (cases e)
    let ?t' = "media_group_body0 R G a d ty g l t"
    have gr: "heap_grows (nxt0 s) s ?t'"
      using Pt media_group_body_grows [of "nxt0 s" t R G a d ty g l]
      by (auto simp: P_def intro: heap_grows_trans)
    have nx: "nxt0 s \<le> nxt0 ?t'"
      using media_group_body_same_doc [of t R G a d ty g l] Pt by (simp add: same_doc_def P_def)
    have d: "d < nxt0 s" "x \<noteq> d" "x \<notin> set (group_playlists0 s d)"
      using assms(2) e e_eq by auto
    have "x \<notin> set (group_playlists0 t d)"
      using Pt d assms(1) by (intro grows_group_playlists [of "nxt0 s" s t]) (simp_all add: P_def)
    then have "heap0 ?t' x = heap0 t x"
      using d(2) assms(1) Pt by (intro media_group_body_heap_other) (simp_all add: P_def)
    with gr nx Pt show "P ((case e of (d, t, g, l) \<Rightarrow> media_group_body0 R G a d t g l) t)"
      by (simp add: P_def e_eq)
  qed
  then show ?thesis by (simp add: P_def)
qed

lemma walk_ok_ConsD:
  assumes "walk_ok s ((d, t, g, l) # es)"
  shows "distinct (group_playlists0 s d)"
    and "d \<notin> set (group_playlists0 s d)"
    and "d < nxt0 s"
    and "\<forall>x \<in> set (group_playlists0 s d). x < nxt0 s"
    and "\<forall>e \<in> set es. fst e \<noteq> d \<and> fst e \<notin> set (group_playlists0 s d) \<and> fst e < nxt0 s \<and>
           d \<notin> set (group_playlists0 s (fst e)) \<and>
           set (group_playlists0 s d) \<inter> set (group_playlists0 s (fst e)) = {}"
    and "\<forall>r \<in> set (main_playlists0 s). r \<noteq> d \<and> r \<notin> set (group_playlists0 s d) \<and> r < nxt0 s"
proof -
  have 1: "d \<notin> fst ` set es"
    and 2: "\<forall>x\<in>set es. d \<notin> set (group_playlists0 s (fst x))"
    and 3: "set (group_playlists0 s d) \<inter> (\<Union>x\<in>set es. set (group_playlists0 s (fst x))) = {}"
    and 4: "fst ` set es \<inter> (set (group_playlists0 s d) \<union>
              (\<Union>x\<in>set es. set (group_playlists0 s (fst x)))) = {}"
    and 5: "d \<notin> set (main_playlists0 s)"
    and 6: "set (main_playlists0 s) \<inter> (fst ` set es \<union> (set (group_playlists0 s d) \<union>
              (\<Union>x\<in>set es. set (group_playlists0 s (fst x))))) = {}"
    and 7: "\<forall>x\<in>set (main_playlists0 s) \<union> (fst ` set es \<union> (set (group_playlists0 s d) \<union>
              (\<Union>x\<in>set es. set (group_playlists0 s (fst x))))). x < nxt0 s"
    using assms by (simp_all add: walk_ok_def)
  show "distinct (group_playlists0 s d)" and "d \<notin> set (group_playlists0 s d)" and "d < nxt0 s"
    using assms by (simp_all add: walk_ok_def)
  show "\<forall>x \<in> set (group_playlists0 s d). x < nxt0 s"
    using 7 by blast
  show "\<forall>e \<in> set es. fst e \<noteq> d \<and> fst e \<notin> set (group_playlists0 s d) \<and> fst e < nxt0 s \<and>
           d \<notin> set (group_playlists0 s (fst e)) \<and>
           set (group_playlists0 s d) \<inter> set (group_playlists0 s (fst e)) = {}"
  proof (intro ballI conjI)
    fix e assume e: "e \<in> set es"
    then have fe: "fst e \<in> fst ` set es" by simp
    show "fst e \<noteq> d" using 1 fe by auto
    show "fst e \<notin> set (group_playlists0 s d)" using 4 fe by blast
    show "fst e < nxt0 s" using 7 fe by blast
    show "d \<notin> set (group_playlists0 s (fst e))" using 2 e by blast
    show "set (group_playlists0 s d) \<inter> set (group_playlists0 s (fst e)) = {}" using 3 e by blast
  qed
  show "\<forall>r \<in> set (main_playlists0 s). r \<noteq> d \<and> r \<notin> set (group_playlists0 s d) \<and> r < nxt0 s"
    using 5 6 7 by blast
qed

lemma in_main_playlists_cong:
  assumes "main_playlists0 s' = main_playlists0 s"
    and "\<forall>r \<in> set (main_playlists0 s). heap0 s' r = heap0 s r"
  shows "in_main_playlists0 s' g = in_main_playlists0 s g"
  unfolding in_main_playlists0_def assms(1) using assms(2) by (intro bex_cong) simp_all

lemma suppressed_cong:
  assumes "heap0 s' d = heap0 s d" and "main_playlists0 s' = main_playlists0 s"
    and "\<forall>r \<in> set (main_playlists0 s). heap0 s' r = heap0 s r"
  shows "suppressed0 a s' d t g = suppressed0 a s d t g"
  unfolding suppressed0_def using assms(1) in_main_playlists_cong [OF assms(2,3)] by simp

lemma media_group_body_main_playlists [simp]:
  "main_playlists0 (media_group_body0 R G a d t g l s) = main_playlists0 s"
  "main_uri0 (media_group_body0 R G a d t g l s) = main_uri0 s"
  using media_group_body_same_doc [of s R G a d t g l] by (simp_all add: same_doc_def)

lemma media_group_body_nxt: "nxt0 s \<le> nxt0 (media_group_body0 R G a d t g l s)"
  using media_group_body_same_doc [of s R G a d t g l] by (simp add: same_doc_def)

lemma walk_fields [simp]:
  "main_playlists0 (walk R G a es s) = main_playlists0 s"
  "main_uri0 (walk R G a es s) = main_uri0 s"
  "mediaGroups0 (walk R G a es s) = mediaGroups0 s"
  using walk_same_doc [of s R G a es] by (simp_all add: same_doc_def)

lemma walk_nxt: "nxt0 s \<le> nxt0 (walk R G a es s)"
  using walk_same_doc [of s R G a es] by (simp add: same_doc_def)

lemma distinct_drop: "distinct (xs @ (d # ys) @ (zs @ ws)) \<Longrightarrow> distinct (xs @ ys @ ws)"
  by auto

lemma walk_ok_step:
  assumes "walk_ok s ((d, t, g, l) # es)"
  shows "walk_ok (media_group_body0 R G a d t g l s) es"
    and "\<forall>e \<in> set es. heap0 (media_group_body0 R G a d t g l s) (fst e) = heap0 s (fst e)"
    and "\<forall>e \<in> set es. \<forall>x \<in> set (group_playlists0 s (fst e)).
           heap0 (media_group_body0 R G a d t g l s) x = heap0 s x"
    and "\<forall>r \<in> set (main_playlists0 s). heap0 (media_group_body0 R G a d t g l s) r = heap0 s r"
proof -
  let ?s1 = "media_group_body0 R G a d t g l s"
  note D = walk_ok_ConsD [OF assms]
  show h: "\<forall>e \<in> set es. heap0 ?s1 (fst e) = heap0 s (fst e)"
    using D(5) by (auto intro!: media_group_body_heap_other)
  have sub_lt: "\<forall>e \<in> set es. \<forall>x \<in> set (group_playlists0 s (fst e)). x < nxt0 s"
    using assms unfolding walk_ok_def by simp blast
  show "\<forall>e \<in> set es. \<forall>x \<in> set (group_playlists0 s (fst e)). heap0 ?s1 x = heap0 s x"
  proof (intro ballI)
    fix e x assume e: "e \<in> set es" and x: "x \<in> set (group_playlists0 s (fst e))"
    have "x \<noteq> d" using D(5) e x by blast
    moreover have "x \<notin> set (group_playlists0 s d)" using D(5) e x by blast
    moreover have "x < nxt0 s" using sub_lt e x by blast
    ultimately show "heap0 ?s1 x = heap0 s x" by (rule media_group_body_heap_other)
  qed
  show "\<forall>r \<in> set (main_playlists0 s). heap0 ?s1 r = heap0 s r"
    using D(6) by (auto intro!: media_group_body_heap_other)
  have gp: "map (group_playlists0 ?s1) (map fst es) = map (group_playlists0 s) (map fst es)"
    using h by (auto intro: group_playlists_heap_eq)
  have "distinct (main_playlists0 s @ map fst ((d, t, g, l) # es) @
          concat (map (group_playlists0 s) (map fst ((d, t, g, l) # es))))"
    using assms unfolding walk_ok_def by blast
  then have "distinct (main_playlists0 s @ (d # map fst es) @
          (group_playlists0 s d @ concat (map (group_playlists0 s) (map fst es))))"
    by (simp only: list.map fst_conv concat.simps)
  then have dist: "distinct (main_playlists0 s @ map fst es @
          concat (map (group_playlists0 s) (map fst es)))"
    by (rule distinct_drop)
  have "\<forall>x \<in> set (main_playlists0 s @ map fst ((d, t, g, l) # es) @
          concat (map (group_playlists0 s) (map fst ((d, t, g, l) # es)))). x < nxt0 s"
    using assms unfolding walk_ok_def by blast
  then have "\<forall>x \<in> set (main_playlists0 s @ map fst es @
        concat (map (group_playlists0 s) (map fst es))). x < nxt0 s"
    by simp blast
  then have "\<forall>x \<in> set (main_playlists0 s @ map fst es @
        concat (map (group_playlists0 s) (map fst es))). x < nxt0 ?s1"
    using media_group_body_nxt [of s R G a d t g l] by (meson less_le_trans)
  with dist show "walk_ok ?s1 es"
    unfolding walk_ok_def gp by simp
qed

lemma visited_transfer:
  assumes v: "visited R G a s1 s' (d, t, g, l)"
    and h: "heap0 s1 d = heap0 s d"
    and sub: "\<forall>x \<in> set (group_playlists0 s d). heap0 s1 x = heap0 s x"
    and mu: "main_uri0 s1 = main_uri0 s" and nx: "nxt0 s \<le> nxt0 s1"
    and su: "suppressed0 a s1 d t g = suppressed0 a s d t g"
  shows "visited R G a s s' (d, t, g, l)"
proof -
  have gp: "group_playlists0 s1 d = group_playlists0 s d"
    using h by (rule group_playlists_heap_eq)
  show ?thesis
  proof (cases "unpopulated (playlists (heap0 s d))")
    case True
    show ?thesis
    proof (cases "suppressed0 a s d t g")
      case True
      with v h su \<open>unpopulated (playlists (heap0 s d))\<close> show ?thesis
        by (simp add: visited_def)
    next
      case False
      with v h su True obtain c where c: "nxt0 s1 \<le> c" "c < nxt0 s'"
        "heap0 s' d = (heap0 s d)\<lparr>playlists := Some [c]\<rparr>"
        "heap0 s' c = group_playlist_fields R G (main_uri0 s) t g l 0 (heap0 s d)"
        by (auto simp: visited_def mu)
      from c(1) nx have "nxt0 s \<le> c" by simp
      with c(2-4) have "\<exists>c. nxt0 s \<le> c \<and> c < nxt0 s' \<and>
                   heap0 s' d = (heap0 s d)\<lparr>playlists := Some [c]\<rparr> \<and>
                   heap0 s' c = group_playlist_fields R G (main_uri0 s) t g l 0 (heap0 s d)"
        by blast
      with True False show ?thesis by (simp add: visited_def)
    qed
  next
    case False
    with v h have "heap0 s' d = heap0 s d \<and>
             (\<forall>i < length (group_playlists0 s d).
                heap0 s' (group_playlists0 s d ! i) =
                  group_playlist_fields R G (main_uri0 s) t g l i (heap0 s1 (group_playlists0 s d ! i)))"
      by (simp add: visited_def gp mu)
    moreover have "heap0 s1 (group_playlists0 s d ! i) = heap0 s (group_playlists0 s d ! i)"
      if "i < length (group_playlists0 s d)" for i
      using sub that by simp
    ultimately show ?thesis using False by (simp add: visited_def)
  qed
qed

lemma walk_ok_subs_alloc:
  assumes "walk_ok s es" and "e \<in> set es" and "x \<in> set (group_playlists0 s (fst e))"
  shows "x < nxt0 s"
proof -
  have "x \<in> set (concat (map (group_playlists0 s) (map fst es)))"
    using assms(2,3) by auto
  with assms(1) show ?thesis unfolding walk_ok_def by simp
qed

lemma visited_frame:
  assumes v: "visited R G a s s1 (d, t, g, l)"
    and hd: "heap0 s' d = heap0 s1 d"
    and hs: "\<forall>x \<in> set (group_playlists0 s1 d). heap0 s' x = heap0 s1 x"
    and nx: "nxt0 s1 \<le> nxt0 s'"
  shows "visited R G a s s' (d, t, g, l)"
proof (cases "unpopulated (playlists (heap0 s d))")
  case True
  show ?thesis
  proof (cases "suppressed0 a s d t g")
    case True
    with v hd \<open>unpopulated (playlists (heap0 s d))\<close> show ?thesis
      by (simp add: visited_def)
  next
    case False
    with v True obtain c where c: "nxt0 s \<le> c" "c < nxt0 s1"
        "heap0 s1 d = (heap0 s d)\<lparr>playlists := Some [c]\<rparr>"
        "heap0 s1 c = group_playlist_fields R G (main_uri0 s) t g l 0 (heap0 s d)"
      by (auto simp: visited_def)
    from c(3) have "group_playlists0 s1 d = [c]" by (simp add: group_playlists0_def)
    with hs have "heap0 s' c = heap0 s1 c" by simp
    with c hd nx have "\<exists>c. nxt0 s \<le> c \<and> c < nxt0 s' \<and>
                   heap0 s' d = (heap0 s d)\<lparr>playlists := Some [c]\<rparr> \<and>
                   heap0 s' c = group_playlist_fields R G (main_uri0 s) t g l 0 (heap0 s d)"
      by (intro exI [of _ c]) simp
    with True False show ?thesis by (simp add: visited_def)
  qed
next
  case False
  with v have 1: "heap0 s1 d = heap0 s d" and 2: "\<forall>i < length (group_playlists0 s d).
                heap0 s1 (group_playlists0 s d ! i) =
                  group_playlist_fields R G (main_uri0 s) t g l i (heap0 s (group_playlists0 s d ! i))"
    by (simp_all add: visited_def)
  have gp: "group_playlists0 s1 d = group_playlists0 s d"
    using 1 by (rule group_playlists_heap_eq)
  have "heap0 s' (group_playlists0 s d ! i) = heap0 s1 (group_playlists0 s d ! i)"
    if "i < length (group_playlists0 s d)" for i
    using hs that unfolding gp by simp
  with 1 2 hd False show ?thesis by (simp add: visited_def)
qed

lemma walk_char:
  assumes "walk_ok s es"
  shows "(\<forall>e \<in> set es. visited R G a s (walk R G a es s) e) \<and>
         main_playlists_key0 (walk R G a es s) =
           writes (heap0 (walk R G a es s))
             (concat (map (group_playlists0 (walk R G a es s)) (map fst es)))
             (main_playlists_key0 s) \<and>
         (\<forall>x \<in> set (concat (map (group_playlists0 (walk R G a es s)) (map fst es))).
            x < nxt0 (walk R G a es s) \<and>
            (x \<in> set (concat (map (group_playlists0 s) (map fst es))) \<or> nxt0 s \<le> x))"
  using assms
proof (induction es arbitrary: s)
  case Nil
  then show ?case by simp
next
  case (Cons e0 es)
  obtain d t g l where e0: "e0 = (d, t, g, l)" by (cases e0)
  let ?s1 = "media_group_body0 R G a d t g l s"
  let ?s' = "walk R G a es ?s1"
  have ok: "walk_ok s ((d, t, g, l) # es)" using Cons.prems by (simp add: e0)
  note D = walk_ok_ConsD [OF ok]
  note S = walk_ok_step [OF ok, of R G a]
  note V = visit [OF D(1) D(2) D(3), of R G a t g l]
  note IH = Cons.IH [OF S(1)]
  have n1: "nxt0 s \<le> nxt0 ?s1" by (rule media_group_body_nxt)
  have n2: "nxt0 ?s1 \<le> nxt0 ?s'" by (rule walk_nxt)
  have gp_es: "group_playlists0 ?s1 (fst e) = group_playlists0 s (fst e)" if "e \<in> set es" for e
    using S(2) that by (intro group_playlists_heap_eq) simp
  have frame: "heap0 ?s' x = heap0 ?s1 x" if "x = d \<or> x \<in> set (group_playlists0 ?s1 d)" for x
  proof (rule walk_heap_other)
    show "x < nxt0 ?s1"
      using that D(3,4) V(3) n1 by (metis less_le_trans)
    show "\<forall>e\<in>set es. fst e < nxt0 ?s1 \<and> x \<noteq> fst e \<and> x \<notin> set (group_playlists0 ?s1 (fst e))"
    proof (intro ballI conjI)
      fix e assume e: "e \<in> set es"
      have De: "fst e \<noteq> d" "fst e \<notin> set (group_playlists0 s d)" "fst e < nxt0 s"
        "d \<notin> set (group_playlists0 s (fst e))"
        "set (group_playlists0 s d) \<inter> set (group_playlists0 s (fst e)) = {}"
        using D(5) e by blast+
      have sub_lt: "\<forall>y \<in> set (group_playlists0 s (fst e)). y < nxt0 s"
        using walk_ok_subs_alloc [OF ok, of e] e by simp
      show "fst e < nxt0 ?s1" using De(3) n1 by simp
      from that V(3) consider "x = d" | "x \<in> set (group_playlists0 s d)" | "x = nxt0 s" by blast
      then show "x \<noteq> fst e" using De by cases auto
      from that V(3) consider "x = d" | "x \<in> set (group_playlists0 s d)" | "x = nxt0 s" by blast
      then show "x \<notin> set (group_playlists0 ?s1 (fst e))"
        unfolding gp_es [OF e] using De sub_lt by cases auto
    qed
  qed
  have hd: "heap0 ?s' d = heap0 ?s1 d" using frame by simp
  have gp_d: "group_playlists0 ?s' d = group_playlists0 ?s1 d"
    using hd by (rule group_playlists_heap_eq)
  have head: "visited R G a s ?s' (d, t, g, l)"
    using V(1) hd _ n2 by (rule visited_frame) (simp add: frame)
  have tail: "visited R G a s ?s' e" if e: "e \<in> set es" for e
  proof -
    obtain d' t' g' l' where e_eq: "e = (d', t', g', l')" by (cases e)
    have v1: "visited R G a ?s1 ?s' (d', t', g', l')" using IH e e_eq by blast
    have h1: "heap0 ?s1 d' = heap0 s d'" using S(2) e e_eq by auto
    have h2: "\<forall>x \<in> set (group_playlists0 s d'). heap0 ?s1 x = heap0 s x"
      using S(3) e e_eq by auto
    have su: "suppressed0 a ?s1 d' t' g' = suppressed0 a s d' t' g'"
      using h1 _ S(4) by (rule suppressed_cong) simp
    show ?thesis
      unfolding e_eq using v1 h1 h2 _ n1 su by (rule visited_transfer) simp
  qed
  have key1: "main_playlists_key0 ?s1 =
      writes (heap0 ?s') (group_playlists0 ?s' d) (main_playlists_key0 s)"
    unfolding gp_d V(2) by (rule writes_cong) (simp add: frame)
  have key: "main_playlists_key0 ?s' =
      writes (heap0 ?s') (concat (map (group_playlists0 ?s') (map fst ((d, t, g, l) # es))))
        (main_playlists_key0 s)"
    using IH key1 by (simp add: writes_append)
  have gp_map: "map (group_playlists0 ?s1) (map fst es) = map (group_playlists0 s) (map fst es)"
    using gp_es by simp
  have third: "x < nxt0 ?s' \<and>
      (x \<in> set (concat (map (group_playlists0 s) (map fst ((d, t, g, l) # es)))) \<or> nxt0 s \<le> x)"
    if x: "x \<in> set (concat (map (group_playlists0 ?s') (map fst ((d, t, g, l) # es))))" for x
  proof -
    from x consider "x \<in> set (group_playlists0 ?s1 d)"
      | "x \<in> set (concat (map (group_playlists0 ?s') (map fst es)))"
      unfolding gp_d [symmetric] by auto
    then show ?thesis
    proof cases
      case 1
      with V(3) D(4) n1 n2 show ?thesis by (simp, metis less_le_trans order_refl)
    next
      case 2
      with IH have "x < nxt0 ?s' \<and>
        (x \<in> set (concat (map (group_playlists0 ?s1) (map fst es))) \<or> nxt0 ?s1 \<le> x)"
        by blast
      then show ?thesis unfolding gp_map using n1 by auto
    qed
  qed
  have all: "\<forall>e \<in> set ((d, t, g, l) # es). visited R G a s ?s' e"
    using head tail by simp
  show ?case
    unfolding e0 walk_simps using all key third by blast
qed

lemma registers_fold_inv:
  assumes reg: "\<And>a t. a \<in> set as \<Longrightarrow> I t \<Longrightarrow> registers (obj a) t (f a t) \<and> I (f a t)"
    and val: "\<And>a t. a \<in> set as \<Longrightarrow> I t \<Longrightarrow> heap0 (f a t) (obj a) = upd a (heap0 t (obj a))"
    and init: "I s"
    and dist: "distinct (map obj as)"
  shows "(\<forall>y. y \<notin> obj ` set as \<longrightarrow> heap0 (fold f as s) y = heap0 s y) \<and>
         main_playlists_key0 (fold f as s) =
           writes (heap0 (fold f as s)) (map obj as) (main_playlists_key0 s) \<and>
         (\<forall>a \<in> set as. heap0 (fold f as s) (obj a) = upd a (heap0 s (obj a)))"
  using assms
proof (induction as arbitrary: s)
  case Nil
  then show ?case by simp
next
  case (Cons a as)
  let ?s1 = "f a s"
  let ?s' = "fold f as ?s1"
  have r1: "registers (obj a) s ?s1" and I1: "I ?s1"
    using Cons.prems(1) [of a s] Cons.prems(3) by simp_all
  have v1: "heap0 ?s1 (obj a) = upd a (heap0 s (obj a))"
    using Cons.prems(2) [of a s] Cons.prems(3) by simp
  have IH: "(\<forall>y. y \<notin> obj ` set as \<longrightarrow> heap0 ?s' y = heap0 ?s1 y) \<and>
         main_playlists_key0 ?s' = writes (heap0 ?s') (map obj as) (main_playlists_key0 ?s1) \<and>
         (\<forall>b \<in> set as. heap0 ?s' (obj b) = upd b (heap0 ?s1 (obj b)))"
    using Cons.prems(1,2,4) I1 by (intro Cons.IH) auto
  have notin: "obj a \<notin> obj ` set as" using Cons.prems(4) by auto
  with IH have same: "heap0 ?s' (obj a) = heap0 ?s1 (obj a)" by blast
  have frame: "\<forall>y. y \<notin> obj ` set (a # as) \<longrightarrow> heap0 ?s' y = heap0 s y"
    using IH r1 by (auto simp: registers_def)
  have k1: "main_playlists_key0 ?s1 = write_keys (heap0 ?s' (obj a)) (obj a) (main_playlists_key0 s)"
    using r1 same by (simp add: registers_def)
  have vals: "\<forall>b \<in> set (a # as). heap0 ?s' (obj b) = upd b (heap0 s (obj b))"
  proof
    fix b assume b: "b \<in> set (a # as)"
    show "heap0 ?s' (obj b) = upd b (heap0 s (obj b))"
    proof (cases "b \<in> set as")
      case True
      with notin have "obj b \<noteq> obj a" by (metis imageI)
      with r1 have "heap0 ?s1 (obj b) = heap0 s (obj b)" by (simp add: registers_def)
      with IH True show ?thesis by simp
    next
      case False
      with b have "b = a" by simp
      with same v1 show ?thesis by simp
    qed
  qed
  from IH frame k1 vals show ?case by simp
qed

lemma setupMediaPlaylists_body_registers:
  "registers (main_playlists0 s ! i) s (setupMediaPlaylists_body0 R i s)"
  by (simp add: registers_def setupMediaPlaylists_body_heap setupMediaPlaylists_body_key
      write_keys_def Let_def)

lemma map_nth_rev: "map ((!) xs) (rev [0..<length xs]) = rev xs"
  by (simp add: rev_map [symmetric] map_nth)

lemma setupMediaPlaylists_char:
  assumes "distinct (main_playlists0 s)"
  shows "(\<forall>y. y \<notin> set (main_playlists0 s) \<longrightarrow> heap0 (setupMediaPlaylists0 R s) y = heap0 s y) \<and>
         main_playlists_key0 (setupMediaPlaylists0 R s) =
           writes (heap0 (setupMediaPlaylists0 R s)) (rev (main_playlists0 s)) (main_playlists_key0 s) \<and>
         (\<forall>i < length (main_playlists0 s).
            heap0 (setupMediaPlaylists0 R s) (main_playlists0 s ! i) =
              top_playlist_fields R (main_uri0 s) i (heap0 s (main_playlists0 s ! i)))"
proof -
  define L where "L = main_playlists0 s"
  define I where "I t \<longleftrightarrow> main_playlists0 t = L \<and> main_uri0 t = main_uri0 s" for t :: state0
  have "(\<forall>y. y \<notin> ((!) L) ` set (rev [0..<length L]) \<longrightarrow>
            heap0 (fold (setupMediaPlaylists_body0 R) (rev [0..<length L]) s) y = heap0 s y) \<and>
         main_playlists_key0 (fold (setupMediaPlaylists_body0 R) (rev [0..<length L]) s) =
           writes (heap0 (fold (setupMediaPlaylists_body0 R) (rev [0..<length L]) s))
             (map ((!) L) (rev [0..<length L])) (main_playlists_key0 s) \<and>
         (\<forall>i \<in> set (rev [0..<length L]).
            heap0 (fold (setupMediaPlaylists_body0 R) (rev [0..<length L]) s) (L ! i) =
              top_playlist_fields R (main_uri0 s) i (heap0 s (L ! i)))"
  proof (rule registers_fold_inv [where I = I])
    show "I s" by (simp add: I_def L_def)
    show "distinct (map ((!) L) (rev [0..<length L]))"
      using assms by (simp add: map_nth_rev L_def)
  next
    fix i and t :: state0
    assume "i \<in> set (rev [0..<length L])" and "I t"
    then show "registers (L ! i) t (setupMediaPlaylists_body0 R i t) \<and> I (setupMediaPlaylists_body0 R i t)"
      using setupMediaPlaylists_body_registers [of t i R] by (simp add: I_def)
  next
    fix i and t :: state0
    assume "i \<in> set (rev [0..<length L])" and "I t"
    then show "heap0 (setupMediaPlaylists_body0 R i t) (L ! i) =
        top_playlist_fields R (main_uri0 s) i (heap0 t (L ! i))"
      by (simp add: setupMediaPlaylists_body_heap I_def)
  qed
  moreover have "((!) L) ` set (rev [0..<length L]) = set L"
    by (metis list.set_map map_nth_rev set_rev)
  ultimately show ?thesis
    unfolding setupMediaPlaylists0_def L_def [symmetric] by (simp add: map_nth_rev)
qed

lemma resolveMediaGroupUris_fold:
  "resolveMediaGroupUris0 R s = fold (resolve_entry R) (media_group_entries0 s) s"
proof -
  have "(\<lambda>(d, mediaType, groupKey, labelKey) t.
       if truthy (uri (heap0 t d))
       then t\<lparr>heap0 := (heap0 t)(d := (heap0 t d)\<lparr>resolvedUri := R (main_uri0 t) (uri (heap0 t d))\<rparr>)\<rparr>
       else t) = resolve_entry R"
    by (intro ext) (simp add: resolve_entry_def split: prod.splits)
  then show ?thesis
    by (simp add: resolveMediaGroupUris0_def forEachMediaGroup0_def)
qed

lemma fold_resolve_heap:
  "heap0 (fold (resolve_entry R) es s) x =
   (if x \<in> fst ` set es \<and> truthy (uri (heap0 s x))
    then (heap0 s x)\<lparr>resolvedUri := R (main_uri0 s) (uri (heap0 s x))\<rparr> else heap0 s x)"
proof (induction es arbitrary: s)
  case Nil
  then show ?case by simp
next
  case (Cons e es)
  let ?s1 = "resolve_entry R e s"
  have mu: "main_uri0 ?s1 = main_uri0 s" by (simp add: resolve_entry_def)
  have u: "uri (heap0 ?s1 x) = uri (heap0 s x)" by (simp add: resolve_entry_def)
  have h: "heap0 ?s1 x =
      (if x = fst e \<and> truthy (uri (heap0 s x))
       then (heap0 s x)\<lparr>resolvedUri := R (main_uri0 s) (uri (heap0 s x))\<rparr> else heap0 s x)"
    by (auto simp: resolve_entry_def)
  have "heap0 (fold (resolve_entry R) (e # es) s) x =
     (if x \<in> fst ` set es \<and> truthy (uri (heap0 ?s1 x))
      then (heap0 ?s1 x)\<lparr>resolvedUri := R (main_uri0 ?s1) (uri (heap0 ?s1 x))\<rparr> else heap0 ?s1 x)"
    by (simp add: Cons.IH)
  also have "\<dots> = (if x \<in> fst ` set (e # es) \<and> truthy (uri (heap0 s x))
    then (heap0 s x)\<lparr>resolvedUri := R (main_uri0 s) (uri (heap0 s x))\<rparr> else heap0 s x)"
    unfolding mu u h by auto
  finally show ?case .
qed

lemma resolveMediaGroupUris_heap_char:
  "heap0 (resolveMediaGroupUris0 R s) x =
   (if x \<in> fst ` set (media_group_entries0 s) \<and> truthy (uri (heap0 s x))
    then (heap0 s x)\<lparr>resolvedUri := R (main_uri0 s) (uri (heap0 s x))\<rparr> else heap0 s x)"
  unfolding resolveMediaGroupUris_fold by (rule fold_resolve_heap)

lemma addPropertiesToMain_stages:
  "addPropertiesToMain0 R A G u s = resolveMediaGroupUris0 R (stage3 R A G u s)"
  by (simp add: addPropertiesToMain_unfold stage1_def stage2_def stage3_def Let_def)

lemma fold_pointwise:
  assumes step: "\<And>a t. a \<in> set as \<Longrightarrow> I t \<Longrightarrow>
      heap0 (f a t) = (heap0 t)(obj a := upd a (heap0 t (obj a))) \<and> I (f a t)"
    and init: "I s"
    and dist: "distinct (map obj as)"
  shows "(\<forall>y. y \<notin> obj ` set as \<longrightarrow> heap0 (fold f as s) y = heap0 s y) \<and>
         (\<forall>a \<in> set as. heap0 (fold f as s) (obj a) = upd a (heap0 s (obj a)))"
  using assms
proof (induction as arbitrary: s)
  case Nil
  then show ?case by simp
next
  case (Cons a as)
  let ?s1 = "f a s"
  let ?s' = "fold f as ?s1"
  have "a \<in> set (a # as)" by simp
  from Cons.prems(1) [OF this Cons.prems(2)]
  have h1: "heap0 ?s1 = (heap0 s)(obj a := upd a (heap0 s (obj a)))" and I1: "I ?s1"
    by blast+
  have IH: "(\<forall>y. y \<notin> obj ` set as \<longrightarrow> heap0 ?s' y = heap0 ?s1 y) \<and>
         (\<forall>b \<in> set as. heap0 ?s' (obj b) = upd b (heap0 ?s1 (obj b)))"
    using Cons.prems(1,3) I1 by (intro Cons.IH) auto
  have notin: "obj a \<notin> obj ` set as" using Cons.prems(3) by auto
  with IH have same: "heap0 ?s' (obj a) = heap0 ?s1 (obj a)" by blast
  have frame: "\<forall>y. y \<notin> obj ` set (a # as) \<longrightarrow> heap0 ?s' y = heap0 s y"
    using IH h1 by auto
  have vals: "\<forall>b \<in> set (a # as). heap0 ?s' (obj b) = upd b (heap0 s (obj b))"
  proof
    fix b assume b: "b \<in> set (a # as)"
    show "heap0 ?s' (obj b) = upd b (heap0 s (obj b))"
    proof (cases "b \<in> set as")
      case True
      with notin have "obj b \<noteq> obj a" by (metis imageI)
      with h1 have "heap0 ?s1 (obj b) = heap0 s (obj b)" by simp
      with IH True show ?thesis by simp
    next
      case False
      with b have "b = a" by simp
      with same h1 show ?thesis by simp
    qed
  qed
  from frame vals show ?case by simp
qed

lemma placeholder_uris_value:
  assumes "distinct (main_playlists0 s)" and "i < length (main_playlists0 s)"
  shows "heap0 (placeholder_uris0 s) (main_playlists0 s ! i) =
         with_placeholder i (heap0 s (main_playlists0 s ! i))"
proof -
  define L where "L = main_playlists0 s"
  define I where "I t \<longleftrightarrow> main_playlists0 t = L" for t :: state0
  have "(\<forall>y. y \<notin> ((!) L) ` set [0..<length L] \<longrightarrow>
            heap0 (fold placeholder_uri_body0 [0..<length L] s) y = heap0 s y) \<and>
        (\<forall>j \<in> set [0..<length L].
            heap0 (fold placeholder_uri_body0 [0..<length L] s) (L ! j) =
              with_placeholder j (heap0 s (L ! j)))"
  proof (rule fold_pointwise [where I = I])
    show "I s" by (simp add: I_def L_def)
    show "distinct (map ((!) L) [0..<length L])"
      using assms(1) by (simp add: map_nth L_def)
  next
    fix j and t :: state0
    assume "j \<in> set [0..<length L]" and "I t"
    then show "heap0 (placeholder_uri_body0 j t) =
        (heap0 t)(L ! j := with_placeholder j (heap0 t (L ! j))) \<and> I (placeholder_uri_body0 j t)"
      by (auto simp: placeholder_uri_body0_def with_placeholder_def I_def Let_def)
  qed
  with assms(2) show ?thesis
    unfolding placeholder_uris0_def L_def [symmetric] by simp
qed

lemma stage1_fields [simp]:
  "main_playlists0 (stage1 u s) = main_playlists0 s"
  "media_group_entries0 (stage1 u s) = media_group_entries0 s"
  "nxt0 (stage1 u s) = nxt0 s"
  "main_playlists_key0 (stage1 u s) = main_playlists_key0 s"
  "group_playlists0 (stage1 u s) y = group_playlists0 s y"
  "in_main_playlists0 (stage1 u s) g = in_main_playlists0 s g"
  "main_uri0 (stage1 u s) = Some u"
proof -
  show "main_uri0 (stage1 u s) = Some u"
    using placeholder_uris_same_doc [of "s\<lparr>main_uri0 := Some u\<rparr>"]
    by (simp add: stage1_def same_doc_def)
qed (simp_all add: stage1_def)

lemma stage1_heap_other:
  "x \<notin> set (main_playlists0 s) \<Longrightarrow> heap0 (stage1 u s) x = heap0 s x"
  unfolding stage1_def by (subst placeholder_uris_heap_other) simp_all

lemma stage1_heap_value:
  "distinct (main_playlists0 s) \<Longrightarrow> i < length (main_playlists0 s) \<Longrightarrow>
   heap0 (stage1 u s) (main_playlists0 s ! i) = with_placeholder i (heap0 s (main_playlists0 s ! i))"
  unfolding stage1_def
  using placeholder_uris_value [of "s\<lparr>main_uri0 := Some u\<rparr>" i] by simp

lemma stage1_walk_ok: "tree_shaped0 s \<Longrightarrow> walk_ok (stage1 u s) (media_group_entries0 s)"
proof -
  have "group_playlists0 (stage1 u s) = group_playlists0 s"
    by (intro ext) simp
  then show "tree_shaped0 s \<Longrightarrow> walk_ok (stage1 u s) (media_group_entries0 s)"
    unfolding tree_shaped_walk_ok walk_ok_def by simp
qed

lemma tree_shapedD:
  assumes "tree_shaped0 s"
  shows "distinct (main_playlists0 s)"
    and "set (main_playlists0 s) \<inter> fst ` set (media_group_entries0 s) = {}"
    and "set (main_playlists0 s) \<inter> set (concat (map (group_playlists0 s) (map fst (media_group_entries0 s)))) = {}"
    and "fst ` set (media_group_entries0 s) \<inter> set (concat (map (group_playlists0 s) (map fst (media_group_entries0 s)))) = {}"
    and "\<forall>x \<in> set (main_playlists0 s). x < nxt0 s"
    and "\<forall>x \<in> fst ` set (media_group_entries0 s). x < nxt0 s"
    and "\<forall>x \<in> set (concat (map (group_playlists0 s) (map fst (media_group_entries0 s)))). x < nxt0 s"
proof -
  have d: "distinct (main_playlists0 s @ map fst (media_group_entries0 s) @
      concat (map (group_playlists0 s) (map fst (media_group_entries0 s))))"
    and a: "\<forall>x \<in> set (main_playlists0 s @ map fst (media_group_entries0 s) @
      concat (map (group_playlists0 s) (map fst (media_group_entries0 s)))). x < nxt0 s"
    using assms unfolding tree_shaped_walk_ok walk_ok_def by blast+
  from d show "distinct (main_playlists0 s)"
    and "set (main_playlists0 s) \<inter> fst ` set (media_group_entries0 s) = {}"
    and "set (main_playlists0 s) \<inter> set (concat (map (group_playlists0 s) (map fst (media_group_entries0 s)))) = {}"
    and "fst ` set (media_group_entries0 s) \<inter> set (concat (map (group_playlists0 s) (map fst (media_group_entries0 s)))) = {}"
    unfolding distinct_append set_append set_map by blast+
  from a show "\<forall>x \<in> set (main_playlists0 s). x < nxt0 s"
    and "\<forall>x \<in> fst ` set (media_group_entries0 s). x < nxt0 s"
    and "\<forall>x \<in> set (concat (map (group_playlists0 s) (map fst (media_group_entries0 s)))). x < nxt0 s"
    unfolding set_append set_map by blast+
qed

lemma stage2_fields [simp]:
  "main_playlists0 (stage2 R A G u s) = main_playlists0 s"
  "media_group_entries0 (stage2 R A G u s) = media_group_entries0 s"
  "main_uri0 (stage2 R A G u s) = Some u"
proof -
  have sd: "same_doc (stage1 u s) (stage2 R A G u s)"
    unfolding stage2_def by (rule walk_same_doc)
  show "main_playlists0 (stage2 R A G u s) = main_playlists0 s"
    and "main_uri0 (stage2 R A G u s) = Some u"
    using sd by (simp_all add: same_doc_def)
  show "media_group_entries0 (stage2 R A G u s) = media_group_entries0 s"
    using same_doc_entries [OF sd] by simp
qed

lemma stage2_char:
  assumes "tree_shaped0 s"
  shows "\<forall>e \<in> set (media_group_entries0 s).
           visited R G (A (stage1 u s)) (stage1 u s) (stage2 R A G u s) e"
    and "main_playlists_key0 (stage2 R A G u s) =
           writes (heap0 (stage2 R A G u s))
             (concat (map (group_playlists0 (stage2 R A G u s)) (map fst (media_group_entries0 s))))
             (main_playlists_key0 s)"
    and "\<forall>x \<in> set (concat (map (group_playlists0 (stage2 R A G u s))
             (map fst (media_group_entries0 s)))).
           x < nxt0 (stage2 R A G u s) \<and>
           (x \<in> set (concat (map (group_playlists0 s) (map fst (media_group_entries0 s)))) \<or> nxt0 s \<le> x)"
    and "\<forall>r \<in> set (main_playlists0 s). heap0 (stage2 R A G u s) r = heap0 (stage1 u s) r"
proof -
  note ok = stage1_walk_ok [OF assms, of u]
  note T = tree_shapedD [OF assms]
  have gp: "group_playlists0 (stage1 u s) = group_playlists0 s"
    by (intro ext) simp
  from walk_char [OF ok, of R G "A (stage1 u s)"]
  show "\<forall>e \<in> set (media_group_entries0 s).
           visited R G (A (stage1 u s)) (stage1 u s) (stage2 R A G u s) e"
    and "main_playlists_key0 (stage2 R A G u s) =
           writes (heap0 (stage2 R A G u s))
             (concat (map (group_playlists0 (stage2 R A G u s)) (map fst (media_group_entries0 s))))
             (main_playlists_key0 s)"
    and "\<forall>x \<in> set (concat (map (group_playlists0 (stage2 R A G u s))
             (map fst (media_group_entries0 s)))).
           x < nxt0 (stage2 R A G u s) \<and>
           (x \<in> set (concat (map (group_playlists0 s) (map fst (media_group_entries0 s)))) \<or> nxt0 s \<le> x)"
    unfolding stage2_def stage1_fields gp by blast+
  show "\<forall>r \<in> set (main_playlists0 s). heap0 (stage2 R A G u s) r = heap0 (stage1 u s) r"
  proof
    fix r assume r: "r \<in> set (main_playlists0 s)"
    show "heap0 (stage2 R A G u s) r = heap0 (stage1 u s) r"
      unfolding stage2_def stage1_fields
    proof (rule walk_heap_other)
      show "r < nxt0 (stage1 u s)" using T(5) r by simp
      show "\<forall>e\<in>set (media_group_entries0 s). fst e < nxt0 (stage1 u s) \<and> r \<noteq> fst e \<and>
          r \<notin> set (group_playlists0 (stage1 u s) (fst e))"
      proof (intro ballI conjI)
        fix e assume e: "e \<in> set (media_group_entries0 s)"
        then have fe: "fst e \<in> fst ` set (media_group_entries0 s)" by simp
        show "fst e < nxt0 (stage1 u s)" using T(6) e by simp
        show "r \<noteq> fst e" using T(2) r fe by blast
        have "set (group_playlists0 s (fst e)) \<subseteq>
            set (concat (map (group_playlists0 s) (map fst (media_group_entries0 s))))"
          using e by auto
        then show "r \<notin> set (group_playlists0 (stage1 u s) (fst e))"
          using T(3) r by auto
      qed
    qed
  qed
qed

lemma stage3_fields [simp]:
  "main_playlists0 (stage3 R A G u s) = main_playlists0 s"
  "media_group_entries0 (stage3 R A G u s) = media_group_entries0 s"
  "main_uri0 (stage3 R A G u s) = Some u"
proof -
  have sd: "same_doc (stage2 R A G u s) (stage3 R A G u s)"
    unfolding stage3_def by (rule setupMediaPlaylists_same_doc)
  show "main_playlists0 (stage3 R A G u s) = main_playlists0 s"
    and "main_uri0 (stage3 R A G u s) = Some u"
    using sd by (simp_all add: same_doc_def)
  show "media_group_entries0 (stage3 R A G u s) = media_group_entries0 s"
    using same_doc_entries [OF sd] by simp
qed

lemma addPropertiesToMain_fields [simp]:
  "main_playlists0 (addPropertiesToMain0 R A G u s) = main_playlists0 s"
  "media_group_entries0 (addPropertiesToMain0 R A G u s) = media_group_entries0 s"
  "main_uri0 (addPropertiesToMain0 R A G u s) = Some u"
proof -
  have sd: "same_doc (stage3 R A G u s) (addPropertiesToMain0 R A G u s)"
    unfolding addPropertiesToMain_stages by (rule resolveMediaGroupUris_same_doc)
  show "main_playlists0 (addPropertiesToMain0 R A G u s) = main_playlists0 s"
    and "main_uri0 (addPropertiesToMain0 R A G u s) = Some u"
    using sd by (simp_all add: same_doc_def)
  show "media_group_entries0 (addPropertiesToMain0 R A G u s) = media_group_entries0 s"
    using same_doc_entries [OF sd] by simp
qed

lemma addPropertiesToMain_heap:
  "heap0 (addPropertiesToMain0 R A G u s) x =
     (if x \<in> fst ` set (media_group_entries0 s)
      then with_resolved R (Some u) (heap0 (stage3 R A G u s) x)
      else heap0 (stage3 R A G u s) x)"
  unfolding addPropertiesToMain_stages resolveMediaGroupUris_heap_char
  by (simp add: with_resolved_def)

lemma with_resolved_fields [simp]:
  "playlists (with_resolved R b p) = playlists p"
  "uri (with_resolved R b p) = uri p"
  "id' (with_resolved R b p) = id' p"
  "attributes (with_resolved R b p) = attributes p"
  "playlistErrors (with_resolved R b p) = playlistErrors p"
  by (simp_all add: with_resolved_def)

lemma addPropertiesToMain_char:
  assumes ts: "tree_shaped0 s"
  shows "\<forall>i < length (main_playlists0 s).
           heap0 (addPropertiesToMain0 R A G u s) (main_playlists0 s ! i) =
             top_playlist_fields R (Some u) i (with_placeholder i (heap0 s (main_playlists0 s ! i)))"
    and "\<forall>e \<in> set (media_group_entries0 s).
           finished R G (A (stage1 u s)) u s (addPropertiesToMain0 R A G u s) e"
    and "main_playlists_key0 (addPropertiesToMain0 R A G u s) =
           writes (heap0 (addPropertiesToMain0 R A G u s))
             (concat (map (group_playlists0 (addPropertiesToMain0 R A G u s))
                (map fst (media_group_entries0 s))) @ rev (main_playlists0 s))
             (main_playlists_key0 s)"
    and "\<forall>x \<in> set (concat (map (group_playlists0 (addPropertiesToMain0 R A G u s))
                (map fst (media_group_entries0 s)))).
           x \<notin> set (main_playlists0 s) \<and> x \<notin> fst ` set (media_group_entries0 s)"
proof -
  let ?L = "main_playlists0 s"
  let ?es = "media_group_entries0 s"
  let ?a = "A (stage1 u s)"
  let ?s1 = "stage1 u s"
  let ?s2 = "stage2 R A G u s"
  let ?s3 = "stage3 R A G u s"
  let ?s' = "addPropertiesToMain0 R A G u s"
  let ?subs2 = "concat (map (group_playlists0 ?s2) (map fst ?es))"
  note T = tree_shapedD [OF ts]
  note S2 = stage2_char [OF ts, where R = R and A = A and G = G and u = u]
  have "distinct (main_playlists0 ?s2)" using T(1) by simp
  from setupMediaPlaylists_char [OF this, where R = R]
  have S3: "\<forall>y. y \<notin> set ?L \<longrightarrow> heap0 ?s3 y = heap0 ?s2 y"
    "main_playlists_key0 ?s3 = writes (heap0 ?s3) (rev ?L) (main_playlists_key0 ?s2)"
    "\<forall>i < length ?L. heap0 ?s3 (?L ! i) = top_playlist_fields R (Some u) i (heap0 ?s2 (?L ! i))"
    unfolding stage3_def [symmetric] by simp_all
  have B: "heap0 ?s' x = heap0 ?s3 x" if "x \<notin> fst ` set ?es" for x
    using that by (simp add: addPropertiesToMain_heap)
  have C: "heap0 ?s' d = with_resolved R (Some u) (heap0 ?s2 d)" if "d \<in> fst ` set ?es" for d
  proof -
    have "d \<notin> set ?L" using T(2) that by blast
    with S3(1) that show ?thesis by (simp add: addPropertiesToMain_heap)
  qed
  have D: "x \<notin> set ?L \<and> x \<notin> fst ` set ?es" if "x \<in> set ?subs2" for x
  proof -
    from S2(3) that have "x \<in> set (concat (map (group_playlists0 s) (map fst ?es))) \<or> nxt0 s \<le> x"
      by blast
    then show ?thesis
    proof
      assume "x \<in> set (concat (map (group_playlists0 s) (map fst ?es)))"
      with T(3,4) show ?thesis by blast
    next
      assume "nxt0 s \<le> x"
      with T(5,6) show ?thesis by (meson not_less)
    qed
  qed
  have D': "heap0 ?s' x = heap0 ?s2 x" if "x \<in> set ?subs2" for x
    using D [OF that] B S3(1) by simp
  have E: "group_playlists0 ?s' d = group_playlists0 ?s2 d" if "d \<in> fst ` set ?es" for d
    using C [OF that] by (simp add: group_playlists0_def)
  have Emap: "map (group_playlists0 ?s') (map fst ?es) = map (group_playlists0 ?s2) (map fst ?es)"
    using E by simp
  show "\<forall>x \<in> set (concat (map (group_playlists0 ?s') (map fst ?es))).
           x \<notin> set ?L \<and> x \<notin> fst ` set ?es"
    unfolding Emap using D by blast
  show "\<forall>i < length ?L. heap0 ?s' (?L ! i) =
             top_playlist_fields R (Some u) i (with_placeholder i (heap0 s (?L ! i)))"
  proof (intro allI impI)
    fix i assume i: "i < length ?L"
    then have mem: "?L ! i \<in> set ?L" by simp
    with T(2) have "?L ! i \<notin> fst ` set ?es" by blast
    then have "heap0 ?s' (?L ! i) = heap0 ?s3 (?L ! i)" by (rule B)
    also have "\<dots> = top_playlist_fields R (Some u) i (heap0 ?s2 (?L ! i))"
      using S3(3) i by simp
    also have "heap0 ?s2 (?L ! i) = heap0 ?s1 (?L ! i)"
      using S2(4) mem by simp
    also have "\<dots> = with_placeholder i (heap0 s (?L ! i))"
      using T(1) i by (rule stage1_heap_value)
    finally show "heap0 ?s' (?L ! i) =
             top_playlist_fields R (Some u) i (with_placeholder i (heap0 s (?L ! i)))" .
  qed
  show "main_playlists_key0 ?s' =
           writes (heap0 ?s') (concat (map (group_playlists0 ?s') (map fst ?es)) @ rev ?L)
             (main_playlists_key0 s)"
  proof -
    have "main_playlists_key0 ?s' = main_playlists_key0 ?s3"
      by (simp add: addPropertiesToMain_stages)
    also have "\<dots> = writes (heap0 ?s3) (rev ?L) (main_playlists_key0 ?s2)"
      by (rule S3(2))
    also have "\<dots> = writes (heap0 ?s') (rev ?L) (main_playlists_key0 ?s2)"
    proof (rule writes_cong)
      fix x assume "x \<in> set (rev ?L)"
      with T(2) have "x \<notin> fst ` set ?es" by auto
      then show "heap0 ?s3 x = heap0 ?s' x" by (simp add: B)
    qed
    also have "main_playlists_key0 ?s2 = writes (heap0 ?s2) ?subs2 (main_playlists_key0 s)"
      by (rule S2(2))
    also have "\<dots> = writes (heap0 ?s') ?subs2 (main_playlists_key0 s)"
      by (rule writes_cong) (simp add: D')
    finally show ?thesis
      unfolding Emap by (simp add: writes_append)
  qed
  show "\<forall>e \<in> set ?es. finished R G ?a u s ?s' e"
  proof
    fix e assume e: "e \<in> set ?es"
    obtain d t g l where e_eq: "e = (d, t, g, l)" by (cases e)
    have dref: "d \<in> fst ` set ?es" using e e_eq by force
    have dL: "d \<notin> set ?L" using T(2) dref by blast
    have h1: "heap0 ?s1 d = heap0 s d" using dL by (rule stage1_heap_other)
    have sub_in: "set (group_playlists0 s d) \<subseteq> set (concat (map (group_playlists0 s) (map fst ?es)))"
      using e e_eq by force
    have hsub: "heap0 ?s1 x = heap0 s x" if "x \<in> set (group_playlists0 s d)" for x
    proof -
      from that sub_in T(3) have "x \<notin> set ?L" by blast
      then show ?thesis by (rule stage1_heap_other)
    qed
    have su: "suppressed0 ?a ?s1 d t g = suppressed0 ?a s d t g"
      by (simp add: suppressed0_def h1)
    have v: "visited R G ?a ?s1 ?s2 (d, t, g, l)" using S2(1) e e_eq by blast
    have sub2_in: "set (group_playlists0 ?s2 d) \<subseteq> set ?subs2"
      using e e_eq by force
    show "finished R G ?a u s ?s' e"
    proof (cases "unpopulated (playlists (heap0 s d))")
      case True
      show ?thesis
      proof (cases "suppressed0 ?a s d t g")
        case True
        with v h1 su \<open>unpopulated (playlists (heap0 s d))\<close> have "heap0 ?s2 d = heap0 s d"
          by (simp add: visited_def)
        moreover have "\<not> truthy (uri (heap0 s d))" using True by (simp add: suppressed0_def)
        ultimately have "heap0 ?s' d = heap0 s d"
          using C [OF dref] by (simp add: with_resolved_def)
        with True \<open>unpopulated (playlists (heap0 s d))\<close> show ?thesis
          by (simp add: finished_def e_eq)
      next
        case False
        with v h1 su True obtain c where c: "nxt0 ?s1 \<le> c"
          "heap0 ?s2 d = (heap0 s d)\<lparr>playlists := Some [c]\<rparr>"
          "heap0 ?s2 c = group_playlist_fields R G (Some u) t g l 0 (heap0 s d)"
          by (auto simp: visited_def)
        from c(2) have "group_playlists0 ?s2 d = [c]" by (simp add: group_playlists0_def)
        with sub2_in have "c \<in> set ?subs2" by simp
        then have "heap0 ?s' c = heap0 ?s2 c" by (rule D')
        with c C [OF dref] have "\<exists>c. nxt0 s \<le> c \<and>
                   heap0 ?s' d = with_resolved R (Some u) ((heap0 s d)\<lparr>playlists := Some [c]\<rparr>) \<and>
                   heap0 ?s' c = group_playlist_fields R G (Some u) t g l 0 (heap0 s d)"
          by (intro exI [of _ c]) simp
        with True False show ?thesis by (simp add: finished_def e_eq)
      qed
    next
      case False
      with v h1 have v1: "heap0 ?s2 d = heap0 s d"
        and v2: "\<forall>i < length (group_playlists0 s d).
                heap0 ?s2 (group_playlists0 s d ! i) =
                  group_playlist_fields R G (Some u) t g l i (heap0 ?s1 (group_playlists0 s d ! i))"
        by (simp_all add: visited_def)
      have gp2: "group_playlists0 ?s2 d = group_playlists0 s d"
        using v1 by (rule group_playlists_heap_eq)
      have "heap0 ?s' (group_playlists0 s d ! i) =
          group_playlist_fields R G (Some u) t g l i (heap0 s (group_playlists0 s d ! i))"
        if i: "i < length (group_playlists0 s d)" for i
      proof -
        have mem: "group_playlists0 s d ! i \<in> set (group_playlists0 s d)" using i by simp
        with sub2_in gp2 have "group_playlists0 s d ! i \<in> set ?subs2" by auto
        then have "heap0 ?s' (group_playlists0 s d ! i) = heap0 ?s2 (group_playlists0 s d ! i)"
          by (rule D')
        with v2 i hsub [OF mem] show ?thesis by simp
      qed
      with False C [OF dref] v1 show ?thesis by (simp add: finished_def e_eq)
    qed
  qed
qed

section \<open>Nested playlists and the lookup table\<close>

lemma group_playlist_fields_uris:
  "group_playlist_uris R G u t g l i p (group_playlist_fields R G (Some u) t g l i p)"
  by (simp add: group_playlist_uris_def group_playlist_fields_simps Let_def or_else_def)

text \<open>
  For the nested playlist at index \<open>i\<close> of a rendition, \<^verbatim>\<open>addPropertiesToMain\<close>
  leaves a truthy \<^verbatim>\<open>uri\<close> as it is and sets \<^verbatim>\<open>resolvedUri\<close> to the resolved uri only
  when \<^verbatim>\<open>resolvedUri\<close> is not truthy already; without a uri, \<^verbatim>\<open>uri\<close> and
  \<^verbatim>\<open>resolvedUri\<close> both become the group id at index 0 and
  \<^verbatim>\<open>createPlaylistID(i, groupId)\<close> at the other indices. The same holds, at index 0,
  for the copy that line 307 makes of a rendition without nested playlists.
\<close>

lemma group_playlist_uri0:
  assumes "tree_shaped0 s" and "(d, t, g, l) \<in> set (media_group_entries0 s)"
  shows "(\<forall>i < length (group_playlists0 s d).
            group_playlist_uris R G u t g l i (heap0 s (group_playlists0 s d ! i))
              (heap0 (addPropertiesToMain0 R A G u s) (group_playlists0 s d ! i))) \<and>
         (unpopulated (playlists (heap0 s d)) \<longrightarrow>
            suppressed0 (A (placeholder_uris0 (s\<lparr>main_uri0 := Some u\<rparr>))) s d t g \<or>
            (\<exists>c. nxt0 s \<le> c \<and> playlists (heap0 (addPropertiesToMain0 R A G u s) d) = Some [c] \<and>
                 group_playlist_uris R G u t g l 0 (heap0 s d)
                   (heap0 (addPropertiesToMain0 R A G u s) c)))"
proof -
  let ?s' = "addPropertiesToMain0 R A G u s"
  have fin: "finished R G (A (stage1 u s)) u s ?s' (d, t, g, l)"
    using addPropertiesToMain_char(2) [OF assms(1)] assms(2) by blast
  show ?thesis
  proof (cases "unpopulated (playlists (heap0 s d))")
    case True
    then have "group_playlists0 s d = []" by (rule unpopulated_group_playlists)
    moreover have "suppressed0 (A (stage1 u s)) s d t g \<or>
            (\<exists>c. nxt0 s \<le> c \<and> playlists (heap0 ?s' d) = Some [c] \<and>
                 group_playlist_uris R G u t g l 0 (heap0 s d) (heap0 ?s' c))"
    proof (cases "suppressed0 (A (stage1 u s)) s d t g")
      case True
      then show ?thesis ..
    next
      case False
      with fin \<open>unpopulated (playlists (heap0 s d))\<close> obtain c where c: "nxt0 s \<le> c"
        "heap0 ?s' d = with_resolved R (Some u) ((heap0 s d)\<lparr>playlists := Some [c]\<rparr>)"
        "heap0 ?s' c = group_playlist_fields R G (Some u) t g l 0 (heap0 s d)"
        by (auto simp: finished_def)
      from c(2) have "playlists (heap0 ?s' d) = Some [c]" by simp
      with c(1,3) have "\<exists>c. nxt0 s \<le> c \<and> playlists (heap0 ?s' d) = Some [c] \<and>
                 group_playlist_uris R G u t g l 0 (heap0 s d) (heap0 ?s' c)"
        by (intro exI [of _ c]) (simp add: group_playlist_fields_uris)
      then show ?thesis ..
    qed
    ultimately show ?thesis by (simp add: stage1_def)
  next
    case False
    with fin have "\<forall>i < length (group_playlists0 s d).
                heap0 ?s' (group_playlists0 s d ! i) =
                  group_playlist_fields R G (Some u) t g l i (heap0 s (group_playlists0 s d ! i))"
      by (simp add: finished_def)
    with False show ?thesis by (simp add: group_playlist_fields_uris)
  qed
qed

lemma writes_reach:
  assumes "x \<in> set xs \<or>
      (m (to_str (id' (h x))) = Some x \<and> m (to_str (uri (h x))) = Some x)"
    and "\<forall>y \<in> set xs. y \<noteq> x \<longrightarrow> playlist_keys (h y) \<inter> playlist_keys (h x) = {}"
  shows "writes h xs m (to_str (id' (h x))) = Some x \<and>
         writes h xs m (to_str (uri (h x))) = Some x"
  using assms
proof (induction xs arbitrary: m)
  case Nil
  then show ?case by simp
next
  case (Cons y ys)
  let ?m' = "write_keys (h y) y m"
  have disj: "\<forall>z \<in> set ys. z \<noteq> x \<longrightarrow> playlist_keys (h z) \<inter> playlist_keys (h x) = {}"
    using Cons.prems(2) by simp
  have "x \<in> set ys \<or>
      (?m' (to_str (id' (h x))) = Some x \<and> ?m' (to_str (uri (h x))) = Some x)"
  proof (cases "y = x")
    case True
    then show ?thesis by (simp add: write_keys_def)
  next
    case False
    with Cons.prems(2) have "playlist_keys (h y) \<inter> playlist_keys (h x) = {}" by simp
    then have k: "to_str (id' (h x)) \<noteq> to_str (id' (h y))" "to_str (id' (h x)) \<noteq> to_str (uri (h y))"
      "to_str (uri (h x)) \<noteq> to_str (id' (h y))" "to_str (uri (h x)) \<noteq> to_str (uri (h y))"
      by (auto simp: playlist_keys_def)
    from Cons.prems(1) False consider "x \<in> set ys"
      | "m (to_str (id' (h x))) = Some x \<and> m (to_str (uri (h x))) = Some x" by auto
    then show ?thesis
    proof cases
      case 1
      then show ?thesis ..
    next
      case 2
      with k show ?thesis by (simp add: write_keys_def)
    qed
  qed
  from Cons.IH [OF this disj] show ?case by simp
qed

section \<open>A second call of addPropertiesToMain\<close>

text \<open>
  The assignments of lines 315 to 332, of \<^verbatim>\<open>setupMediaPlaylists\<close> and of line 220 give
  the same object when they are applied to their own result, as long as the group id
  is not the empty string.
\<close>

lemma createPlaylistID_nonempty: "createPlaylistID i v \<noteq> []"
  by (simp add: createPlaylistID_def)

lemma or_else_idem: "or_else (or_else a b) b = or_else a b"
  by (simp add: or_else_def)

lemma or_else_truthy: "truthy a \<Longrightarrow> or_else a b = a"
  by (simp add: or_else_def)

lemma group_playlist_fields_idem:
  assumes "G t g l p \<noteq> []"
  shows "group_playlist_fields R G b t g l i (group_playlist_fields R G b t g l i p) =
         group_playlist_fields R G b t g l i p"
proof -
  let ?p' = "group_playlist_fields R G b t g l i p"
  have u: "truthy (uri ?p')"
    using assms by (simp add: group_playlist_fields_simps truthy_def createPlaylistID_nonempty)
  have i: "truthy (id' ?p')"
    by (simp add: group_playlist_fields_simps or_else_def truthy_def createPlaylistID_nonempty)
  have r: "or_else (resolvedUri ?p') (R b (uri ?p')) = resolvedUri ?p'"
    by (simp add: group_playlist_fields_simps or_else_idem)
      (simp add: or_else_def truthy_def createPlaylistID_nonempty assms)
  have "uri (group_playlist_fields R G b t g l i ?p') = uri ?p'"
    and "resolvedUri (group_playlist_fields R G b t g l i ?p') = resolvedUri ?p'"
    and "id' (group_playlist_fields R G b t g l i ?p') = id' ?p'"
    and "attributes (group_playlist_fields R G b t g l i ?p') = attributes ?p'"
    and "playlists (group_playlist_fields R G b t g l i ?p') = playlists ?p'"
    and "playlistErrors (group_playlist_fields R G b t g l i ?p') = playlistErrors ?p'"
    using u i r
    by (simp_all add: group_playlist_fields_simps [of R G b t g l i ?p'] or_else_truthy)
      (simp add: group_playlist_fields_simps)
  then show ?thesis by (intro playlist.equality) simp_all
qed

lemma top_playlist_fields_idem:
  "top_playlist_fields R b i (with_placeholder i
     (top_playlist_fields R b i (with_placeholder i p))) =
   top_playlist_fields R b i (with_placeholder i p)"
proof -
  have t: "truthy (uri (with_placeholder i p))"
    by (simp add: with_placeholder_def truthy_def)
  then have "with_placeholder i (top_playlist_fields R b i (with_placeholder i p)) =
      top_playlist_fields R b i (with_placeholder i p)"
    by (simp add: with_placeholder_def top_playlist_fields_def)
  then show ?thesis by (simp add: top_playlist_fields_def)
qed

lemma with_resolved_idem: "with_resolved R b (with_resolved R b p) = with_resolved R b p"
  by (simp add: with_resolved_def)

lemma writes_apply:
  "writes h xs m k =
     (if \<exists>x \<in> set xs. k \<in> playlist_keys (h x)
      then Some (last (filter (\<lambda>x. k \<in> playlist_keys (h x)) xs)) else m k)"
proof (induction xs arbitrary: m)
  case Nil
  then show ?case by simp
next
  case (Cons y ys)
  show ?case
  proof (cases "\<exists>x \<in> set ys. k \<in> playlist_keys (h x)")
    case True
    then have "filter (\<lambda>x. k \<in> playlist_keys (h x)) ys \<noteq> []"
      by (simp add: filter_empty_conv)
    with True show ?thesis by (simp add: Cons.IH)
  next
    case False
    then have "filter (\<lambda>x. k \<in> playlist_keys (h x)) ys = []"
      by (simp add: filter_empty_conv)
    with False show ?thesis
      by (auto simp: Cons.IH write_keys_def playlist_keys_def)
  qed
qed

lemma writes_idem: "writes h xs (writes h xs m) = writes h xs m"
  by (rule ext) (simp add: writes_apply)

lemma fold_placeholder_uri_body_id:
  "\<forall>i \<in> set js. truthy (uri (heap0 s (main_playlists0 s ! i))) \<Longrightarrow>
   fold placeholder_uri_body0 js s = s"
  by (induction js) (simp_all add: placeholder_uri_body0_def)

lemma placeholder_uris_id:
  "\<forall>i < length (main_playlists0 s). truthy (uri (heap0 s (main_playlists0 s ! i))) \<Longrightarrow>
   placeholder_uris0 s = s"
  unfolding placeholder_uris0_def by (rule fold_placeholder_uri_body_id) simp

text \<open>
  The nested playlists stay pairwise different along the walk over the renditions, so
  the manifest that \<^verbatim>\<open>addPropertiesToMain\<close> returns has again pairwise different objects;
  a walk that makes no copy allocates nothing.
\<close>

lemma setupMediaPlaylists_nxt [simp]: "nxt0 (setupMediaPlaylists0 R s) = nxt0 s"
  unfolding setupMediaPlaylists0_def
  by (rule fold_invariant [where P = "\<lambda>t. nxt0 t = nxt0 s"]) simp_all

lemma resolveMediaGroupUris_nxt [simp]: "nxt0 (resolveMediaGroupUris0 R s) = nxt0 s"
  unfolding resolveMediaGroupUris_fold
  by (rule fold_invariant [where P = "\<lambda>t. nxt0 t = nxt0 s"]) (simp_all add: resolve_entry_def)

lemma addPropertiesToMain_nxt: "nxt0 (addPropertiesToMain0 R A G u s) = nxt0 (stage2 R A G u s)"
  by (simp add: addPropertiesToMain_stages stage3_def)

lemma walk_frame:
  assumes ok: "walk_ok s ((d, t, g, l) # es)"
    and x: "x = d \<or> x \<in> set (group_playlists0 (media_group_body0 R G a d t g l s) d)"
  shows "heap0 (walk R G a es (media_group_body0 R G a d t g l s)) x =
         heap0 (media_group_body0 R G a d t g l s) x"
proof (rule walk_heap_other)
  let ?s1 = "media_group_body0 R G a d t g l s"
  note D = walk_ok_ConsD [OF ok]
  note S = walk_ok_step [OF ok, of R G a]
  note V = visit [OF D(1) D(2) D(3), of R G a t g l]
  have n1: "nxt0 s \<le> nxt0 ?s1" by (rule media_group_body_nxt)
  have gp_es: "group_playlists0 ?s1 (fst e) = group_playlists0 s (fst e)" if "e \<in> set es" for e
    using S(2) that by (intro group_playlists_heap_eq) simp
  show "x < nxt0 ?s1"
    using x D(3,4) V(3) n1 by (metis less_le_trans)
  show "\<forall>e\<in>set es. fst e < nxt0 ?s1 \<and> x \<noteq> fst e \<and> x \<notin> set (group_playlists0 ?s1 (fst e))"
  proof (intro ballI conjI)
    fix e assume e: "e \<in> set es"
    have De: "fst e \<noteq> d" "fst e \<notin> set (group_playlists0 s d)" "fst e < nxt0 s"
      "d \<notin> set (group_playlists0 s (fst e))"
      "set (group_playlists0 s d) \<inter> set (group_playlists0 s (fst e)) = {}"
      using D(5) e by blast+
    have sub_lt: "\<forall>y \<in> set (group_playlists0 s (fst e)). y < nxt0 s"
      using walk_ok_subs_alloc [OF ok, of e] e by simp
    show "fst e < nxt0 ?s1" using De(3) n1 by simp
    from x V(3) consider "x = d" | "x \<in> set (group_playlists0 s d)" | "x = nxt0 s" by blast
    then show "x \<noteq> fst e" using De by cases auto
    from x V(3) consider "x = d" | "x \<in> set (group_playlists0 s d)" | "x = nxt0 s" by blast
    then show "x \<notin> set (group_playlists0 ?s1 (fst e))"
      unfolding gp_es [OF e] using De sub_lt by cases auto
  qed
qed

lemma visited_distinct:
  assumes "visited R G a s s' (d, t, g, l)" and "distinct (group_playlists0 s d)"
  shows "distinct (group_playlists0 s' d)"
proof (cases "unpopulated (playlists (heap0 s d))")
  case True
  show ?thesis
  proof (cases "suppressed0 a s d t g")
    case True
    with \<open>unpopulated (playlists (heap0 s d))\<close> assms show ?thesis
      by (simp add: visited_def group_playlists0_def)
  next
    case False
    with True assms(1) obtain c where "heap0 s' d = (heap0 s d)\<lparr>playlists := Some [c]\<rparr>"
      by (auto simp: visited_def)
    then show ?thesis by (simp add: group_playlists0_def)
  qed
next
  case False
  with assms show ?thesis by (simp add: visited_def group_playlists0_def)
qed

lemma walk_distinct:
  assumes "walk_ok s es"
  shows "distinct (concat (map (group_playlists0 (walk R G a es s)) (map fst es)))"
  using assms
proof (induction es arbitrary: s)
  case Nil
  then show ?case by simp
next
  case (Cons e0 es)
  obtain d t g l where e0: "e0 = (d, t, g, l)" by (cases e0)
  let ?s1 = "media_group_body0 R G a d t g l s"
  let ?s' = "walk R G a es ?s1"
  have ok: "walk_ok s ((d, t, g, l) # es)" using Cons.prems by (simp add: e0)
  note D = walk_ok_ConsD [OF ok]
  note S = walk_ok_step [OF ok, of R G a]
  note V = visit [OF D(1) D(2) D(3), of R G a t g l]
  note IH = Cons.IH [OF S(1)]
  note C = walk_char [OF S(1), of R G a]
  have n1: "nxt0 s \<le> nxt0 ?s1" by (rule media_group_body_nxt)
  have gp_es: "group_playlists0 ?s1 (fst e) = group_playlists0 s (fst e)" if "e \<in> set es" for e
    using S(2) that by (intro group_playlists_heap_eq) simp
  have gp_map: "map (group_playlists0 ?s1) (map fst es) = map (group_playlists0 s) (map fst es)"
    using gp_es by simp
  have hd: "heap0 ?s' d = heap0 ?s1 d" using walk_frame [OF ok, of d R G a] by simp
  have gp_d: "group_playlists0 ?s' d = group_playlists0 ?s1 d"
    using hd by (rule group_playlists_heap_eq)
  have d1: "distinct (group_playlists0 ?s1 d)"
    using V(1) D(1) by (rule visited_distinct)
  have disj: "x \<notin> set (concat (map (group_playlists0 ?s') (map fst es)))"
    if x: "x \<in> set (group_playlists0 ?s1 d)" for x
  proof
    assume in_tail: "x \<in> set (concat (map (group_playlists0 ?s') (map fst es)))"
    from x V(3) have cases: "x \<in> set (group_playlists0 s d) \<or> (x = nxt0 s \<and> nxt0 s < nxt0 ?s1)"
      by blast
    then have "x < nxt0 ?s1" using D(4) n1 by (metis less_le_trans)
    with C in_tail have "x \<in> set (concat (map (group_playlists0 ?s1) (map fst es)))"
      by (metis not_le)
    then obtain e where e: "e \<in> set es" "x \<in> set (group_playlists0 s (fst e))"
      unfolding gp_map by auto
    have "set (group_playlists0 s d) \<inter> set (group_playlists0 s (fst e)) = {}"
      using D(5) e(1) by blast
    moreover have "x < nxt0 s" using walk_ok_subs_alloc [OF ok, of e x] e by simp
    ultimately show False using cases e(2) by auto
  qed
  have "distinct (group_playlists0 ?s' d @ concat (map (group_playlists0 ?s') (map fst es)))"
    unfolding gp_d using d1 IH disj by auto
  then show ?case unfolding e0 walk_simps by simp
qed

lemma walk_no_alloc:
  assumes "walk_ok s es"
    and "\<forall>e \<in> set es. \<not> unpopulated (playlists (heap0 s (fst e))) \<or>
           suppressed0 a s (fst e) (fst (snd e)) (fst (snd (snd e)))"
  shows "nxt0 (walk R G a es s) = nxt0 s \<and>
         (\<forall>x. nxt0 s \<le> x \<longrightarrow> heap0 (walk R G a es s) x = heap0 s x)"
  using assms
proof (induction es arbitrary: s)
  case Nil
  then show ?case by simp
next
  case (Cons e0 es)
  obtain d t g l where e0: "e0 = (d, t, g, l)" by (cases e0)
  let ?s1 = "media_group_body0 R G a d t g l s"
  have ok: "walk_ok s ((d, t, g, l) # es)" using Cons.prems(1) by (simp add: e0)
  note D = walk_ok_ConsD [OF ok]
  note S = walk_ok_step [OF ok, of R G a]
  have head: "\<not> unpopulated (playlists (heap0 s d)) \<or> suppressed0 a s d t g"
    using Cons.prems(2) by (simp add: e0)
  have s1: "?s1 = s \<or> ?s1 = forEach_playlists0 R G d t g l s"
    using head by (auto simp: media_group_body_unfold)
  have n1: "nxt0 ?s1 = nxt0 s" using s1 by auto
  have h1: "heap0 ?s1 x = heap0 s x" if "nxt0 s \<le> x" for x
  proof -
    have "x \<notin> set (group_playlists0 s d)" using D(4) that by auto
    then have "heap0 (forEach_playlists0 R G d t g l s) x = heap0 s x"
      by (rule forEach_playlists_heap_other)
    with s1 show ?thesis by auto
  qed
  have tail: "\<forall>e \<in> set es. \<not> unpopulated (playlists (heap0 ?s1 (fst e))) \<or>
           suppressed0 a ?s1 (fst e) (fst (snd e)) (fst (snd (snd e)))"
  proof
    fix e assume e: "e \<in> set es"
    have he: "heap0 ?s1 (fst e) = heap0 s (fst e)" using S(2) e by blast
    have "suppressed0 a ?s1 (fst e) (fst (snd e)) (fst (snd (snd e))) =
          suppressed0 a s (fst e) (fst (snd e)) (fst (snd (snd e)))"
      using he _ S(4) by (rule suppressed_cong) simp
    with he Cons.prems(2) e
    show "\<not> unpopulated (playlists (heap0 ?s1 (fst e))) \<or>
           suppressed0 a ?s1 (fst e) (fst (snd e)) (fst (snd (snd e)))"
      by simp
  qed
  from Cons.IH [OF S(1) tail] n1 h1 show ?case
    unfolding e0 walk_simps by simp
qed

lemma addPropertiesToMain_same_doc:
  "mediaGroups0 (addPropertiesToMain0 R A G u s) = mediaGroups0 s"
  "main_resolvedUri0 (addPropertiesToMain0 R A G u s) = main_resolvedUri0 s"
  "nxt0 s \<le> nxt0 (addPropertiesToMain0 R A G u s)"
proof -
  have 1: "same_doc (s\<lparr>main_uri0 := Some u\<rparr>) (stage1 u s)"
    unfolding stage1_def by (rule placeholder_uris_same_doc)
  have 2: "same_doc (stage1 u s) (stage2 R A G u s)"
    unfolding stage2_def by (rule walk_same_doc)
  have 3: "same_doc (stage2 R A G u s) (stage3 R A G u s)"
    unfolding stage3_def by (rule setupMediaPlaylists_same_doc)
  have 4: "same_doc (stage3 R A G u s) (addPropertiesToMain0 R A G u s)"
    unfolding addPropertiesToMain_stages by (rule resolveMediaGroupUris_same_doc)
  from 1 2 3 4 show "mediaGroups0 (addPropertiesToMain0 R A G u s) = mediaGroups0 s"
    "main_resolvedUri0 (addPropertiesToMain0 R A G u s) = main_resolvedUri0 s"
    "nxt0 s \<le> nxt0 (addPropertiesToMain0 R A G u s)"
    by (simp_all add: same_doc_def)
qed

lemma addPropertiesToMain_playlists:
  assumes "distinct (main_playlists0 s)"
  shows "playlists (heap0 (addPropertiesToMain0 R A G u s) x) = playlists (heap0 (stage2 R A G u s) x)"
proof -
  have d: "distinct (main_playlists0 (stage2 R A G u s))" using assms by simp
  note S = setupMediaPlaylists_char [OF d, of R]
  have "playlists (heap0 (stage3 R A G u s) x) = playlists (heap0 (stage2 R A G u s) x)"
  proof (cases "x \<in> set (main_playlists0 s)")
    case True
    then obtain i where "i < length (main_playlists0 s)" "x = main_playlists0 s ! i"
      by (auto simp: in_set_conv_nth)
    with S show ?thesis by (simp add: stage3_def top_playlist_fields_def)
  next
    case False
    with S show ?thesis by (simp add: stage3_def)
  qed
  then show ?thesis by (simp add: addPropertiesToMain_heap)
qed

lemma addPropertiesToMain_tree_shaped:
  assumes ts: "tree_shaped0 s"
  shows "tree_shaped0 (addPropertiesToMain0 R A G u s)"
proof -
  let ?s' = "addPropertiesToMain0 R A G u s"
  let ?es = "media_group_entries0 s"
  let ?subs = "concat (map (group_playlists0 ?s') (map fst ?es))"
  note T = tree_shapedD [OF ts]
  have ok: "walk_ok s ?es" using ts by (simp add: tree_shaped_walk_ok)
  have gp: "group_playlists0 ?s' = group_playlists0 (stage2 R A G u s)"
    by (intro ext) (simp add: group_playlists0_def addPropertiesToMain_playlists [OF T(1)])
  have "distinct (concat (map (group_playlists0 (stage2 R A G u s)) (map fst ?es)))"
    unfolding stage2_def stage1_fields by (rule walk_distinct) (rule stage1_walk_ok [OF ts])
  then have d3: "distinct ?subs" unfolding gp .
  have d12: "distinct (main_playlists0 s @ map fst ?es)"
    using ok unfolding walk_ok_def distinct_append set_append by blast
  have out: "\<forall>x \<in> set ?subs. x \<notin> set (main_playlists0 s) \<and> x \<notin> fst ` set ?es"
    by (rule addPropertiesToMain_char(4) [OF ts])
  have dist: "distinct (main_playlists0 s @ map fst ?es @ ?subs)"
    using d12 d3 out by auto
  have n: "nxt0 s \<le> nxt0 ?s'" by (rule addPropertiesToMain_same_doc)
  have b3: "\<forall>x \<in> set ?subs. x < nxt0 ?s'"
    unfolding gp addPropertiesToMain_nxt using stage2_char(3) [OF ts, of R A G u] by blast
  have b12: "\<forall>x \<in> set (main_playlists0 s @ map fst ?es). x < nxt0 ?s'"
    using T(5,6) n by (auto intro: less_le_trans)
  have "walk_ok ?s' ?es"
    unfolding walk_ok_def using dist b12 b3 by (simp add: ball_Un)
  then show ?thesis by (simp add: tree_shaped_walk_ok)
qed

text \<open>
  In the manifest after the first call every element of \<^verbatim>\<open>main.playlists\<close> has a uri,
  and every rendition either has nested playlists or was left out by the first call
  and is left out again.
\<close>

lemma top_playlist_fields_truthy:
  "truthy (uri (top_playlist_fields R b i (with_placeholder i p)))"
  by (simp add: top_playlist_fields_def with_placeholder_def truthy_def)

lemma top_playlist_fields_attributes:
  "attributes p = Some a \<Longrightarrow>
   attributes (top_playlist_fields R b i (with_placeholder i p)) = Some a"
  by (simp add: top_playlist_fields_def with_placeholder_def)

lemma addPropertiesToMain_in_main_playlists:
  assumes ts: "tree_shaped0 s" and "in_main_playlists0 s g"
  shows "in_main_playlists0 (addPropertiesToMain0 R A G u s) g"
proof -
  from assms(2) obtain r a where r: "r \<in> set (main_playlists0 s)"
    and a: "attributes (heap0 s r) = Some a" "truthy_attr (a ''AUDIO'')" "a ''AUDIO'' = Some (AStr g)"
    by (auto simp: in_main_playlists0_def split: option.splits)
  from r obtain i where i: "i < length (main_playlists0 s)" "r = main_playlists0 s ! i"
    by (auto simp: in_set_conv_nth)
  have "heap0 (addPropertiesToMain0 R A G u s) r =
      top_playlist_fields R (Some u) i (with_placeholder i (heap0 s r))"
    using addPropertiesToMain_char(1) [OF ts, of R A G u] i by simp
  with a(1) have "attributes (heap0 (addPropertiesToMain0 R A G u s) r) = Some a"
    by (simp add: top_playlist_fields_attributes)
  with r a(2,3) show ?thesis
    unfolding in_main_playlists0_def addPropertiesToMain_fields
    by (intro bexI [of _ r]) simp_all
qed

lemma addPropertiesToMain_stage1_again:
  assumes ts: "tree_shaped0 s"
  shows "stage1 u (addPropertiesToMain0 R A G u s) = addPropertiesToMain0 R A G u s"
proof -
  let ?s1 = "addPropertiesToMain0 R A G u s"
  have "?s1\<lparr>main_uri0 := main_uri0 ?s1\<rparr> = ?s1" by simp
  then have m: "?s1\<lparr>main_uri0 := Some u\<rparr> = ?s1" by simp
  have "\<forall>i < length (main_playlists0 ?s1). truthy (uri (heap0 ?s1 (main_playlists0 ?s1 ! i)))"
    using addPropertiesToMain_char(1) [OF ts, of R A G u]
    by (simp add: top_playlist_fields_truthy)
  then have "placeholder_uris0 ?s1 = ?s1" by (rule placeholder_uris_id)
  then show ?thesis unfolding stage1_def m .
qed

lemma addPropertiesToMain_again_entry:
  assumes ts: "tree_shaped0 s"
    and G: "\<forall>t g l p. G t g l p \<noteq> []"
    and stable: "A (placeholder_uris0 (s\<lparr>main_uri0 := Some u\<rparr>)) \<longrightarrow> A (addPropertiesToMain0 R A G u s)"
    and e: "(d, t, g, l) \<in> set (media_group_entries0 s)"
  shows "heap0 (addPropertiesToMain0 R A G u (addPropertiesToMain0 R A G u s)) d =
           heap0 (addPropertiesToMain0 R A G u s) d"
    and "\<forall>x \<in> set (group_playlists0 (addPropertiesToMain0 R A G u s) d).
           heap0 (addPropertiesToMain0 R A G u (addPropertiesToMain0 R A G u s)) x =
           heap0 (addPropertiesToMain0 R A G u s) x"
    and "\<not> unpopulated (playlists (heap0 (addPropertiesToMain0 R A G u s) d)) \<or>
         suppressed0 (A (addPropertiesToMain0 R A G u s)) (addPropertiesToMain0 R A G u s) d t g"
proof -
  let ?s1 = "addPropertiesToMain0 R A G u s"
  let ?s2 = "addPropertiesToMain0 R A G u ?s1"
  let ?a1 = "A (stage1 u s)"
  let ?a2 = "A ?s1"
  have ts1: "tree_shaped0 ?s1" using ts by (rule addPropertiesToMain_tree_shaped)
  have st: "stage1 u ?s1 = ?s1" using ts by (rule addPropertiesToMain_stage1_again)
  have F1: "finished R G ?a1 u s ?s1 (d, t, g, l)"
    using addPropertiesToMain_char(2) [OF ts, of R G A u] e by blast
  have "finished R G (A (stage1 u ?s1)) u ?s1 ?s2 (d, t, g, l)"
    using addPropertiesToMain_char(2) [OF ts1, of R G A u] e by simp
  then have F2: "finished R G ?a2 u ?s1 ?s2 (d, t, g, l)" unfolding st .
  have idem: "group_playlist_fields R G (Some u) t g l i
      (group_playlist_fields R G (Some u) t g l i p) =
      group_playlist_fields R G (Some u) t g l i p" for i p
    using G by (intro group_playlist_fields_idem) simp
  have "heap0 ?s2 d = heap0 ?s1 d \<and>
        (\<forall>x \<in> set (group_playlists0 ?s1 d). heap0 ?s2 x = heap0 ?s1 x) \<and>
        (\<not> unpopulated (playlists (heap0 ?s1 d)) \<or> suppressed0 ?a2 ?s1 d t g)"
  proof (cases "unpopulated (playlists (heap0 s d))")
    case False
    with F1 have h1: "heap0 ?s1 d = with_resolved R (Some u) (heap0 s d)"
      and v1: "\<forall>i < length (group_playlists0 s d). heap0 ?s1 (group_playlists0 s d ! i) =
          group_playlist_fields R G (Some u) t g l i (heap0 s (group_playlists0 s d ! i))"
      by (simp_all add: finished_def)
    from h1 have p1: "playlists (heap0 ?s1 d) = playlists (heap0 s d)" by simp
    then have gp1: "group_playlists0 ?s1 d = group_playlists0 s d"
      by (simp add: group_playlists0_def)
    from p1 False have pop1: "\<not> unpopulated (playlists (heap0 ?s1 d))" by simp
    with F2 have h2: "heap0 ?s2 d = with_resolved R (Some u) (heap0 ?s1 d)"
      and v2: "\<forall>i < length (group_playlists0 s d). heap0 ?s2 (group_playlists0 s d ! i) =
          group_playlist_fields R G (Some u) t g l i (heap0 ?s1 (group_playlists0 s d ! i))"
      by (simp_all add: finished_def gp1)
    have "heap0 ?s2 d = heap0 ?s1 d" unfolding h2 h1 by (rule with_resolved_idem)
    moreover have "\<forall>x \<in> set (group_playlists0 ?s1 d). heap0 ?s2 x = heap0 ?s1 x"
      unfolding gp1
    proof
      fix x assume "x \<in> set (group_playlists0 s d)"
      then obtain i where i: "i < length (group_playlists0 s d)" "x = group_playlists0 s d ! i"
        by (auto simp: in_set_conv_nth)
      with v1 v2 show "heap0 ?s2 x = heap0 ?s1 x" by (simp add: idem)
    qed
    ultimately show ?thesis using pop1 by blast
  next
    case True
    show ?thesis
    proof (cases "suppressed0 ?a1 s d t g")
      case sup: True
      with True F1 have h1: "heap0 ?s1 d = heap0 s d" by (simp add: finished_def)
      then have un1: "unpopulated (playlists (heap0 ?s1 d))" using True by simp
      from sup have "?a1" "t = ''AUDIO''" "\<not> truthy (uri (heap0 s d))" "in_main_playlists0 s g"
        by (simp_all add: suppressed0_def)
      moreover from \<open>?a1\<close> stable have "?a2" by (simp add: stage1_def)
      moreover have "in_main_playlists0 ?s1 g"
        using ts \<open>in_main_playlists0 s g\<close> by (rule addPropertiesToMain_in_main_playlists)
      ultimately have sup1: "suppressed0 ?a2 ?s1 d t g"
        by (simp add: suppressed0_def h1)
      with un1 F2 have "heap0 ?s2 d = heap0 ?s1 d" by (simp add: finished_def)
      moreover have "group_playlists0 ?s1 d = []"
        using un1 by (rule unpopulated_group_playlists)
      ultimately show ?thesis using sup1 by simp
    next
      case False
      with True F1 obtain c where c: "nxt0 s \<le> c"
        "heap0 ?s1 d = with_resolved R (Some u) ((heap0 s d)\<lparr>playlists := Some [c]\<rparr>)"
        "heap0 ?s1 c = group_playlist_fields R G (Some u) t g l 0 (heap0 s d)"
        by (auto simp: finished_def)
      from c(2) have p1: "playlists (heap0 ?s1 d) = Some [c]" by simp
      then have gp1: "group_playlists0 ?s1 d = [c]" by (simp add: group_playlists0_def)
      from p1 have pop1: "\<not> unpopulated (playlists (heap0 ?s1 d))"
        by (simp add: unpopulated_def)
      with F2 have h2: "heap0 ?s2 d = with_resolved R (Some u) (heap0 ?s1 d)"
        and v2: "heap0 ?s2 c = group_playlist_fields R G (Some u) t g l 0 (heap0 ?s1 c)"
        by (simp_all add: finished_def gp1)
      have "heap0 ?s2 d = heap0 ?s1 d"
        unfolding h2 by (subst (1 2) c(2)) (rule with_resolved_idem)
      moreover have "heap0 ?s2 c = heap0 ?s1 c" unfolding v2 c(3) by (rule idem)
      ultimately show ?thesis using pop1 gp1 by simp
    qed
  qed
  then show "heap0 ?s2 d = heap0 ?s1 d"
    and "\<forall>x \<in> set (group_playlists0 ?s1 d). heap0 ?s2 x = heap0 ?s1 x"
    and "\<not> unpopulated (playlists (heap0 ?s1 d)) \<or> suppressed0 ?a2 ?s1 d t g"
    by blast+
qed

text \<open>
  A second call of \<^verbatim>\<open>addPropertiesToMain\<close> with the same uri and the same
  \<^verbatim>\<open>createGroupID\<close> leaves every object, the elements of \<^verbatim>\<open>main.playlists\<close>, the
  table and the media groups as the first call left them and creates no object,
  provided that \<^verbatim>\<open>createGroupID\<close> never returns the empty string and that
  \<^verbatim>\<open>isAudioOnly\<close>, if it held at line 289 of the first call, holds of the result.
  The warnings that \<^verbatim>\<open>setupMediaPlaylists\<close> logs are no part of the statement.
\<close>

lemma idempotent0:
  assumes ts: "tree_shaped0 s"
    and G: "\<forall>t g l p. G t g l p \<noteq> []"
    and stable: "A (placeholder_uris0 (s\<lparr>main_uri0 := Some u\<rparr>)) \<longrightarrow> A (addPropertiesToMain0 R A G u s)"
  shows "let s1 = addPropertiesToMain0 R A G u s; s2 = addPropertiesToMain0 R A G u s1
         in heap0 s2 = heap0 s1 \<and> nxt0 s2 = nxt0 s1 \<and>
            main_playlists0 s2 = main_playlists0 s1 \<and>
            main_playlists_key0 s2 = main_playlists_key0 s1 \<and>
            mediaGroups0 s2 = mediaGroups0 s1 \<and>
            main_uri0 s2 = main_uri0 s1 \<and> main_resolvedUri0 s2 = main_resolvedUri0 s1"
proof -
  let ?s1 = "addPropertiesToMain0 R A G u s"
  let ?s2 = "addPropertiesToMain0 R A G u ?s1"
  let ?es = "media_group_entries0 s"
  let ?mp = "main_playlists0 s"
  have ts1: "tree_shaped0 ?s1" using ts by (rule addPropertiesToMain_tree_shaped)
  have st: "stage1 u ?s1 = ?s1" using ts by (rule addPropertiesToMain_stage1_again)
  note E = addPropertiesToMain_again_entry [OF ts G stable]
  have ok1: "walk_ok ?s1 ?es" using ts1 by (simp add: tree_shaped_walk_ok)
  have st2: "stage2 R A G u ?s1 = walk R G (A ?s1) ?es ?s1"
    by (simp add: stage2_def st)
  have quiet: "\<forall>e \<in> set ?es. \<not> unpopulated (playlists (heap0 ?s1 (fst e))) \<or>
      suppressed0 (A ?s1) ?s1 (fst e) (fst (snd e)) (fst (snd (snd e)))"
  proof
    fix e assume e: "e \<in> set ?es"
    obtain d t g l where "e = (d, t, g, l)" by (cases e)
    with e E(3) [of d t g l]
    show "\<not> unpopulated (playlists (heap0 ?s1 (fst e))) \<or>
      suppressed0 (A ?s1) ?s1 (fst e) (fst (snd e)) (fst (snd (snd e)))"
      by simp
  qed
  note NA = walk_no_alloc [OF ok1 quiet, of R G]
  have nxt_eq: "nxt0 ?s2 = nxt0 ?s1"
    unfolding addPropertiesToMain_nxt [of R A G u ?s1] st2 using NA by simp
  have top: "heap0 ?s2 x = heap0 ?s1 x" if "x \<in> set ?mp" for x
  proof -
    from that obtain i where i: "i < length ?mp" "x = ?mp ! i"
      by (auto simp: in_set_conv_nth)
    have "heap0 ?s1 x = top_playlist_fields R (Some u) i (with_placeholder i (heap0 s x))"
      using addPropertiesToMain_char(1) [OF ts, of R A G u] i by simp
    moreover have "heap0 ?s2 x = top_playlist_fields R (Some u) i (with_placeholder i (heap0 ?s1 x))"
      using addPropertiesToMain_char(1) [OF ts1, of R A G u] i by simp
    ultimately show ?thesis by (simp add: top_playlist_fields_idem)
  qed
  have other: "heap0 ?s2 x = heap0 ?s1 x"
    if x: "x \<notin> set ?mp" "x \<notin> fst ` set ?es"
      "\<forall>e \<in> set ?es. x \<notin> set (group_playlists0 ?s1 (fst e))" for x
  proof -
    have "heap0 ?s2 x = heap0 (stage3 R A G u ?s1) x"
      using x(2) by (simp add: addPropertiesToMain_heap)
    also have "\<dots> = heap0 (stage2 R A G u ?s1) x"
    proof -
      have "distinct (main_playlists0 (stage2 R A G u ?s1))"
        using tree_shapedD(1) [OF ts] by simp
      from setupMediaPlaylists_char [OF this, of R] x(1) show ?thesis
        by (simp add: stage3_def)
    qed
    also have "\<dots> = heap0 ?s1 x"
    proof (cases "x < nxt0 ?s1")
      case True
      show ?thesis unfolding st2
      proof (rule walk_heap_other [OF True], intro ballI conjI)
        fix e assume e: "e \<in> set ?es"
        show "fst e < nxt0 ?s1" using tree_shapedD(6) [OF ts1] e by simp
        show "x \<noteq> fst e" using x(2) e by blast
        show "x \<notin> set (group_playlists0 ?s1 (fst e))" using x(3) e by blast
      qed
    next
      case False
      then show ?thesis unfolding st2 using NA by simp
    qed
    finally show ?thesis .
  qed
  have heap_eq: "heap0 ?s2 = heap0 ?s1"
  proof
    fix x
    consider "x \<in> set ?mp" | "x \<in> fst ` set ?es"
      | e where "e \<in> set ?es" "x \<in> set (group_playlists0 ?s1 (fst e))"
      | "x \<notin> set ?mp" "x \<notin> fst ` set ?es"
        "\<forall>e \<in> set ?es. x \<notin> set (group_playlists0 ?s1 (fst e))"
      by blast
    then show "heap0 ?s2 x = heap0 ?s1 x"
    proof cases
      case 1
      then show ?thesis by (rule top)
    next
      case 2
      then obtain t g l where "(x, t, g, l) \<in> set ?es" by force
      then show ?thesis by (rule E(1))
    next
      case 3
      obtain d t g l where "e = (d, t, g, l)" by (cases e)
      with 3 E(2) [of d t g l] show ?thesis by simp
    next
      case 4
      then show ?thesis by (rule other)
    qed
  qed
  have gp_eq: "group_playlists0 ?s2 = group_playlists0 ?s1"
    by (intro ext) (simp add: group_playlists0_def heap_eq)
  have k1: "main_playlists_key0 ?s1 =
      writes (heap0 ?s1) (concat (map (group_playlists0 ?s1) (map fst ?es)) @ rev ?mp)
        (main_playlists_key0 s)"
    by (rule addPropertiesToMain_char(3) [OF ts])
  have k2: "main_playlists_key0 ?s2 =
      writes (heap0 ?s1) (concat (map (group_playlists0 ?s1) (map fst ?es)) @ rev ?mp)
        (main_playlists_key0 ?s1)"
    using addPropertiesToMain_char(3) [OF ts1, of R A G u]
    unfolding gp_eq heap_eq by simp
  have key_eq: "main_playlists_key0 ?s2 = main_playlists_key0 ?s1"
    unfolding k2 by (subst (1 2) k1) (rule writes_idem)
  show ?thesis
    unfolding Let_def using heap_eq nxt_eq key_eq
    by (simp add: addPropertiesToMain_same_doc)
qed

lemma truthy_simps:
  "truthy None = False" "truthy (Some s) = (s \<noteq> [])"
  by (simp_all add: truthy_def)

section \<open>The two runs\<close>

text \<open>
  The functions of the source return, on a state whose array holds the elements of a
  state \<open>t\<close>, the state that the functions ending in \<open>0\<close> compute from \<open>t\<close>, as long
  as every id and uri of the store and every group id is a plain key: each assignment
  to \<^verbatim>\<open>main.playlists\<close> is then an update of the table, and the objects keep plain
  keys along the run.
\<close>

lemma and_then_simps [simp]:
  "and_then (Inl e) f = Inl e" "and_then (Inr a) f = f a"
  by (simp_all add: and_then_def)

lemma for_each_sim:
  assumes step: "\<And>a t. a \<in> set as \<Longrightarrow> I t \<Longrightarrow> f a (e t) = Inr (e (f0 a t)) \<and> I (f0 a t)"
    and init: "I t"
  shows "for_each f as (e t) = Inr (e (fold f0 as t)) \<and> I (fold f0 as t)"
  using assms
proof (induction as arbitrary: t)
  case Nil
  then show ?case by simp
next
  case (Cons a as)
  have 1: "f a (e t) = Inr (e (f0 a t))" and 2: "I (f0 a t)"
    using Cons.prems(1) [of a t] Cons.prems(2) by simp_all
  have "for_each f as (e (f0 a t)) = Inr (e (fold f0 as (f0 a t))) \<and> I (fold f0 as (f0 a t))"
    using Cons.prems(1) 2 by (intro Cons.IH) simp_all
  with 1 show ?case by simp
qed

lemma dash_plain: "CHR ''-'' \<in> set k \<Longrightarrow> plain_key k"
proof -
  assume d: "CHR ''-'' \<in> set k"
  have "\<not> is_digit CHR ''-''" by (simp add: is_digit_def)
  with d have "\<not> list_all is_digit k"
    unfolding list_all_iff by blast
  then have "array_index k = None" by (simp add: array_index_def)
  moreover have "CHR ''-'' \<notin> set ''length''" "CHR ''-'' \<notin> set ''__proto__''" by simp_all
  with d have "k \<noteq> ''length''" "k \<noteq> ''__proto__''" by blast+
  ultimately show ?thesis by (simp add: plain_key_def)
qed

lemma createPlaylistID_plain: "plain_key (createPlaylistID i v)"
  by (rule dash_plain) (simp add: createPlaylistID_def)

lemma placeholder_plain: "plain_key (''placeholder-uri-'' @ k)"
  by (rule dash_plain) simp

lemma undefined_plain: "plain_key (to_str None)"
proof -
  have "\<not> is_digit CHR ''u''" by (simp add: is_digit_def)
  then have "array_index ''undefined'' = None" by (simp add: array_index_def)
  then show ?thesis by (simp add: to_str_def plain_key_def)
qed

lemma emb_simps [simp]:
  "heap (emb pr t) = heap0 t" "nxt (emb pr t) = nxt0 t" "main_uri (emb pr t) = main_uri0 t"
  "main_resolvedUri (emb pr t) = main_resolvedUri0 t"
  "main_playlists (emb pr t) = map Some (main_playlists0 t)"
  "main_playlists_key (emb pr t) = main_playlists_key0 t"
  "main_playlists_proto (emb pr t) = pr"
  "mediaGroups (emb pr t) = mediaGroups0 t" "log_warn (emb pr t) = log_warn0 t"
  by (simp_all add: emb_def)

lemma emb_updates:
  "(emb pr t)\<lparr>heap := h\<rparr> = emb pr (t\<lparr>heap0 := h\<rparr>)"
  "(emb pr t)\<lparr>nxt := n\<rparr> = emb pr (t\<lparr>nxt0 := n\<rparr>)"
  "(emb pr t)\<lparr>main_uri := v\<rparr> = emb pr (t\<lparr>main_uri0 := v\<rparr>)"
  "(emb pr t)\<lparr>main_playlists_key := k\<rparr> = emb pr (t\<lparr>main_playlists_key0 := k\<rparr>)"
  "(emb pr t)\<lparr>log_warn := w\<rparr> = emb pr (t\<lparr>log_warn0 := w\<rparr>)"
  by (simp_all add: emb_def)

lemma playlists_at_emb:
  "i < length (main_playlists0 t) \<Longrightarrow> playlists_at (emb pr t) i = Some (main_playlists0 t ! i)"
  by (simp add: playlists_at_def)

lemma playlists_assign_plain:
  "plain_key k \<Longrightarrow>
   playlists_assign k (Some r) (emb pr t) =
     Inr (emb pr (t\<lparr>main_playlists_key0 := (main_playlists_key0 t)(k \<mapsto> r)\<rparr>))"
  by (simp add: playlists_assign_def plain_key_def emb_updates)

lemma media_group_entries_emb [simp]: "media_group_entries (emb pr t) = media_group_entries0 t"
  by (simp add: media_group_entries_def media_group_entries0_def)

lemma group_playlists_emb [simp]: "group_playlists (emb pr t) d = group_playlists0 t d"
  by (simp add: group_playlists_def group_playlists0_def)

lemma to_str_plain_cases:
  "plain_key (to_str v) \<Longrightarrow> plain_key (to_str w) \<Longrightarrow> plain_key (to_str (or_else v w))"
  by (simp add: or_else_def)

lemma group_playlist_fields_plain:
  assumes "plain_group_ids G"
    and "plain_key (to_str (id' p))" and "plain_key (to_str (uri p))"
  shows "plain_key (to_str (id' (group_playlist_fields R G b t g l i p)))"
    and "plain_key (to_str (uri (group_playlist_fields R G b t g l i p)))"
proof -
  have G: "plain_key (G t g l p)" using assms(1) by (simp add: plain_group_ids_def)
  have c: "plain_key (to_str (Some (createPlaylistID i (Some (G t g l p)))))"
    by (simp add: to_str_def createPlaylistID_plain)
  show "plain_key (to_str (id' (group_playlist_fields R G b t g l i p)))"
    unfolding group_playlist_fields_simps using assms(2) c by (rule to_str_plain_cases)
  show "plain_key (to_str (uri (group_playlist_fields R G b t g l i p)))"
    unfolding group_playlist_fields_simps using assms(3) G c by (simp add: to_str_def)
qed

lemma plain_keys_emb:
  "plain_keys (emb pr t) \<longleftrightarrow>
     (\<forall>x. plain_key (to_str (id' (heap0 t x))) \<and> plain_key (to_str (uri (heap0 t x))))"
  by (simp add: plain_keys_def)

lemma plain_keys_update:
  assumes "plain_keys (emb pr t)"
    and "plain_key (to_str (id' p))" and "plain_key (to_str (uri p))"
    and "heap0 t' = (heap0 t)(r := p)"
  shows "plain_keys (emb pr' t')"
  using assms by (simp add: plain_keys_emb)

lemma plain_keysD:
  "plain_keys (emb pr t) \<Longrightarrow> plain_key (to_str (id' (heap0 t x)))"
  "plain_keys (emb pr t) \<Longrightarrow> plain_key (to_str (uri (heap0 t x)))"
  by (simp_all add: plain_keys_emb)

lemma group_playlist_body_sim:
  assumes G: "plain_group_ids G" and inv: "plain_keys (emb pr s)"
  shows "group_playlist_body R G t g l ir (emb pr s) =
           Inr (emb pr (group_playlist_body0 R G t g l ir s)) \<and>
         plain_keys (emb pr (group_playlist_body0 R G t g l ir s))"
proof -
  let ?p = "group_playlist_fields R G (main_uri0 s) t g l (fst ir) (heap0 s (snd ir))"
  note P = group_playlist_fields_plain [where p = "heap0 s (snd ir)" and R = R
      and b = "main_uri0 s" and t = t and g = g and l = l and i = "fst ir",
      OF G plain_keysD(1) [OF inv] plain_keysD(2) [OF inv]]
  have 1: "group_playlist_body R G t g l ir (emb pr s) =
           Inr (emb pr (group_playlist_body0 R G t g l ir s))"
    using P
    by (simp add: group_playlist_body_def group_playlist_body0_def Let_def emb_updates
        playlists_assign_plain)
  have 2: "plain_keys (emb pr (group_playlist_body0 R G t g l ir s))"
    using inv P(1) P(2)
    by (rule plain_keys_update) (simp add: group_playlist_body0_def Let_def)
  from 1 2 show ?thesis ..
qed

lemma forEach_playlists_sim:
  assumes G: "plain_group_ids G" and inv: "plain_keys (emb pr s)"
  shows "forEach_playlists R G d t g l (emb pr s) =
           Inr (emb pr (forEach_playlists0 R G d t g l s)) \<and>
         plain_keys (emb pr (forEach_playlists0 R G d t g l s))"
  unfolding forEach_playlists_def forEach_playlists0_def group_playlists_emb
  by (rule for_each_sim [where I = "\<lambda>t. plain_keys (emb pr t)"])
    (simp_all add: group_playlist_body_sim [OF G] inv)

lemma in_main_playlists_sim:
  "in_main_playlists h g (map Some xs) =
     Inr (\<exists>r \<in> set xs. case attributes (h r) of
            None \<Rightarrow> False
          | Some a \<Rightarrow> truthy_attr (a ''AUDIO'') \<and> a ''AUDIO'' = Some (AStr g))"
  by (induction xs) auto

lemma assign_copy_sim: "assign_copy d (emb pr s) = emb pr (synthesize d s)"
  by (simp add: assign_copy_def synthesize_def Let_def emb_def)

lemma synthesize_plain_keys:
  "plain_keys (emb pr s) \<Longrightarrow> plain_keys (emb pr (synthesize d s))"
  by (simp add: plain_keys_emb synthesize_heap)

lemma media_group_body_sim:
  assumes G: "plain_group_ids G" and inv: "plain_keys (emb pr s)"
  shows "media_group_body R G a d t g l (emb pr s) =
           Inr (emb pr (media_group_body0 R G a d t g l s)) \<and>
         plain_keys (emb pr (media_group_body0 R G a d t g l s))"
proof -
  note F = forEach_playlists_sim [OF G inv, of R d t g l]
  note F' = forEach_playlists_sim [OF G synthesize_plain_keys [OF inv], of R d t g l d]
  show ?thesis
  proof (cases "unpopulated (playlists (heap0 s d))")
    case False
    with F show ?thesis
      by (simp add: media_group_body_def media_group_body_unfold)
  next
    case True
    show ?thesis
    proof (cases "suppressed0 a s d t g")
      case sup: True
      then have "in_main_playlists (heap0 s) g (map Some (main_playlists0 s)) = Inr True"
        by (simp add: suppressed0_def in_main_playlists0_def in_main_playlists_sim)
      with True sup inv show ?thesis
        by (simp add: media_group_body_def media_group_body_unfold suppressed0_def)
    next
      case False
      have "media_group_body R G a d t g l (emb pr s) =
          forEach_playlists R G d t g l (assign_copy d (emb pr s))"
      proof (cases "a \<and> t = ''AUDIO'' \<and> \<not> truthy (uri (heap0 s d))")
        case c: True
        with False have "in_main_playlists (heap0 s) g (map Some (main_playlists0 s)) = Inr False"
          by (simp add: suppressed0_def in_main_playlists0_def in_main_playlists_sim)
        with True c show ?thesis by (simp add: media_group_body_def)
      next
        case c: False
        with True show ?thesis by (simp add: media_group_body_def) blast
      qed
      with True False F' show ?thesis
        by (simp add: media_group_body_unfold assign_copy_sim)
    qed
  qed
qed

lemma forEachMediaGroup_sim:
  assumes G: "plain_group_ids G" and inv: "plain_keys (emb pr s)"
  shows "forEachMediaGroup (media_group_body R G a) (emb pr s) =
           Inr (emb pr (walk R G a (media_group_entries0 s) s)) \<and>
         plain_keys (emb pr (walk R G a (media_group_entries0 s) s))"
  unfolding forEachMediaGroup_def walk_def media_group_entries_emb
  by (rule for_each_sim [where I = "\<lambda>t. plain_keys (emb pr t)"])
    (auto simp: media_group_body_sim [OF G] inv)

lemma to_str_Some: "to_str (Some k) = k"
  by (simp add: to_str_def)

lemma placeholder_uri_body_sim:
  assumes "i < length (main_playlists0 s)" and inv: "plain_keys (emb pr s)"
  shows "placeholder_uri_body i (emb pr s) = Inr (emb pr (placeholder_uri_body0 i s)) \<and>
         plain_keys (emb pr (placeholder_uri_body0 i s)) \<and>
         main_playlists0 (placeholder_uri_body0 i s) = main_playlists0 s"
proof -
  have 1: "placeholder_uri_body i (emb pr s) = Inr (emb pr (placeholder_uri_body0 i s))"
    using assms(1)
    by (simp add: placeholder_uri_body_def placeholder_uri_body0_def playlists_at_emb Let_def
        emb_updates)
  have 2: "plain_keys (emb pr (placeholder_uri_body0 i s))"
  proof (cases "truthy (uri (heap0 s (main_playlists0 s ! i)))")
    case True
    with inv show ?thesis by (simp add: placeholder_uri_body0_def Let_def)
  next
    case False
    let ?r = "main_playlists0 s ! i"
    let ?p = "(heap0 s ?r)\<lparr>uri := Some (''placeholder-uri-'' @ string_of_nat i)\<rparr>"
    have a: "plain_key (to_str (id' ?p))" using plain_keysD(1) [OF inv, of ?r] by simp
    have "plain_key (to_str (Some (''placeholder-uri-'' @ string_of_nat i)))"
      unfolding to_str_Some by (rule placeholder_plain)
    then have b: "plain_key (to_str (uri ?p))" by simp
    from inv a b show ?thesis
      by (rule plain_keys_update) (simp add: placeholder_uri_body0_def Let_def False)
  qed
  from 1 2 show ?thesis by simp
qed

lemma placeholder_uris_sim:
  assumes inv: "plain_keys (emb pr s)"
  shows "placeholder_uris (emb pr s) = Inr (emb pr (placeholder_uris0 s)) \<and>
         plain_keys (emb pr (placeholder_uris0 s))"
proof -
  have "for_each placeholder_uri_body [0..<length (main_playlists0 s)] (emb pr s) =
      Inr (emb pr (fold placeholder_uri_body0 [0..<length (main_playlists0 s)] s)) \<and>
      (plain_keys (emb pr (fold placeholder_uri_body0 [0..<length (main_playlists0 s)] s)) \<and>
       main_playlists0 (fold placeholder_uri_body0 [0..<length (main_playlists0 s)] s) =
         main_playlists0 s)"
    by (rule for_each_sim [where I = "\<lambda>t. plain_keys (emb pr t) \<and>
          main_playlists0 t = main_playlists0 s"])
      (simp_all add: placeholder_uri_body_sim inv)
  then show ?thesis by (simp add: placeholder_uris_def placeholder_uris0_def)
qed

lemma setupMediaPlaylist_sim:
  "setupMediaPlaylist r v i (emb pr s) = emb pr (setupMediaPlaylist0 r v i s)"
  by (simp add: setupMediaPlaylist_def setupMediaPlaylist0_def Let_def emb_updates)

lemma setupMediaPlaylists_body_sim:
  assumes "i < length (main_playlists0 s)" and inv: "plain_keys (emb pr s)"
  shows "setupMediaPlaylists_body R i (emb pr s) = Inr (emb pr (setupMediaPlaylists_body0 R i s)) \<and>
         plain_keys (emb pr (setupMediaPlaylists_body0 R i s)) \<and>
         main_playlists0 (setupMediaPlaylists_body0 R i s) = main_playlists0 s"
proof -
  let ?r = "main_playlists0 s ! i"
  have u: "plain_key (to_str (uri (heap0 s ?r)))" using inv by (rule plain_keysD)
  have h: "heap0 (setupMediaPlaylists_body0 R i s) =
      (heap0 s)(?r := top_playlist_fields R (main_uri0 s) i (heap0 s ?r))"
    by (rule setupMediaPlaylists_body_heap)
  have 1: "setupMediaPlaylists_body R i (emb pr s) = Inr (emb pr (setupMediaPlaylists_body0 R i s))"
    using assms(1) u
    by (simp add: setupMediaPlaylists_body_def setupMediaPlaylists_body0_def playlists_at_emb
        Let_def setupMediaPlaylist_sim emb_updates playlists_assign_plain setupMediaPlaylist0_def
        truthy_def to_str_def createPlaylistID_plain)
  have 2: "plain_keys (emb pr (setupMediaPlaylists_body0 R i s))"
    using inv u
    by (simp add: plain_keys_emb h top_playlist_fields_def to_str_def createPlaylistID_plain)
  from 1 2 show ?thesis by simp
qed

lemma setupMediaPlaylists_sim:
  assumes inv: "plain_keys (emb pr s)"
  shows "setupMediaPlaylists R (emb pr s) = Inr (emb pr (setupMediaPlaylists0 R s)) \<and>
         plain_keys (emb pr (setupMediaPlaylists0 R s))"
proof -
  have "for_each (setupMediaPlaylists_body R) (rev [0..<length (main_playlists0 s)]) (emb pr s) =
      Inr (emb pr (fold (setupMediaPlaylists_body0 R) (rev [0..<length (main_playlists0 s)]) s)) \<and>
      (plain_keys (emb pr (fold (setupMediaPlaylists_body0 R)
          (rev [0..<length (main_playlists0 s)]) s)) \<and>
       main_playlists0 (fold (setupMediaPlaylists_body0 R) (rev [0..<length (main_playlists0 s)]) s) =
         main_playlists0 s)"
    by (rule for_each_sim [where I = "\<lambda>t. plain_keys (emb pr t) \<and>
          main_playlists0 t = main_playlists0 s"])
      (simp_all add: setupMediaPlaylists_body_sim inv)
  then show ?thesis by (simp add: setupMediaPlaylists_def setupMediaPlaylists0_def)
qed

lemma resolve_entry_sim:
  "(case e of (d, mediaType, groupKey, labelKey) \<Rightarrow> \<lambda>t.
      Inr (if truthy (uri (heap t d))
           then t\<lparr>heap := (heap t)(d :=
                  (heap t d)\<lparr>resolvedUri := R (main_uri t) (uri (heap t d))\<rparr>)\<rparr>
           else t)) (emb pr s) = Inr (emb pr (resolve_entry R e s))"
  by (cases e) (simp add: resolve_entry_def emb_updates)

lemma resolveMediaGroupUris_sim:
  assumes inv: "plain_keys (emb pr s)"
  shows "resolveMediaGroupUris R (emb pr s) = Inr (emb pr (resolveMediaGroupUris0 R s)) \<and>
         plain_keys (emb pr (resolveMediaGroupUris0 R s))"
  unfolding resolveMediaGroupUris_def forEachMediaGroup_def media_group_entries_emb
    resolveMediaGroupUris_fold
  by (rule for_each_sim [where I = "\<lambda>t. plain_keys (emb pr t)"])
    (simp_all add: resolve_entry_sim inv, simp add: plain_keys_emb resolve_entry_def)

lemma addPropertiesToMain_sim:
  assumes G: "plain_group_ids G" and inv: "plain_keys (emb pr s)"
  shows "addPropertiesToMain R A G u (emb pr s) =
           Inr (emb pr (addPropertiesToMain0 R (\<lambda>t. A (emb pr t)) G u s)) \<and>
         plain_keys (emb pr (addPropertiesToMain0 R (\<lambda>t. A (emb pr t)) G u s))"
proof -
  let ?A = "\<lambda>t. A (emb pr t)"
  have inv0: "plain_keys (emb pr (s\<lparr>main_uri0 := Some u\<rparr>))"
    using inv by (simp add: plain_keys_emb)
  note 1 = placeholder_uris_sim [OF inv0]
  have s1: "placeholder_uris0 (s\<lparr>main_uri0 := Some u\<rparr>) = stage1 u s" by (simp add: stage1_def)
  note 2 = forEachMediaGroup_sim [OF G conjunct2 [OF 1], of R "?A (stage1 u s)"]
  have s2: "walk R G (?A (stage1 u s)) (media_group_entries0 (stage1 u s)) (stage1 u s) =
      stage2 R ?A G u s"
    by (simp add: stage2_def)
  note 3 = setupMediaPlaylists_sim [OF conjunct2 [OF 2], of R]
  note 4 = resolveMediaGroupUris_sim [OF conjunct2 [OF 3], of R]
  have r: "addPropertiesToMain0 R ?A G u s =
      resolveMediaGroupUris0 R (setupMediaPlaylists0 R (stage2 R ?A G u s))"
    by (simp add: addPropertiesToMain_stages stage3_def)
  have "addPropertiesToMain R A G u (emb pr s) = Inr (emb pr (addPropertiesToMain0 R ?A G u s))"
    unfolding addPropertiesToMain_def emb_updates r
    using 1 2 3 4 unfolding s1 s2 by simp
  moreover have "plain_keys (emb pr (addPropertiesToMain0 R ?A G u s))"
    unfolding r using 4 unfolding s1 s2 by simp
  ultimately show ?thesis ..
qed

lemma elements_of_map_Some [simp]: "elements_of (map Some xs) = xs"
  by (induction xs) simp_all

lemma map_Some_elements_of: "None \<notin> set ps \<Longrightarrow> map Some (elements_of ps) = ps"
  by (induction ps rule: elements_of.induct) simp_all

lemma elements_emb [simp]: "elements (emb pr t) = main_playlists0 t"
  by (simp add: elements_def)

lemma plain_simps [simp]:
  "heap0 (plain s) = heap s" "nxt0 (plain s) = nxt s" "main_uri0 (plain s) = main_uri s"
  "main_resolvedUri0 (plain s) = main_resolvedUri s" "main_playlists0 (plain s) = elements s"
  "main_playlists_key0 (plain s) = main_playlists_key s"
  "mediaGroups0 (plain s) = mediaGroups s" "log_warn0 (plain s) = log_warn s"
  by (simp_all add: plain_def)

lemma emb_plain:
  "None \<notin> set (main_playlists s) \<Longrightarrow> emb (main_playlists_proto s) (plain s) = s"
  by (simp add: emb_def elements_def map_Some_elements_of)

lemma media_group_entries_plain [simp]: "media_group_entries0 (plain s) = media_group_entries s"
  by (simp add: media_group_entries_def media_group_entries0_def)

lemma group_playlists_plain [simp]: "group_playlists0 (plain s) = group_playlists s"
  by (intro ext) (simp add: group_playlists_def group_playlists0_def)

lemma tree_shaped_plain:
  assumes "tree_shaped s"
  shows "tree_shaped0 (plain s)" and "None \<notin> set (main_playlists s)"
  using assms
  by (simp_all add: tree_shaped_def tree_shaped0_def all_refs_def all_refs0_def entry_refs_def
      entry_refs0_def)

lemma plain_keys_emb_plain: "plain_keys (emb pr (plain s)) = plain_keys s"
  by (simp add: plain_keys_def)

text \<open>The run of the source's function, for a manifest whose keys are plain.\<close>

lemma addPropertiesToMain_plain:
  assumes "None \<notin> set (main_playlists s)" and "plain_keys s" and "plain_group_ids G"
  shows "addPropertiesToMain R A G u s =
           Inr (emb (main_playlists_proto s)
             (addPropertiesToMain0 R (\<lambda>t. A (emb (main_playlists_proto s) t)) G u (plain s)))"
    and "plain_keys (emb (main_playlists_proto s)
             (addPropertiesToMain0 R (\<lambda>t. A (emb (main_playlists_proto s) t)) G u (plain s)))"
  using addPropertiesToMain_sim [OF assms(3), of "main_playlists_proto s" "plain s" R A u]
    assms(2) by (simp_all add: plain_keys_emb_plain emb_plain [OF assms(1)])

lemma audio_only_main_plain:
  assumes "None \<notin> set (main_playlists s)" and "plain_keys s"
  shows "audio_only_main A u s =
         A (emb (main_playlists_proto s) (placeholder_uris0 ((plain s)\<lparr>main_uri0 := Some u\<rparr>)))"
proof -
  have "s\<lparr>main_uri := Some u\<rparr> =
      emb (main_playlists_proto s) ((plain s)\<lparr>main_uri0 := Some u\<rparr>)"
    using emb_plain [OF assms(1)] by (metis emb_updates(3))
  moreover have "plain_keys (emb (main_playlists_proto s) ((plain s)\<lparr>main_uri0 := Some u\<rparr>))"
    using assms(2) by (simp add: plain_keys_def)
  ultimately show ?thesis
    using placeholder_uris_sim [of "main_playlists_proto s" "(plain s)\<lparr>main_uri0 := Some u\<rparr>"]
    by (simp add: audio_only_main_def)
qed

lemma in_main_playlists0_plain:
  "in_main_playlists0 (plain s) g \<longleftrightarrow> audio_group_of_element s g \<and> g \<noteq> []"
proof -
  have per: "(case attributes p of
                None \<Rightarrow> False
              | Some a \<Rightarrow> truthy_attr (a ''AUDIO'') \<and> a ''AUDIO'' = Some (AStr g)) \<longleftrightarrow>
             (\<exists>a. attributes p = Some a \<and> a ''AUDIO'' = Some (AStr g)) \<and> g \<noteq> []" for p
    by (cases "attributes p") (auto simp: truthy_attr_def)
  show ?thesis
    unfolding in_main_playlists0_def audio_group_of_element_def per by auto
qed

lemma playlists_lookup_emb:
  "playlists_lookup (emb pr t) k =
     (if plain_key k then main_playlists_key0 t k
      else playlists_lookup (emb pr (t\<lparr>main_playlists_key0 := Map.empty\<rparr>)) k)"
  by (simp add: playlists_lookup_def plain_key_def playlists_at_def split: option.splits)

section \<open>The manifest after mainForMedia and addPropertiesToMain\<close>

text \<open>The definitions that an example unfolds to run the source's functions on it.\<close>

lemmas run_defs =
  addPropertiesToMain_def placeholder_uris_def placeholder_uri_body_def forEachMediaGroup_def
  media_group_entries_def setupMediaPlaylists_def setupMediaPlaylists_body_def
  setupMediaPlaylist_def resolveMediaGroupUris_def media_group_body_def forEach_playlists_def
  group_playlist_body_def group_playlist_fields_def group_playlists_def unpopulated_def
  assign_copy_def playlists_at_def playlists_assign_def array_index_def is_digit_def
  digit_value_def numeral_value_def createPlaylistID_def groupID_def to_str_def truthy_def
  or_else_def truthy_attr_def string_of_nat.simps digit_char_def Let_def

lemma t1:
  "(case addPropertiesToMain join_url (\<lambda>s. False) default_group_id ''http://x/m.m3u8''
      index_uri_state of Inl e \<Rightarrow> False | Inr s1 \<Rightarrow> main_playlists s1 = [Some 0, Some 0] \<and>
        main_playlists_key s1 ''1-1'' = None)"
  by (simp add: run_defs index_uri_state_def no_fields_def join_url_def default_group_id_def)

lemma playlists_assign_own:
  "plain_key k \<Longrightarrow>
   playlists_assign k v s = Inr (s\<lparr>main_playlists_key := (main_playlists_key s)(k := v)\<rparr>)"
  by (simp add: playlists_assign_def plain_key_def)

lemma playlists_lookup_own: "plain_key k \<Longrightarrow> playlists_lookup s k = main_playlists_key s k"
  by (simp add: playlists_lookup_def plain_key_def)

text \<open>
  Claim C8. For a uri that is a plain key, \<^verbatim>\<open>mainForMedia\<close> returns a manifest whose
  \<^verbatim>\<open>playlists\<close> hold one new object, at index 0, under the id \<^verbatim>\<open>0-uri\<close> and under
  the uri, with an empty \<^verbatim>\<open>attributes\<close> object; the four media group categories are
  present and empty, and the manifest's uri is \<^verbatim>\<open>window.location.href\<close>.
\<close>

theorem mainForMedia_document:
  assumes "plain_key u"
  shows "\<exists>s'. mainForMedia href media u s = Inr s' \<and>
           (let r = nxt s; i = createPlaylistID 0 (Some u)
            in i = ''0-'' @ u \<and>
               main_playlists s' = [Some r] \<and> playlists_at s' 0 = Some r \<and>
               playlists_lookup s' i = Some r \<and> playlists_lookup s' u = Some r \<and>
               dom (main_playlists_key s') = {i, u} \<and> main_playlists_proto s' = None \<and>
               heap s' = (heap s)(r := \<lparr>uri = Some u, resolvedUri = Some u, id' = Some i,
                                        playlistErrors = None, attributes = Some Map.empty,
                                        playlists = None\<rparr>) \<and>
               (case mediaGroups s' of
                  None \<Rightarrow> False
                | Some mg \<Rightarrow>
                    dom mg = {''AUDIO'', ''VIDEO'', ''CLOSED-CAPTIONS'', ''SUBTITLES''} \<and>
                    mg ''AUDIO'' = Some [] \<and> mg ''VIDEO'' = Some [] \<and>
                    mg ''CLOSED-CAPTIONS'' = Some [] \<and> mg ''SUBTITLES'' = Some []) \<and>
               main_uri s' = Some href \<and> main_resolvedUri s' = Some href)"
proof -
  have i: "plain_key (createPlaylistID 0 (Some u))" by (rule createPlaylistID_plain)
  have i_eq: "createPlaylistID 0 (Some u) = ''0-'' @ u"
    by (simp add: createPlaylistID_def to_str_def string_of_nat.simps digit_char_def)
  have md: "dom [''AUDIO'' \<mapsto> ([] :: (string \<times> (string \<times> ref) list) list), ''VIDEO'' \<mapsto> [],
                 ''CLOSED-CAPTIONS'' \<mapsto> [], ''SUBTITLES'' \<mapsto> []] =
            {''AUDIO'', ''VIDEO'', ''CLOSED-CAPTIONS'', ''SUBTITLES''}"
    by auto
  show ?thesis
    unfolding mainForMedia_def Let_def
    by (simp add: playlists_at_def playlists_assign_own i assms playlists_lookup_own md)
      (auto simp: i_eq)
qed

theorem mainForMedia_document_witness:
  "\<exists>s'. mainForMedia ''http://x/'' () ''m.m3u8'' empty_store = Inr s' \<and>
         main_playlists s' = [Some 0] \<and> playlists_lookup s' ''0-m.m3u8'' = Some 0 \<and>
         playlists_lookup s' ''m.m3u8'' = Some 0"
proof -
  have p: "plain_key ''m.m3u8''"
    by (simp add: plain_key_def array_index_def is_digit_def)
  have n: "nxt empty_store = 0" by (simp add: empty_store_def)
  have i: "createPlaylistID 0 (Some ''m.m3u8'') = ''0-m.m3u8''"
    by (simp add: createPlaylistID_def to_str_def string_of_nat.simps digit_char_def)
  from mainForMedia_document [OF p, of "''http://x/''" "()" empty_store]
  obtain s' where "mainForMedia ''http://x/'' () ''m.m3u8'' empty_store = Inr s'"
    and "main_playlists s' = [Some 0]" and "playlists_lookup s' ''0-m.m3u8'' = Some 0"
    and "playlists_lookup s' ''m.m3u8'' = Some 0"
    unfolding Let_def n i by blast
  then show ?thesis by blast
qed

theorem mainForMedia_document_counterexample:
  "mainForMedia ''http://x/'' () ''length'' empty_store = Inl RangeError \<and>
   (case mainForMedia ''http://x/'' () ''1'' empty_store of
      Inl e \<Rightarrow> False
    | Inr s' \<Rightarrow> main_playlists s' = [Some 0, Some 0])"
  by (simp add: mainForMedia_def Let_def playlists_at_def playlists_assign_def array_index_def
      is_digit_def digit_value_def numeral_value_def createPlaylistID_def to_str_def
      string_of_nat.simps digit_char_def empty_store_def)

lemma default_group_id_plain: "plain_group_ids default_group_id"
  unfolding plain_group_ids_def default_group_id_def groupID_def
  by (intro allI placeholder_plain)

lemma nondigit_plain:
  assumes "c \<in> set k" and "\<not> is_digit c" and "c \<notin> set ''length''" and "c \<notin> set ''__proto__''"
  shows "plain_key k"
proof -
  from assms(1,2) have "\<not> list_all is_digit k" unfolding list_all_iff by blast
  then have "array_index k = None" by (simp add: array_index_def)
  moreover from assms(1,3,4) have "k \<noteq> ''length''" "k \<noteq> ''__proto__''" by blast+
  ultimately show ?thesis by (simp add: plain_key_def)
qed

lemma dot_plain: "CHR ''.'' \<in> set k \<Longrightarrow> plain_key k"
  by (rule nondigit_plain [where c = "CHR ''.''"]) (simp_all add: is_digit_def)

lemma example_plain_keys:
  "plain_key ''undefined''" "plain_key ''kept''" "plain_key ''custom''" "plain_key ''a''"
  "plain_key ''b''"
  by (simp_all add: plain_key_def array_index_def is_digit_def)

lemma example_state_tree_shaped: "tree_shaped example_state"
  by (simp add: tree_shaped_def all_refs_def entry_refs_def elements_def media_group_entries_def
      group_playlists_def example_state_def no_fields_def)

lemma example_state_plain_keys: "plain_keys example_state"
  by (simp add: plain_keys_def example_state_def no_fields_def to_str_def dot_plain
      example_plain_keys)

lemma addPropertiesToMain_returns:
  assumes ts: "tree_shaped s" and pk: "plain_keys s" and G: "plain_group_ids G"
  shows "addPropertiesToMain R A G u s =
           Inr (emb (main_playlists_proto s)
             (addPropertiesToMain0 R (\<lambda>t. A (emb (main_playlists_proto s) t)) G u (plain s)))"
  using addPropertiesToMain_plain(1) [OF tree_shaped_plain(2) [OF ts] pk G] .

text \<open>
  Claim C7. In a tree-shaped manifest with plain keys, an object that is no element of
  \<^verbatim>\<open>main.playlists\<close> and carries a non-empty \<^verbatim>\<open>id\<close> keeps it through
  \<^verbatim>\<open>addPropertiesToMain\<close>; the element at index \<open>i\<close> is given the id
  \<^verbatim>\<open>createPlaylistID(i, uri)\<close>, where the uri is its own or, if it has none,
  \<^verbatim>\<open>placeholder-uri-i\<close>.
\<close>

theorem addPropertiesToMain_keeps_id:
  assumes "tree_shaped s" and "plain_keys s" and "plain_group_ids G"
  shows "\<exists>s'. addPropertiesToMain R A G u s = Inr s' \<and>
           (\<forall>x. x < nxt s \<and> x \<notin> set (elements s) \<and> truthy (id' (heap s x)) \<longrightarrow>
                id' (heap s' x) = id' (heap s x)) \<and>
           (\<forall>i < length (elements s).
              id' (heap s' (elements s ! i)) =
                Some (createPlaylistID i
                  (if truthy (uri (heap s (elements s ! i))) then uri (heap s (elements s ! i))
                   else Some (''placeholder-uri-'' @ string_of_nat i))))"
proof -
  let ?pr = "main_playlists_proto s"
  let ?A = "\<lambda>t. A (emb ?pr t)"
  let ?t' = "addPropertiesToMain0 R ?A G u (plain s)"
  have run: "addPropertiesToMain R A G u s = Inr (emb ?pr ?t')"
    using assms by (rule addPropertiesToMain_returns)
  have a: "id' (heap0 ?t' x) = id' (heap s x)"
    if "x < nxt s" "x \<notin> set (elements s)" "truthy (id' (heap s x))" for x
    using keeps_id0 [of x "plain s" R ?A G u] that by simp
  have b: "id' (heap0 ?t' (elements s ! i)) =
      Some (createPlaylistID i
        (if truthy (uri (heap s (elements s ! i))) then uri (heap s (elements s ! i))
         else Some (''placeholder-uri-'' @ string_of_nat i)))"
    if "i < length (elements s)" for i
    using addPropertiesToMain_char(1) [OF tree_shaped_plain(1) [OF assms(1)], of R ?A G u] that
    by (simp add: top_playlist_fields_def with_placeholder_def)
  show ?thesis
    using run a b by (intro exI [of _ "emb ?pr ?t'"]) simp
qed

theorem addPropertiesToMain_keeps_id_witness:
  "\<exists>s'. addPropertiesToMain join_url (\<lambda>s. False) default_group_id ''http://x/m.m3u8''
           example_state = Inr s' \<and>
         id' (heap s' 5) = Some ''kept'' \<and> id' (heap s' 0) = Some ''0-video.m3u8'' \<and>
         id' (heap s' 1) = Some ''1-placeholder-uri-1''"
proof -
  from addPropertiesToMain_keeps_id [OF example_state_tree_shaped example_state_plain_keys
      default_group_id_plain, of join_url "\<lambda>s. False" "''http://x/m.m3u8''"]
  obtain s' where run: "addPropertiesToMain join_url (\<lambda>s. False) default_group_id
        ''http://x/m.m3u8'' example_state = Inr s'"
    and a: "\<forall>x. x < nxt example_state \<and> x \<notin> set (elements example_state) \<and>
          truthy (id' (heap example_state x)) \<longrightarrow> id' (heap s' x) = id' (heap example_state x)"
    and b: "\<forall>i < length (elements example_state).
              id' (heap s' (elements example_state ! i)) =
                Some (createPlaylistID i
                  (if truthy (uri (heap example_state (elements example_state ! i)))
                   then uri (heap example_state (elements example_state ! i))
                   else Some (''placeholder-uri-'' @ string_of_nat i)))"
    by blast
  have e: "elements example_state = [0, 1]" by (simp add: elements_def example_state_def)
  from a [rule_format, of 5] have "id' (heap s' 5) = Some ''kept''"
    by (simp add: e) (simp add: example_state_def no_fields_def truthy_def)
  moreover from b [rule_format, of 0] have "id' (heap s' 0) = Some ''0-video.m3u8''"
    by (simp add: e) (simp add: example_state_def no_fields_def truthy_def createPlaylistID_def
        to_str_def string_of_nat.simps digit_char_def)
  moreover from b [rule_format, of 1] have "id' (heap s' 1) = Some ''1-placeholder-uri-1''"
    by (simp add: e) (simp add: example_state_def no_fields_def truthy_def createPlaylistID_def
        to_str_def string_of_nat.simps digit_char_def)
  ultimately show ?thesis using run by blast
qed

theorem addPropertiesToMain_keeps_id_counterexample:
  "id' (heap duplicate_uri_state 1) = Some ''custom'' \<and>
   (case addPropertiesToMain join_url (\<lambda>s. False) default_group_id ''http://x/m.m3u8''
           duplicate_uri_state of
      Inl e \<Rightarrow> False
    | Inr s' \<Rightarrow> id' (heap s' 1) = Some ''1-a'')"
  by (simp add: run_defs duplicate_uri_state_def no_fields_def join_url_def default_group_id_def)

lemma playlists_lookup_transfer:
  assumes "main_playlists s' = main_playlists s"
    and "main_playlists_proto s' = main_playlists_proto s"
    and "main_playlists_key s' k = Some d \<longrightarrow> main_playlists_key s k = Some d"
    and "playlists_lookup s' k = Some d"
  shows "playlists_lookup s k = Some d"
  using assms
  by (simp add: playlists_lookup_def playlists_at_def split: option.splits if_splits)

lemma suppression0:
  assumes ts: "tree_shaped s" and pk: "plain_keys s"
    and "audio_only_main A u s"
    and "(d, ''AUDIO'', g, l) \<in> set (media_group_entries s)"
    and "unpopulated (playlists (heap s d))"
    and "\<not> truthy (uri (heap s d))"
    and "audio_group_of_element s g" and "g \<noteq> []"
  shows "heap0 (addPropertiesToMain0 R (\<lambda>t. A (emb (main_playlists_proto s) t)) G u (plain s)) d =
           heap s d \<and>
         d \<notin> set (elements s) \<and>
         (\<forall>k. main_playlists_key0
                (addPropertiesToMain0 R (\<lambda>t. A (emb (main_playlists_proto s) t)) G u (plain s)) k =
                Some d \<longrightarrow> main_playlists_key s k = Some d)"
proof -
  let ?A = "\<lambda>t. A (emb (main_playlists_proto s) t)"
  have a: "?A (placeholder_uris0 ((plain s)\<lparr>main_uri0 := Some u\<rparr>))"
    using assms(3) audio_only_main_plain [OF tree_shaped_plain(2) [OF ts] pk, of A u] by simp
  have m: "in_main_playlists0 (plain s) g"
    using assms(7,8) by (simp add: in_main_playlists0_plain)
  from suppressed_unmodified0 [where s = "plain s" and A = ?A and R = R and G = G and u = u
      and d = d and g = g and l = l, OF tree_shaped_plain(1) [OF ts] a]
    assms(4,5,6) m
  show ?thesis by simp
qed

text \<open>
  Claim C5. In a tree-shaped manifest with plain keys for which \<^verbatim>\<open>isAudioOnly\<close> holds
  on line 289, an AUDIO rendition without nested playlists and without uri, whose
  group key is not empty and is the \<^verbatim>\<open>attributes.AUDIO\<close> of an element of
  \<^verbatim>\<open>main.playlists\<close>, still has no nested playlists after \<^verbatim>\<open>addPropertiesToMain\<close>.
\<close>

theorem addPropertiesToMain_audio_only_suppression:
  assumes "tree_shaped s" and "plain_keys s" and "plain_group_ids G"
    and "audio_only_main A u s"
    and "(d, ''AUDIO'', g, l) \<in> set (media_group_entries s)"
    and "unpopulated (playlists (heap s d))"
    and "\<not> truthy (uri (heap s d))"
    and "audio_group_of_element s g" and "g \<noteq> []"
  shows "\<exists>s'. addPropertiesToMain R A G u s = Inr s' \<and> unpopulated (playlists (heap s' d))"
proof -
  let ?pr = "main_playlists_proto s"
  let ?t' = "addPropertiesToMain0 R (\<lambda>t. A (emb ?pr t)) G u (plain s)"
  have run: "addPropertiesToMain R A G u s = Inr (emb ?pr ?t')"
    using assms(1-3) by (rule addPropertiesToMain_returns)
  have "heap0 ?t' d = heap s d"
    using suppression0 [OF assms(1,2,4-9), of R G] by (rule conjunct1)
  with assms(6) run show ?thesis by (intro exI [of _ "emb ?pr ?t'"]) simp
qed

lemma example_state_rendition:
  "(2, ''AUDIO'', ''aud'', ''en'') \<in> set (media_group_entries example_state)"
  "unpopulated (playlists (heap example_state 2))"
  "\<not> truthy (uri (heap example_state 2))"
  "audio_group_of_element example_state ''aud''"
  "audio_only_main (\<lambda>s. True) ''http://x/m.m3u8'' example_state"
  "heap example_state 2 = no_fields"
  by (simp_all add: media_group_entries_def example_state_def unpopulated_def no_fields_def
      truthy_def audio_group_of_element_def elements_def audio_only_main_def placeholder_uris_def
      placeholder_uri_body_def playlists_at_def)

theorem addPropertiesToMain_audio_only_suppression_witness:
  "\<exists>s'. addPropertiesToMain join_url (\<lambda>s. True) default_group_id ''http://x/m.m3u8''
           example_state = Inr s' \<and> unpopulated (playlists (heap s' 2))"
proof -
  have "''aud'' \<noteq> []" by simp
  from addPropertiesToMain_audio_only_suppression [OF example_state_tree_shaped
      example_state_plain_keys default_group_id_plain example_state_rendition(5,1,2,3,4) this,
      of join_url]
  show ?thesis .
qed

theorem addPropertiesToMain_audio_only_suppression_counterexample:
  "tree_shaped displaced_state \<and>
   audio_only_main (\<lambda>s. True) ''http://x/m.m3u8'' displaced_state \<and>
   (2, ''AUDIO'', ''grp'', ''label'') \<in> set (media_group_entries displaced_state) \<and>
   unpopulated (playlists (heap displaced_state 2)) \<and>
   \<not> truthy (uri (heap displaced_state 2)) \<and>
   audio_group_of_element displaced_state ''grp'' \<and>
   (case addPropertiesToMain join_url (\<lambda>s. True) default_group_id ''http://x/m.m3u8''
           displaced_state of
      Inl e \<Rightarrow> False
    | Inr s' \<Rightarrow> playlists (heap s' 2) = Some [4])"
proof (intro conjI)
  show "case addPropertiesToMain join_url (\<lambda>s. True) default_group_id ''http://x/m.m3u8''
           displaced_state of
      Inl e \<Rightarrow> False
    | Inr s' \<Rightarrow> playlists (heap s' 2) = Some [4]"
    by (simp add: run_defs displaced_state_def no_fields_def join_url_def default_group_id_def)
qed (simp_all add: tree_shaped_def all_refs_def entry_refs_def elements_def
    media_group_entries_def group_playlists_def displaced_state_def no_fields_def
    unpopulated_def truthy_def audio_group_of_element_def audio_only_main_def
    placeholder_uris_def placeholder_uri_body_def playlists_at_def)

text \<open>
  Claim C10. Such a rendition is the same object after \<^verbatim>\<open>addPropertiesToMain\<close> as
  before: no field is added or changed, it is no element of \<^verbatim>\<open>main.playlists\<close>, and
  every key under which \<^verbatim>\<open>main.playlists\<close> holds it afterwards held it before.
\<close>

theorem addPropertiesToMain_suppressed_unmodified:
  assumes "tree_shaped s" and "plain_keys s" and "plain_group_ids G"
    and "audio_only_main A u s"
    and "(d, ''AUDIO'', g, l) \<in> set (media_group_entries s)"
    and "unpopulated (playlists (heap s d))"
    and "\<not> truthy (uri (heap s d))"
    and "audio_group_of_element s g" and "g \<noteq> []"
  shows "\<exists>s'. addPropertiesToMain R A G u s = Inr s' \<and>
           heap s' d = heap s d \<and> d \<notin> set (elements s') \<and>
           (\<forall>k. playlists_lookup s' k = Some d \<longrightarrow> playlists_lookup s k = Some d)"
proof -
  let ?pr = "main_playlists_proto s"
  let ?t' = "addPropertiesToMain0 R (\<lambda>t. A (emb ?pr t)) G u (plain s)"
  have run: "addPropertiesToMain R A G u s = Inr (emb ?pr ?t')"
    using assms(1-3) by (rule addPropertiesToMain_returns)
  note S = suppression0 [OF assms(1,2,4-9), of R G]
  have mp: "main_playlists (emb ?pr ?t') = main_playlists s"
    using emb_plain [OF tree_shaped_plain(2) [OF assms(1)]]
    by (simp add: elements_def map_Some_elements_of tree_shaped_plain(2) [OF assms(1)])
  have "playlists_lookup s k = Some d" if "playlists_lookup (emb ?pr ?t') k = Some d" for k
    using mp _ _ that
  proof (rule playlists_lookup_transfer)
    show "main_playlists_proto (emb ?pr ?t') = main_playlists_proto s" by simp
    show "main_playlists_key (emb ?pr ?t') k = Some d \<longrightarrow> main_playlists_key s k = Some d"
      using S by simp
  qed
  with S run show ?thesis by (intro exI [of _ "emb ?pr ?t'"]) simp
qed

theorem addPropertiesToMain_suppressed_unmodified_witness:
  "\<exists>s'. addPropertiesToMain join_url (\<lambda>s. True) default_group_id ''http://x/m.m3u8''
           example_state = Inr s' \<and>
         heap s' 2 = no_fields \<and> 2 \<notin> set (elements s') \<and>
         (\<forall>k. playlists_lookup s' k \<noteq> Some 2)"
proof -
  have g: "''aud'' \<noteq> []" by simp
  have l: "\<forall>k. playlists_lookup example_state k \<noteq> Some 2"
    by (simp add: playlists_lookup_def playlists_at_def example_state_def nth_Cons'
        split: option.splits)
  from addPropertiesToMain_suppressed_unmodified [OF example_state_tree_shaped
      example_state_plain_keys default_group_id_plain example_state_rendition(5,1,2,3,4) g,
      of join_url]
  obtain s' where "addPropertiesToMain join_url (\<lambda>s. True) default_group_id
        ''http://x/m.m3u8'' example_state = Inr s'"
    and "heap s' 2 = heap example_state 2" and "2 \<notin> set (elements s')"
    and "\<forall>k. playlists_lookup s' k = Some 2 \<longrightarrow> playlists_lookup example_state k = Some 2"
    by blast
  with l example_state_rendition(6) show ?thesis by (intro exI [of _ s']) auto
qed

theorem addPropertiesToMain_suppressed_unmodified_counterexample:
  "heap displaced_state 2 = no_fields \<and>
   playlists_lookup displaced_state ''0'' = Some 0 \<and>
   (case addPropertiesToMain join_url (\<lambda>s. True) default_group_id ''http://x/m.m3u8''
           displaced_state of
      Inl e \<Rightarrow> False
    | Inr s' \<Rightarrow>
        heap s' 2 = no_fields\<lparr>playlists := Some [4]\<rparr> \<and>
        playlists_lookup s' ''0'' = Some 3 \<and>
        playlists_lookup s' ''placeholder-uri-AUDIO-grp-label'' = Some 4)"
  by (simp add: run_defs displaced_state_def no_fields_def join_url_def default_group_id_def
      playlists_lookup_def)

lemma suppressed0_plain:
  assumes "tree_shaped s" and "plain_keys s"
  shows "suppressed0 (A (emb (main_playlists_proto s)
            (placeholder_uris0 ((plain s)\<lparr>main_uri0 := Some u\<rparr>)))) (plain s) d t g \<longleftrightarrow>
         audio_only_main A u s \<and> t = ''AUDIO'' \<and> \<not> truthy (uri (heap s d)) \<and>
         audio_group_of_element s g \<and> g \<noteq> []"
  unfolding suppressed0_def in_main_playlists0_plain
    audio_only_main_plain [OF tree_shaped_plain(2) [OF assms(1)] assms(2)]
  by simp

text \<open>
  Claim C6. In a tree-shaped manifest with plain keys, for the nested playlist at index
  \<open>i\<close> of a rendition, \<^verbatim>\<open>addPropertiesToMain\<close> leaves a truthy \<^verbatim>\<open>uri\<close> as it is, keeps a
  truthy \<^verbatim>\<open>resolvedUri\<close> and otherwise sets \<^verbatim>\<open>resolvedUri\<close> to the resolved uri;
  without a uri, \<^verbatim>\<open>uri\<close> and \<^verbatim>\<open>resolvedUri\<close> both become the group id at index 0 and
  \<^verbatim>\<open>createPlaylistID(i, groupId)\<close> at the other indices. The same holds, at index 0,
  for the copy that line 307 makes of a rendition without nested playlists, unless
  the rendition is left out on line 302.
\<close>

theorem addPropertiesToMain_group_playlist_uri:
  assumes "tree_shaped s" and "plain_keys s" and "plain_group_ids G"
    and "(d, t, g, l) \<in> set (media_group_entries s)"
  shows "\<exists>s'. addPropertiesToMain R A G u s = Inr s' \<and>
           (\<forall>i < length (group_playlists s d).
              group_playlist_uris R G u t g l i (heap s (group_playlists s d ! i))
                (heap s' (group_playlists s d ! i))) \<and>
           (unpopulated (playlists (heap s d)) \<longrightarrow>
              (audio_only_main A u s \<and> t = ''AUDIO'' \<and> \<not> truthy (uri (heap s d)) \<and>
               audio_group_of_element s g \<and> g \<noteq> []) \<or>
              (\<exists>c. nxt s \<le> c \<and> playlists (heap s' d) = Some [c] \<and>
                   group_playlist_uris R G u t g l 0 (heap s d) (heap s' c)))"
proof -
  let ?pr = "main_playlists_proto s"
  let ?A = "\<lambda>t. A (emb ?pr t)"
  let ?t' = "addPropertiesToMain0 R ?A G u (plain s)"
  have run: "addPropertiesToMain R A G u s = Inr (emb ?pr ?t')"
    using assms(1-3) by (rule addPropertiesToMain_returns)
  have e: "(d, t, g, l) \<in> set (media_group_entries0 (plain s))" using assms(4) by simp
  note U = group_playlist_uri0 [OF tree_shaped_plain(1) [OF assms(1)] e, of R G u ?A]
  show ?thesis
    using run U unfolding suppressed0_plain [OF assms(1,2)]
    by (intro exI [of _ "emb ?pr ?t'"]) simp
qed

theorem addPropertiesToMain_group_playlist_uri_witness:
  "\<exists>s'. addPropertiesToMain join_url (\<lambda>s. False) default_group_id ''http://x/m.m3u8''
           example_state = Inr s' \<and>
         uri (heap s' 5) = Some ''placeholder-uri-AUDIO-dash-main'' \<and>
         resolvedUri (heap s' 5) = Some ''placeholder-uri-AUDIO-dash-main'' \<and>
         uri (heap s' 6) = Some ''1-placeholder-uri-AUDIO-dash-main'' \<and>
         resolvedUri (heap s' 6) = Some ''1-placeholder-uri-AUDIO-dash-main'' \<and>
         uri (heap s' 7) = Some ''a.m3u8'' \<and>
         resolvedUri (heap s' 7) = Some ''http://x/m.m3u8#a.m3u8'' \<and>
         uri (heap s' 8) = Some ''b.m3u8'' \<and>
         resolvedUri (heap s' 8) = Some ''http://cdn/b.m3u8''"
proof -
  have mem: "(4, ''AUDIO'', ''dash'', ''main'') \<in> set (media_group_entries example_state)"
    by (simp add: media_group_entries_def example_state_def)
  have gp: "group_playlists example_state 4 = [5, 6, 7, 8]"
    by (simp add: group_playlists_def example_state_def no_fields_def)
  have h: "heap example_state 5 = no_fields\<lparr>id' := Some ''kept''\<rparr>"
    "heap example_state 6 = no_fields"
    "heap example_state 7 = no_fields\<lparr>uri := Some ''a.m3u8''\<rparr>"
    "heap example_state 8 =
       no_fields\<lparr>uri := Some ''b.m3u8'', resolvedUri := Some ''http://cdn/b.m3u8''\<rparr>"
    by (simp_all add: example_state_def)
  from addPropertiesToMain_group_playlist_uri [OF example_state_tree_shaped
      example_state_plain_keys default_group_id_plain mem,
      of join_url "\<lambda>s. False" "''http://x/m.m3u8''"]
  obtain s' where run: "addPropertiesToMain join_url (\<lambda>s. False) default_group_id
        ''http://x/m.m3u8'' example_state = Inr s'"
    and U: "\<forall>i < length [5, 6, 7, 8 :: nat].
      group_playlist_uris join_url default_group_id ''http://x/m.m3u8'' ''AUDIO'' ''dash'' ''main''
        i (heap example_state ([5, 6, 7, 8] ! i)) (heap s' ([5, 6, 7, 8] ! i))"
    unfolding gp by blast
  from U [rule_format, of 0] U [rule_format, of 1] U [rule_format, of 2] U [rule_format, of 3]
  have "uri (heap s' 5) = Some ''placeholder-uri-AUDIO-dash-main'' \<and>
         resolvedUri (heap s' 5) = Some ''placeholder-uri-AUDIO-dash-main'' \<and>
         uri (heap s' 6) = Some ''1-placeholder-uri-AUDIO-dash-main'' \<and>
         resolvedUri (heap s' 6) = Some ''1-placeholder-uri-AUDIO-dash-main'' \<and>
         uri (heap s' 7) = Some ''a.m3u8'' \<and>
         resolvedUri (heap s' 7) = Some ''http://x/m.m3u8#a.m3u8'' \<and>
         uri (heap s' 8) = Some ''b.m3u8'' \<and>
         resolvedUri (heap s' 8) = Some ''http://cdn/b.m3u8''"
    by (simp add: h group_playlist_uris_def no_fields_def truthy_def default_group_id_def Let_def
        groupID_def createPlaylistID_def to_str_def string_of_nat.simps digit_char_def
        join_url_def)
  with run show ?thesis by blast
qed

theorem addPropertiesToMain_group_playlist_uri_counterexample:
  "tree_shaped nested_index_state \<and>
   (1, ''AUDIO'', ''g'', ''l'') \<in> set (media_group_entries nested_index_state) \<and>
   group_playlists nested_index_state 1 = [2] \<and>
   uri (heap nested_index_state 2) = Some ''0'' \<and>
   resolvedUri (heap nested_index_state 2) = Some ''keep'' \<and>
   (case addPropertiesToMain join_url (\<lambda>s. False) default_group_id ''http://x/m.m3u8''
           nested_index_state of
      Inl e \<Rightarrow> False
    | Inr s' \<Rightarrow> main_playlists s' = [Some 2] \<and>
               resolvedUri (heap s' 2) = Some ''http://x/m.m3u8#0'')"
proof (intro conjI)
  show "case addPropertiesToMain join_url (\<lambda>s. False) default_group_id ''http://x/m.m3u8''
           nested_index_state of
      Inl e \<Rightarrow> False
    | Inr s' \<Rightarrow> main_playlists s' = [Some 2] \<and>
               resolvedUri (heap s' 2) = Some ''http://x/m.m3u8#0''"
    by (simp add: run_defs nested_index_state_def no_fields_def join_url_def default_group_id_def)
qed (simp_all add: tree_shaped_def all_refs_def entry_refs_def elements_def
    media_group_entries_def group_playlists_def nested_index_state_def no_fields_def)

lemma playlist_keys_plain:
  "plain_keys s \<Longrightarrow> k \<in> playlist_keys (heap s y) \<Longrightarrow> plain_key k"
  by (auto simp: plain_keys_def playlist_keys_def)

lemma playlists_lookup_frame:
  assumes "main_playlists s' = main_playlists s"
    and "main_playlists_proto s' = main_playlists_proto s" and "\<not> plain_key k"
  shows "playlists_lookup s' k = playlists_lookup s k"
  using assms
  by (auto simp: playlists_lookup_def playlists_at_def plain_key_def split: option.splits)

lemma addPropertiesToMain_table:
  assumes ts: "tree_shaped s" and pk: "plain_keys s" and G: "plain_group_ids G"
  shows "\<exists>s'. addPropertiesToMain R A G u s = Inr s' \<and> plain_keys s' \<and>
           main_playlists s' = main_playlists s \<and>
           main_playlists_proto s' = main_playlists_proto s \<and>
           main_playlists_key s' =
             writes (heap s') (registered s') (main_playlists_key s)"
proof -
  let ?pr = "main_playlists_proto s"
  let ?A = "\<lambda>t. A (emb ?pr t)"
  let ?t' = "addPropertiesToMain0 R ?A G u (plain s)"
  note d = tree_shaped_plain(2) [OF ts]
  have run: "addPropertiesToMain R A G u s = Inr (emb ?pr ?t')"
    using assms by (rule addPropertiesToMain_returns)
  have pk': "plain_keys (emb ?pr ?t')"
    using d pk G by (rule addPropertiesToMain_plain(2))
  have mp: "main_playlists (emb ?pr ?t') = main_playlists s"
    by (simp add: elements_def map_Some_elements_of d)
  have reg: "registered (emb ?pr ?t') =
      concat (map (group_playlists0 ?t') (map fst (media_group_entries0 (plain s)))) @
      rev (main_playlists0 (plain s))"
    by (simp add: registered_def entry_refs_def group_playlists_emb [abs_def])
  have "main_playlists_key (emb ?pr ?t') =
      writes (heap (emb ?pr ?t')) (registered (emb ?pr ?t')) (main_playlists_key s)"
    unfolding reg
    using addPropertiesToMain_char(3) [OF tree_shaped_plain(1) [OF ts], of R ?A G u] by simp
  with run pk' mp show ?thesis by (intro exI [of _ "emb ?pr ?t'"]) simp
qed

text \<open>
  Claim C1. After \<^verbatim>\<open>addPropertiesToMain\<close> on a tree-shaped manifest with plain keys,
  \<^verbatim>\<open>main.playlists[k]\<close> is, for every key \<open>k\<close>, the last of the registered objects that
  has \<open>k\<close> as its id or its uri, and what it was before when there is none. So a
  registered playlist is found under its id and under its uri when no other
  registered playlist has one of these two keys as its own id or uri. The playlist
  that \<^verbatim>\<open>mainForMedia\<close> wraps is found under both of its keys when the uri is a plain
  key.
\<close>

theorem addPropertiesToMain_lookup_table:
  assumes "tree_shaped s" and "plain_keys s" and "plain_group_ids G"
  shows "(\<exists>s'. addPropertiesToMain R A G u s = Inr s' \<and>
            (\<forall>k. playlists_lookup s' k =
                   (if \<exists>y \<in> set (registered s'). k \<in> playlist_keys (heap s' y)
                    then Some (last (filter (\<lambda>y. k \<in> playlist_keys (heap s' y)) (registered s')))
                    else playlists_lookup s k)) \<and>
            (\<forall>x \<in> set (registered s').
               (\<forall>y \<in> set (registered s'). y \<noteq> x \<longrightarrow>
                  playlist_keys (heap s' y) \<inter> playlist_keys (heap s' x) = {}) \<longrightarrow>
               playlists_lookup s' (to_str (id' (heap s' x))) = Some x \<and>
               playlists_lookup s' (to_str (uri (heap s' x))) = Some x)) \<and>
         (plain_key v \<longrightarrow>
            (\<exists>w. mainForMedia href media v st = Inr w \<and> registered w = [nxt st] \<and>
                 playlists_lookup w (to_str (id' (heap w (nxt st)))) = Some (nxt st) \<and>
                 playlists_lookup w (to_str (uri (heap w (nxt st)))) = Some (nxt st)))"
proof (rule conjI)
  from addPropertiesToMain_table [OF assms, of R A u]
  obtain s' where run: "addPropertiesToMain R A G u s = Inr s'" and pk': "plain_keys s'"
    and mp: "main_playlists s' = main_playlists s"
    and pr: "main_playlists_proto s' = main_playlists_proto s"
    and key: "main_playlists_key s' = writes (heap s') (registered s') (main_playlists_key s)"
    by blast
  have all: "playlists_lookup s' k =
      (if \<exists>y \<in> set (registered s'). k \<in> playlist_keys (heap s' y)
       then Some (last (filter (\<lambda>y. k \<in> playlist_keys (heap s' y)) (registered s')))
       else playlists_lookup s k)" for k
  proof (cases "plain_key k")
    case True
    then show ?thesis by (simp add: playlists_lookup_own key writes_apply)
  next
    case False
    with pk' have "\<not> (\<exists>y \<in> set (registered s'). k \<in> playlist_keys (heap s' y))"
      using playlist_keys_plain by blast
    with playlists_lookup_frame [OF mp pr False] show ?thesis by simp
  qed
  have one: "playlists_lookup s' (to_str (id' (heap s' x))) = Some x \<and>
      playlists_lookup s' (to_str (uri (heap s' x))) = Some x"
    if x: "x \<in> set (registered s')"
      and disj: "\<forall>y \<in> set (registered s'). y \<noteq> x \<longrightarrow>
        playlist_keys (heap s' y) \<inter> playlist_keys (heap s' x) = {}" for x
  proof -
    have "plain_key (to_str (id' (heap s' x)))" "plain_key (to_str (uri (heap s' x)))"
      using pk' by (simp_all add: plain_keys_def)
    moreover have "writes (heap s') (registered s') (main_playlists_key s)
          (to_str (id' (heap s' x))) = Some x \<and>
        writes (heap s') (registered s') (main_playlists_key s)
          (to_str (uri (heap s' x))) = Some x"
      using disj by (intro writes_reach) (simp_all add: x)
    ultimately show ?thesis by (simp add: playlists_lookup_own key)
  qed
  show "\<exists>s'. addPropertiesToMain R A G u s = Inr s' \<and>
            (\<forall>k. playlists_lookup s' k =
                   (if \<exists>y \<in> set (registered s'). k \<in> playlist_keys (heap s' y)
                    then Some (last (filter (\<lambda>y. k \<in> playlist_keys (heap s' y)) (registered s')))
                    else playlists_lookup s k)) \<and>
            (\<forall>x \<in> set (registered s').
               (\<forall>y \<in> set (registered s'). y \<noteq> x \<longrightarrow>
                  playlist_keys (heap s' y) \<inter> playlist_keys (heap s' x) = {}) \<longrightarrow>
               playlists_lookup s' (to_str (id' (heap s' x))) = Some x \<and>
               playlists_lookup s' (to_str (uri (heap s' x))) = Some x)"
    using run all one by (intro exI [of _ s']) blast
next
  show "plain_key v \<longrightarrow>
            (\<exists>w. mainForMedia href media v st = Inr w \<and> registered w = [nxt st] \<and>
                 playlists_lookup w (to_str (id' (heap w (nxt st)))) = Some (nxt st) \<and>
                 playlists_lookup w (to_str (uri (heap w (nxt st)))) = Some (nxt st))"
  proof
    assume v: "plain_key v"
    have i: "plain_key (createPlaylistID 0 (Some v))" by (rule createPlaylistID_plain)
    show "\<exists>w. mainForMedia href media v st = Inr w \<and> registered w = [nxt st] \<and>
                 playlists_lookup w (to_str (id' (heap w (nxt st)))) = Some (nxt st) \<and>
                 playlists_lookup w (to_str (uri (heap w (nxt st)))) = Some (nxt st)"
      unfolding mainForMedia_def Let_def
      by (simp add: playlists_at_def playlists_assign_own i v playlists_lookup_own
          registered_def entry_refs_def media_group_entries_def elements_def to_str_def)
  qed
qed

theorem addPropertiesToMain_lookup_table_witness:
  "\<exists>s'. addPropertiesToMain join_url (\<lambda>s. False) default_group_id ''http://x/m.m3u8''
           partly_duplicate_state = Inr s' \<and>
         uri (heap s' 0) = Some ''a'' \<and> uri (heap s' 1) = Some ''a'' \<and>
         playlists_lookup s' ''a'' = Some 0 \<and>
         playlists_lookup s' ''b'' = Some 2 \<and> playlists_lookup s' ''2-b'' = Some 2"
proof -
  have ts: "tree_shaped partly_duplicate_state"
    by (simp add: tree_shaped_def all_refs_def entry_refs_def elements_def media_group_entries_def
        group_playlists_def partly_duplicate_state_def no_fields_def)
  have pk: "plain_keys partly_duplicate_state"
    by (simp add: plain_keys_def partly_duplicate_state_def no_fields_def to_str_def
        example_plain_keys)
  have ev: "case addPropertiesToMain join_url (\<lambda>s. False) default_group_id ''http://x/m.m3u8''
           partly_duplicate_state of
      Inl e \<Rightarrow> False
    | Inr s' \<Rightarrow> registered s' = [2, 1, 0] \<and>
        playlist_keys (heap s' 0) = {''0-a'', ''a''} \<and>
        playlist_keys (heap s' 1) = {''1-a'', ''a''} \<and>
        playlist_keys (heap s' 2) = {''2-b'', ''b''} \<and>
        uri (heap s' 0) = Some ''a'' \<and> uri (heap s' 1) = Some ''a'' \<and>
        id' (heap s' 2) = Some ''2-b'' \<and> uri (heap s' 2) = Some ''b''"
    by (simp add: run_defs partly_duplicate_state_def no_fields_def join_url_def
        default_group_id_def registered_def entry_refs_def elements_def playlist_keys_def)
  from addPropertiesToMain_lookup_table [OF ts pk default_group_id_plain,
      of join_url "\<lambda>s. False" "''http://x/m.m3u8''" "''x''" "''''" "()" empty_store]
  obtain s' where run: "addPropertiesToMain join_url (\<lambda>s. False) default_group_id
        ''http://x/m.m3u8'' partly_duplicate_state = Inr s'"
    and all: "\<forall>k. playlists_lookup s' k =
                   (if \<exists>y \<in> set (registered s'). k \<in> playlist_keys (heap s' y)
                    then Some (last (filter (\<lambda>y. k \<in> playlist_keys (heap s' y)) (registered s')))
                    else playlists_lookup partly_duplicate_state k)"
    and one: "\<forall>x \<in> set (registered s').
               (\<forall>y \<in> set (registered s'). y \<noteq> x \<longrightarrow>
                  playlist_keys (heap s' y) \<inter> playlist_keys (heap s' x) = {}) \<longrightarrow>
               playlists_lookup s' (to_str (id' (heap s' x))) = Some x \<and>
               playlists_lookup s' (to_str (uri (heap s' x))) = Some x"
    by blast
  from ev run have reg: "registered s' = [2, 1, 0]"
    and k0: "playlist_keys (heap s' 0) = {''0-a'', ''a''}"
    and k1: "playlist_keys (heap s' 1) = {''1-a'', ''a''}"
    and k2: "playlist_keys (heap s' 2) = {''2-b'', ''b''}"
    and u: "uri (heap s' 0) = Some ''a''" "uri (heap s' 1) = Some ''a''"
    and f2: "id' (heap s' 2) = Some ''2-b''" "uri (heap s' 2) = Some ''b''"
    by simp_all
  have k1': "playlist_keys (heap s' (Suc 0)) = {''1-a'', ''a''}" using k1 by simp
  from all [rule_format, of "''a''"] have a: "playlists_lookup s' ''a'' = Some 0"
    by (simp add: reg k0 k1' k2)
  have x: "2 \<in> set (registered s')" by (simp add: reg)
  have disj: "\<forall>y \<in> set (registered s'). y \<noteq> 2 \<longrightarrow>
      playlist_keys (heap s' y) \<inter> playlist_keys (heap s' 2) = {}"
    unfolding reg by (simp add: k0 k1' k2)
  from one x disj have "playlists_lookup s' (to_str (id' (heap s' 2))) = Some 2 \<and>
      playlists_lookup s' (to_str (uri (heap s' 2))) = Some 2"
    by blast
  then have "playlists_lookup s' ''2-b'' = Some 2 \<and> playlists_lookup s' ''b'' = Some 2"
    by (simp add: f2 to_str_def)
  with run u a show ?thesis by blast
qed

theorem addPropertiesToMain_lookup_table_counterexample:
  "tree_shaped duplicate_uri_state \<and>
   (case addPropertiesToMain join_url (\<lambda>s. False) default_group_id ''http://x/m.m3u8''
           duplicate_uri_state of
      Inl e \<Rightarrow> False
    | Inr s' \<Rightarrow> 1 \<in> set (registered s') \<and> uri (heap s' 1) = Some ''a'' \<and>
        playlists_lookup s' ''1-a'' = Some 1 \<and> playlists_lookup s' ''a'' = Some 0)"
proof (intro conjI)
  show "tree_shaped duplicate_uri_state"
    by (simp add: tree_shaped_def all_refs_def entry_refs_def elements_def media_group_entries_def
        group_playlists_def duplicate_uri_state_def no_fields_def)
  show "case addPropertiesToMain join_url (\<lambda>s. False) default_group_id ''http://x/m.m3u8''
           duplicate_uri_state of
      Inl e \<Rightarrow> False
    | Inr s' \<Rightarrow> 1 \<in> set (registered s') \<and> uri (heap s' 1) = Some ''a'' \<and>
        playlists_lookup s' ''1-a'' = Some 1 \<and> playlists_lookup s' ''a'' = Some 0"
    by (simp add: run_defs duplicate_uri_state_def no_fields_def join_url_def
        default_group_id_def registered_def entry_refs_def elements_def playlists_lookup_def)
qed

text \<open>
  Claim C9. A second call of \<^verbatim>\<open>addPropertiesToMain\<close> with the same uri and the same
  \<^verbatim>\<open>createGroupID\<close> on a tree-shaped manifest with plain keys returns, and leaves every
  object, the array \<^verbatim>\<open>main.playlists\<close> with its keys, and the media groups as the first
  call left them and creates no object, provided that \<^verbatim>\<open>createGroupID\<close> never returns
  the empty string and that \<^verbatim>\<open>isAudioOnly\<close>, if it held on line 289 of the first call,
  holds of its result. The warnings that \<^verbatim>\<open>setupMediaPlaylists\<close> logs are no part of the
  statement.
\<close>

theorem addPropertiesToMain_idempotent:
  assumes "tree_shaped s" and "plain_keys s" and "plain_group_ids G"
    and "\<forall>t g l p. G t g l p \<noteq> []"
    and "audio_only_main A u s \<longrightarrow>
           (case addPropertiesToMain R A G u s of Inl e \<Rightarrow> False | Inr s1 \<Rightarrow> A s1)"
  shows "\<exists>s1 s2. addPropertiesToMain R A G u s = Inr s1 \<and>
           addPropertiesToMain R A G u s1 = Inr s2 \<and>
           heap s2 = heap s1 \<and> nxt s2 = nxt s1 \<and>
           main_playlists s2 = main_playlists s1 \<and>
           main_playlists_key s2 = main_playlists_key s1 \<and>
           main_playlists_proto s2 = main_playlists_proto s1 \<and>
           mediaGroups s2 = mediaGroups s1 \<and>
           main_uri s2 = main_uri s1 \<and> main_resolvedUri s2 = main_resolvedUri s1"
proof -
  let ?pr = "main_playlists_proto s"
  let ?A = "\<lambda>t. A (emb ?pr t)"
  let ?t1 = "addPropertiesToMain0 R ?A G u (plain s)"
  let ?t2 = "addPropertiesToMain0 R ?A G u ?t1"
  note d = tree_shaped_plain(2) [OF assms(1)]
  have run1: "addPropertiesToMain R A G u s = Inr (emb ?pr ?t1)"
    using assms(1-3) by (rule addPropertiesToMain_returns)
  have pk1: "plain_keys (emb ?pr ?t1)"
    using d assms(2,3) by (rule addPropertiesToMain_plain(2))
  have run2: "addPropertiesToMain R A G u (emb ?pr ?t1) = Inr (emb ?pr ?t2)"
    using addPropertiesToMain_sim [OF assms(3) pk1, of R A u] by simp
  have stable: "?A (placeholder_uris0 ((plain s)\<lparr>main_uri0 := Some u\<rparr>)) \<longrightarrow> ?A ?t1"
    using assms(5) unfolding audio_only_main_plain [OF d assms(2)] run1 by simp
  from idempotent0 [OF tree_shaped_plain(1) [OF assms(1)] assms(4) stable]
  have "heap0 ?t2 = heap0 ?t1 \<and> nxt0 ?t2 = nxt0 ?t1 \<and>
        main_playlists0 ?t2 = main_playlists0 ?t1 \<and>
        main_playlists_key0 ?t2 = main_playlists_key0 ?t1 \<and>
        mediaGroups0 ?t2 = mediaGroups0 ?t1 \<and>
        main_uri0 ?t2 = main_uri0 ?t1 \<and> main_resolvedUri0 ?t2 = main_resolvedUri0 ?t1"
    by (simp add: Let_def)
  with run1 run2 show ?thesis
    by (intro exI [of _ "emb ?pr ?t1"] exI [of _ "emb ?pr ?t2"]) simp
qed

theorem addPropertiesToMain_idempotent_witness:
  "\<exists>s1 s2. addPropertiesToMain join_url (\<lambda>s. True) default_group_id ''http://x/m.m3u8''
             example_state = Inr s1 \<and>
           addPropertiesToMain join_url (\<lambda>s. True) default_group_id ''http://x/m.m3u8'' s1 =
             Inr s2 \<and>
           heap s2 = heap s1 \<and> nxt s2 = nxt s1 \<and> main_playlists s2 = main_playlists s1 \<and>
           main_playlists_key s2 = main_playlists_key s1"
proof -
  have G: "\<forall>t g l p. default_group_id t g l p \<noteq> []"
    by (simp add: default_group_id_def groupID_def)
  have st: "audio_only_main (\<lambda>s. True) ''http://x/m.m3u8'' example_state \<longrightarrow>
      (case addPropertiesToMain join_url (\<lambda>s. True) default_group_id ''http://x/m.m3u8''
         example_state of Inl e \<Rightarrow> False | Inr s1 \<Rightarrow> (\<lambda>s. True) s1)"
    using addPropertiesToMain_returns [OF example_state_tree_shaped example_state_plain_keys
        default_group_id_plain, of join_url "\<lambda>s. True" "''http://x/m.m3u8''"]
    by simp
  from addPropertiesToMain_idempotent [OF example_state_tree_shaped example_state_plain_keys
      default_group_id_plain G st]
  show ?thesis by blast
qed

theorem addPropertiesToMain_idempotent_counterexample:
  "tree_shaped index_uri_state \<and>
   (case addPropertiesToMain join_url (\<lambda>s. False) default_group_id ''http://x/m.m3u8''
           index_uri_state of
      Inl e \<Rightarrow> False
    | Inr s1 \<Rightarrow>
        main_playlists s1 = [Some 0, Some 0] \<and> main_playlists_key s1 ''1-1'' = None \<and>
        (case addPropertiesToMain join_url (\<lambda>s. False) default_group_id ''http://x/m.m3u8'' s1 of
           Inl e \<Rightarrow> False
         | Inr s2 \<Rightarrow> main_playlists_key s2 ''1-1'' = Some 0)) \<and>
   tree_shaped nested_state \<and> plain_keys nested_state \<and>
   (case addPropertiesToMain join_url (\<lambda>s. False) id_dependent_group_id ''http://x/m.m3u8''
           nested_state of
      Inl e \<Rightarrow> False
    | Inr s1 \<Rightarrow>
        uri (heap s1 2) = Some [] \<and>
        (case addPropertiesToMain join_url (\<lambda>s. False) id_dependent_group_id
                ''http://x/m.m3u8'' s1 of
           Inl e \<Rightarrow> False
         | Inr s2 \<Rightarrow> uri (heap s2 2) = Some ''x''))"
proof (intro conjI)
  show "tree_shaped index_uri_state"
    by (simp add: tree_shaped_def all_refs_def entry_refs_def elements_def media_group_entries_def
        group_playlists_def index_uri_state_def no_fields_def)
  show "tree_shaped nested_state"
    by (simp add: tree_shaped_def all_refs_def entry_refs_def elements_def media_group_entries_def
        group_playlists_def nested_state_def no_fields_def)
  show "plain_keys nested_state"
    by (simp add: plain_keys_def nested_state_def no_fields_def to_str_def dot_plain
        example_plain_keys)
  show "case addPropertiesToMain join_url (\<lambda>s. False) default_group_id ''http://x/m.m3u8''
           index_uri_state of
      Inl e \<Rightarrow> False
    | Inr s1 \<Rightarrow>
        main_playlists s1 = [Some 0, Some 0] \<and> main_playlists_key s1 ''1-1'' = None \<and>
        (case addPropertiesToMain join_url (\<lambda>s. False) default_group_id ''http://x/m.m3u8'' s1 of
           Inl e \<Rightarrow> False
         | Inr s2 \<Rightarrow> main_playlists_key s2 ''1-1'' = Some 0)"
    by (simp add: run_defs index_uri_state_def no_fields_def join_url_def default_group_id_def)
  show "case addPropertiesToMain join_url (\<lambda>s. False) id_dependent_group_id ''http://x/m.m3u8''
           nested_state of
      Inl e \<Rightarrow> False
    | Inr s1 \<Rightarrow>
        uri (heap s1 2) = Some [] \<and>
        (case addPropertiesToMain join_url (\<lambda>s. False) id_dependent_group_id
                ''http://x/m.m3u8'' s1 of
           Inl e \<Rightarrow> False
         | Inr s2 \<Rightarrow> uri (heap s2 2) = Some ''x'')"
    by (simp add: run_defs nested_state_def no_fields_def join_url_def id_dependent_group_id_def)
qed

end
